(* ===== verification/Prelude.thy ===== *)
theory Prelude
  imports Main "HOL-Library.Word" "HOL-Library.Signed_Division" "HOL-Library.Char_ord"
    "HOL-Library.List_Lexorder"
begin

text \<open>
  What every component shares: the error values of the service, Go's \<open>errors.Is\<close>, the
  instants and durations of package \<open>time\<close>, the parts of \<open>strings\<close> and \<open>time\<close> the
  domain calls, and the sequencing of effectful calls that may fail.

  Go strings are byte strings, so a Go \<open>string\<close> is a HOL \<open>string\<close> (one \<open>char\<close> per byte).
  An instant (\<open>time.Time\<close>) is the number of nanoseconds since Go's zero time; zones do not
  matter to an instant. A \<open>time.Duration\<close> is a signed 64-bit count of nanoseconds.
\<close>

named_theorems io_simps \<open>unfolding of sequenced effectful calls\<close>
named_theorems slice_simps \<open>slice comparison loops as equality\<close>

type_synonym time = int
type_synonym duration = "64 word"

text \<open>Go's signed division truncates towards zero.\<close>

definition go_div :: "'a::len word \<Rightarrow> 'a word \<Rightarrow> 'a word" where
  "go_div a b = word_of_int (sint a sdiv sint b)"

section \<open>Errors\<close>

text \<open>One datatype per \<open>var ( ... )\<close> block of sentinel errors; \<open>err\<close> is Go's \<open>error\<close>.\<close>

datatype shared_error = ErrInvalidDestinationLocationRole

datatype processpath_error =
    ErrEmptyPathId | ErrEmptyMatchPrefix | ErrMatchPrefixNotLowercase
  | ErrNoRequiredCapabilities | ErrInvalidCycleTime | ErrPathDeactivated

datatype cptschedule_error =
    ErrEmptyTimezone | ErrInvalidTimezone | ErrNoCutoffs | ErrEmptyCptId | ErrDuplicateCptId
  | ErrEmptyLocalTime | ErrInvalidLocalTime | ErrNoDaysOfWeek | ErrInvalidDayOfWeek
  | ErrEmptyShipMethod | ErrNoEligiblePathIds

datatype usecase_error =
    ErrPathAlreadyExists | ErrPathNotFound | ErrCPTScheduleNotFound | ErrIneligiblePathId

text \<open>
  \<open>PlainErr\<close> is an error of a driver or of \<open>errors.New\<close> that no code compares against;
  \<open>WrapErr s e\<close> is \<open>fmt.Errorf("s: %w", e)\<close>, \<open>SuffixErr e s\<close> is
  \<open>fmt.Errorf("%w: %v", e, ...)\<close> with the text \<open>s\<close>, and \<open>JoinErr\<close> is \<open>errors.Join\<close>.
  \<open>WriteErrors\<close> is the error of a batch write of \<open>kafka-go\<close>, a slice with an entry per message
  (\<open>None\<close> is \<open>nil\<close>), which wraps nothing.
\<close>

datatype err =
    SharedErr shared_error
  | PathErr processpath_error
  | CptErr cptschedule_error
  | AppErr usecase_error
  | PlainErr string
  | WrapErr string err
  | SuffixErr err string
  | JoinErr err err
  | WriteErrors "err option list"

fun errors_Is :: "err \<Rightarrow> err \<Rightarrow> bool" where
  "errors_Is (WrapErr s e) t = (WrapErr s e = t \<or> errors_Is e t)"
| "errors_Is (SuffixErr e s) t = (SuffixErr e s = t \<or> errors_Is e t)"
| "errors_Is (JoinErr a b) t = (JoinErr a b = t \<or> errors_Is a t \<or> errors_Is b t)"
| "errors_Is e t = (e = t)"

text \<open>\<open>errors.Join\<close> drops what is \<open>nil\<close>.\<close>

fun errors_Join :: "err option list \<Rightarrow> err option" where
  "errors_Join [] = None"
| "errors_Join (None # es) = errors_Join es"
| "errors_Join (Some e # es) = Some (case errors_Join es of None \<Rightarrow> e | Some f \<Rightarrow> JoinErr e f)"

definition joined :: "err \<Rightarrow> err option list \<Rightarrow> err" where
  "joined e es = (case errors_Join es of None \<Rightarrow> e | Some f \<Rightarrow> JoinErr e f)"

lemma errors_Join_Is:
  "Some e \<in> set es \<Longrightarrow> errors_Is e t \<Longrightarrow> \<exists>j. errors_Join es = Some j \<and> errors_Is j t"
  by (induction es rule: errors_Join.induct) (auto split: option.split)

lemma errors_Is_refl [simp]: "errors_Is e e"
  by (cases e) auto

text \<open>A sentinel: a value of one of the four \<open>var\<close> blocks, which wraps nothing.\<close>

fun is_sentinel :: "err \<Rightarrow> bool" where
  "is_sentinel (SharedErr _) = True"
| "is_sentinel (PathErr _) = True"
| "is_sentinel (CptErr _) = True"
| "is_sentinel (AppErr _) = True"
| "is_sentinel _ = False"

lemma errors_Is_sentinel: "is_sentinel e \<Longrightarrow> errors_Is e t \<longleftrightarrow> e = t"
  by (cases e) auto

section \<open>Effectful calls that may fail\<close>

text \<open>
  A call against state \<open>'w\<close> that returns \<open>(T, error)\<close> in Go. \<open>io_bind\<close> is the idiom
  \<open>x, err := m(); if err != nil { return ..., err }; f(x)\<close>.
\<close>

type_synonym ('w, 'a) io = "'w \<Rightarrow> (err + 'a) \<times> 'w"

definition io_return :: "'a \<Rightarrow> ('w, 'a) io" where
  "io_return a = (\<lambda>w. (Inr a, w))"

definition io_fail :: "err \<Rightarrow> ('w, 'a) io" where
  "io_fail e = (\<lambda>w. (Inl e, w))"

definition io_bind :: "('w, 'a) io \<Rightarrow> ('a \<Rightarrow> ('w, 'b) io) \<Rightarrow> ('w, 'b) io" where
  "io_bind m f = (\<lambda>w. case m w of (Inl e, w') \<Rightarrow> (Inl e, w') | (Inr a, w') \<Rightarrow> f a w')"

definition io_lift :: "err + 'a \<Rightarrow> ('w, 'a) io" where
  "io_lift r = (\<lambda>w. (r, w))"

lemma io_return_run [io_simps, simp]: "io_return a w = (Inr a, w)"
  by (simp add: io_return_def)

lemma io_fail_run [io_simps, simp]: "io_fail e w = (Inl e, w)"
  by (simp add: io_fail_def)

lemma io_lift_run [io_simps, simp]: "io_lift r w = (r, w)"
  by (simp add: io_lift_def)

lemma io_bind_Inl [io_simps]: "m w = (Inl e, w') \<Longrightarrow> io_bind m f w = (Inl e, w')"
  by (simp add: io_bind_def)

lemma io_bind_Inr [io_simps]: "m w = (Inr a, w') \<Longrightarrow> io_bind m f w = f a w'"
  by (simp add: io_bind_def)

lemma io_bind_eq_Inr:
  "io_bind m f w = (Inr b, w'') \<longleftrightarrow> (\<exists>a w'. m w = (Inr a, w') \<and> f a w' = (Inr b, w''))"
  by (auto simp: io_bind_def split: prod.splits sum.splits)

lemma io_bind_eq_Inl:
  "io_bind m f w = (Inl e, w'') \<longleftrightarrow>
     m w = (Inl e, w'') \<or> (\<exists>a w'. m w = (Inr a, w') \<and> f a w' = (Inl e, w''))"
  by (auto simp: io_bind_def split: prod.splits sum.splits)

lemma io_bind_keeps:
  assumes "\<And>w. P w \<Longrightarrow> P (snd (m w))" "\<And>a w. P w \<Longrightarrow> P (snd (f a w))" "P w"
  shows "P (snd (io_bind m f w))"
  using assms(1) [OF assms(3)] assms(2)
  by (auto simp: io_bind_def split: prod.splits sum.splits)

lemmas io_bind_cases = io_bind_eq_Inr io_bind_eq_Inl

section \<open>Slice loops\<close>

text \<open>
  \<open>if len(a) != len(b) { return false }; for i := range a { if !eq(a[i], b[i]) { return false } };
  return true\<close>: every comparison loop of the domain has this shape.
\<close>

definition slicesAgree :: "('a \<Rightarrow> 'b \<Rightarrow> bool) \<Rightarrow> 'a list \<Rightarrow> 'b list \<Rightarrow> bool" where
  "slicesAgree eq a b = (if length a \<noteq> length b then False
     else list_all (\<lambda>i. eq (a ! i) (b ! i)) [0..<length a])"

lemma slicesAgree_all2: "slicesAgree eq a b \<longleftrightarrow> list_all2 eq a b"
  by (auto simp: slicesAgree_def list_all_iff list_all2_conv_all_nth)

lemma slicesAgree_eq [slice_simps]: "slicesAgree (=) a b \<longleftrightarrow> a = b"
  by (simp add: slicesAgree_all2 list.rel_eq)

lemma list_all2_eqI: "(\<And>x y. R x y \<longleftrightarrow> x = y) \<Longrightarrow> list_all2 R a b \<longleftrightarrow> a = b"
proof -
  assume "\<And>x y. R x y \<longleftrightarrow> x = y"
  then have "R = (=)" by (intro ext) simp
  then show ?thesis by (simp add: list.rel_eq)
qed

section \<open>The surroundings of the program\<close>

text \<open>
  What the code reads from outside its source: the Unicode case table behind the non-ASCII path of
  \<open>strings.ToLower\<close>, the host's time zone database behind \<open>time.LoadLocation\<close>, the database's
  collation (as a sort key, the way \<open>strxfrm\<close> gives one) and its \<open>TIMESTAMPTZ\<close> precision.
\<close>

record ext =
  unicode_lower :: "string \<Rightarrow> string"
  tz_database :: "string \<Rightarrow> bool"
  collation_key :: "string \<Rightarrow> string"
  stored_time :: "time \<Rightarrow> time"

definition char_code :: "char \<Rightarrow> nat" where
  "char_code c = of_char c"

definition ascii_lower :: "char \<Rightarrow> char" where
  "ascii_lower c = (if CHR ''A'' \<le> c \<and> c \<le> CHR ''Z'' then char_of (char_code c + 32) else c)"

definition is_ascii :: "string \<Rightarrow> bool" where
  "is_ascii s = list_all (\<lambda>c. char_code c < 128) s"

definition strings_ToLower :: "ext \<Rightarrow> string \<Rightarrow> string" where
  "strings_ToLower E s = (if is_ascii s then map ascii_lower s else unicode_lower E s)"

fun containsDotDot :: "string \<Rightarrow> bool" where
  "containsDotDot (a # b # cs) = ((a = CHR ''.'' \<and> b = CHR ''.'') \<or> containsDotDot (b # cs))"
| "containsDotDot _ = False"

text \<open>
  \<open>time.LoadLocation\<close>: the two built-in names (and the empty one) need no database, a name that
  could leave the database directory is refused, and any other name is looked up.
\<close>

definition LoadLocation :: "ext \<Rightarrow> string \<Rightarrow> bool" where
  "LoadLocation E name =
     (if name = '''' \<or> name = ''UTC'' then True
      else if name = ''Local'' then True
      else if containsDotDot name \<or> hd name = CHR 0x2F \<or> hd name = CHR 0x5C then False
      else tz_database E name)"

text \<open>A concrete surrounding for closed examples: ASCII only, two zones, byte-order collation.\<close>

definition demo_ext :: ext where
  "demo_ext = \<lparr>unicode_lower = id,
     tz_database = (\<lambda>z. z = ''America/Sao_Paulo'' \<or> z = ''America/New_York''),
     collation_key = id, stored_time = (\<lambda>t. t - t mod 1000)\<rparr>"

lemma ascii_lower_fixed_iff:
  "ascii_lower c = c \<longleftrightarrow> \<not> (CHR ''A'' \<le> c \<and> c \<le> CHR ''Z'')"
proof -
  have "char_of (char_code c + 32) \<noteq> c" if "c \<le> CHR ''Z''"
  proof
    assume eq: "char_of (char_code c + 32) = c"
    have "char_code c \<le> 90" using that by (simp add: less_eq_char_def char_code_def)
    then have "of_char (char_of (char_code c + 32) :: char) = (char_code c + 32 :: nat)"
      by (simp add: of_char_of)
    with eq show False by (simp add: char_code_def)
  qed
  then show ?thesis by (auto simp: ascii_lower_def)
qed

lemma ToLower_fixed_ascii:
  "is_ascii s \<Longrightarrow> strings_ToLower E s = s \<longleftrightarrow> (\<forall>c \<in> set s. \<not> (CHR ''A'' \<le> c \<and> c \<le> CHR ''Z''))"
  by (simp add: strings_ToLower_def ascii_lower_fixed_iff map_idI map_eq_conv[where g = id, simplified])

end
