(* ===== verification/Shared.thy ===== *)
theory Shared
  imports Prelude
begin

text \<open>
  Package \<open>internal/domain/shared\<close>: identity types, the destination role and the
  \<open>Eligibility\<close> value object. A nil slice and an empty slice are the same list here: every
  place where the code could tell them apart either copies into a fresh slice or omits empty
  ones.
\<close>

type_synonym PathId = string
type_synonym Capability = string
type_synonym SiteId = string
type_synonym DestinationLocationRole = string

section \<open>Destination roles (shared.go)\<close>

definition DestinationLocationRoleUnset :: DestinationLocationRole where
  "DestinationLocationRoleUnset = ''''"

definition DestinationLocationRoleDrop :: DestinationLocationRole where
  "DestinationLocationRoleDrop = ''Drop''"

definition DestinationLocationRoleWorkCenter :: DestinationLocationRole where
  "DestinationLocationRoleWorkCenter = ''WorkCenter''"

definition DestinationLocationRoleShipping :: DestinationLocationRole where
  "DestinationLocationRoleShipping = ''Shipping''"

lemmas role_defs = DestinationLocationRoleUnset_def DestinationLocationRoleDrop_def
  DestinationLocationRoleWorkCenter_def DestinationLocationRoleShipping_def

definition ParseDestinationLocationRole :: "string \<Rightarrow> err + DestinationLocationRole" where
  "ParseDestinationLocationRole s =
     (if s = DestinationLocationRoleUnset \<or> s = DestinationLocationRoleDrop
         \<or> s = DestinationLocationRoleWorkCenter \<or> s = DestinationLocationRoleShipping
      then Inr s
      else Inl (SharedErr ErrInvalidDestinationLocationRole))"

definition recognized_role :: "DestinationLocationRole \<Rightarrow> bool" where
  "recognized_role r \<longleftrightarrow> r \<in> {'''', ''Drop'', ''WorkCenter'', ''Shipping''}"

lemma ParseDestinationLocationRole_recognized:
  "ParseDestinationLocationRole s =
     (if recognized_role s then Inr s else Inl (SharedErr ErrInvalidDestinationLocationRole))"
  by (auto simp: ParseDestinationLocationRole_def recognized_role_def role_defs)

section \<open>Eligibility (eligibility.go)\<close>

record Eligibility =
  maxUnitsPerLine :: "int option"
  requiredProductAttributes :: "string list"
  excludedProductAttributes :: "string list"
  nonSortable :: bool

definition EligibilityZero :: Eligibility where
  "EligibilityZero = \<lparr>maxUnitsPerLine = None, requiredProductAttributes = [],
     excludedProductAttributes = [], nonSortable = False\<rparr>"

definition NewEligibility ::
    "int option \<Rightarrow> string list \<Rightarrow> string list \<Rightarrow> bool \<Rightarrow> Eligibility" where
  "NewEligibility maxUnits required excluded ns =
     \<lparr>maxUnitsPerLine = maxUnits, requiredProductAttributes = required,
      excludedProductAttributes = excluded, nonSortable = ns\<rparr>"

definition stringSlicesEqual :: "string list \<Rightarrow> string list \<Rightarrow> bool" where
  "stringSlicesEqual a b = slicesAgree (=) a b"

definition Eligibility_Equal :: "Eligibility \<Rightarrow> Eligibility \<Rightarrow> bool" where
  "Eligibility_Equal e other =
     (if (maxUnitsPerLine e = None) \<noteq> (maxUnitsPerLine other = None) then False
      else if maxUnitsPerLine e \<noteq> None
              \<and> the (maxUnitsPerLine e) \<noteq> the (maxUnitsPerLine other) then False
      else if nonSortable e \<noteq> nonSortable other then False
      else stringSlicesEqual (requiredProductAttributes e) (requiredProductAttributes other)
           \<and> stringSlicesEqual (excludedProductAttributes e) (excludedProductAttributes other))"

lemma Eligibility_Equal_iff [slice_simps]: "Eligibility_Equal e other \<longleftrightarrow> e = other"
  by (cases e; cases other)
     (auto simp: Eligibility_Equal_def stringSlicesEqual_def slicesAgree_eq)

end
