(* ===== verification/ProcessPath.thy ===== *)
theory ProcessPath
  imports Shared
begin

text \<open>
  Package \<open>internal/domain/processpath\<close>: the \<open>ProcessPath\<close> aggregate. A pointer method that
  mutates the receiver is a function that returns the new value. \<open>status\<close> is a string as in the
  code, because \<open>Rehydrate\<close> takes whatever the store holds.
\<close>

type_synonym Status = string

definition StatusActive :: Status where
  "StatusActive = ''ACTIVE''"

definition StatusDeactivated :: Status where
  "StatusDeactivated = ''DEACTIVATED''"

lemma Status_distinct [simp]: "StatusActive \<noteq> StatusDeactivated" "StatusDeactivated \<noteq> StatusActive"
  by (simp_all add: StatusActive_def StatusDeactivated_def)

record ProcessPath =
  pp_id :: PathId
  matchPrefix :: string
  direct :: bool
  requiredCapabilities :: "Capability list"
  destinationLocationRole :: DestinationLocationRole
  cycleTimeP95 :: duration
  eligibility :: Eligibility
  status :: Status
  createdAt :: time
  updatedAt :: time

section \<open>Operations\<close>

definition validate ::
    "ext \<Rightarrow> string \<Rightarrow> Capability list \<Rightarrow> DestinationLocationRole \<Rightarrow> duration \<Rightarrow> err option" where
  "validate E prefix caps role ct =
     (if prefix = '''' then Some (PathErr ErrEmptyMatchPrefix)
      else if prefix \<noteq> strings_ToLower E prefix then Some (PathErr ErrMatchPrefixNotLowercase)
      else if length caps = 0 then Some (PathErr ErrNoRequiredCapabilities)
      else case ParseDestinationLocationRole role of
             Inl e \<Rightarrow> Some e
           | Inr _ \<Rightarrow> if sint ct \<le> 0 then Some (PathErr ErrInvalidCycleTime) else None)"

definition Define ::
    "ext \<Rightarrow> PathId \<Rightarrow> string \<Rightarrow> bool \<Rightarrow> Capability list \<Rightarrow> DestinationLocationRole
     \<Rightarrow> duration \<Rightarrow> Eligibility \<Rightarrow> time \<Rightarrow> err + ProcessPath" where
  "Define E pid prefix dir caps role ct elig now =
     (if pid = '''' then Inl (PathErr ErrEmptyPathId)
      else case validate E prefix caps role ct of
             Some e \<Rightarrow> Inl e
           | None \<Rightarrow> Inr \<lparr>pp_id = pid, matchPrefix = prefix, direct = dir,
               requiredCapabilities = caps, destinationLocationRole = role, cycleTimeP95 = ct,
               eligibility = elig, status = StatusActive, createdAt = now, updatedAt = now\<rparr>)"

definition Rehydrate ::
    "PathId \<Rightarrow> string \<Rightarrow> bool \<Rightarrow> Capability list \<Rightarrow> DestinationLocationRole \<Rightarrow> duration
     \<Rightarrow> Eligibility \<Rightarrow> Status \<Rightarrow> time \<Rightarrow> time \<Rightarrow> ProcessPath" where
  "Rehydrate pid prefix dir caps role ct elig st created updated =
     \<lparr>pp_id = pid, matchPrefix = prefix, direct = dir, requiredCapabilities = caps,
      destinationLocationRole = role, cycleTimeP95 = ct, eligibility = elig, status = st,
      createdAt = created, updatedAt = updated\<rparr>"

definition capabilitiesEqual :: "Capability list \<Rightarrow> Capability list \<Rightarrow> bool" where
  "capabilitiesEqual a b = slicesAgree (=) a b"

text \<open>\<open>Revise\<close> returns \<open>(changed, err)\<close> and mutates the receiver: an error leaves it alone.\<close>

definition Revise ::
    "ext \<Rightarrow> ProcessPath \<Rightarrow> string \<Rightarrow> Capability list \<Rightarrow> duration \<Rightarrow> Eligibility \<Rightarrow> time
     \<Rightarrow> err + bool \<times> ProcessPath" where
  "Revise E p prefix caps ct elig now =
     (if status p \<noteq> StatusActive then Inl (PathErr ErrPathDeactivated)
      else case validate E prefix caps (destinationLocationRole p) ct of
             Some e \<Rightarrow> Inl e
           | None \<Rightarrow>
               if matchPrefix p = prefix \<and> capabilitiesEqual (requiredCapabilities p) caps
                  \<and> cycleTimeP95 p = ct \<and> Eligibility_Equal (eligibility p) elig
               then Inr (False, p)
               else Inr (True, p\<lparr>matchPrefix := prefix, requiredCapabilities := caps,
                       cycleTimeP95 := ct, eligibility := elig, updatedAt := now\<rparr>))"

definition Deactivate :: "ProcessPath \<Rightarrow> time \<Rightarrow> ProcessPath" where
  "Deactivate p now =
     (if status p = StatusDeactivated then p
      else p\<lparr>status := StatusDeactivated, updatedAt := now\<rparr>)"

definition IsActive :: "ProcessPath \<Rightarrow> bool" where
  "IsActive p \<longleftrightarrow> status p = StatusActive"

section \<open>Well-formed paths\<close>

definition definition_ok ::
    "ext \<Rightarrow> string \<Rightarrow> Capability list \<Rightarrow> DestinationLocationRole \<Rightarrow> duration \<Rightarrow> bool" where
  "definition_ok E prefix caps role ct \<longleftrightarrow>
     prefix \<noteq> '''' \<and> strings_ToLower E prefix = prefix \<and> caps \<noteq> [] \<and> recognized_role role
     \<and> 0 < sint ct"

definition wf_path :: "ext \<Rightarrow> ProcessPath \<Rightarrow> bool" where
  "wf_path E p \<longleftrightarrow> pp_id p \<noteq> '''' \<and> status p \<in> {StatusActive, StatusDeactivated}
     \<and> definition_ok E (matchPrefix p) (requiredCapabilities p) (destinationLocationRole p)
         (cycleTimeP95 p)"

lemma validate_None_iff: "validate E prefix caps role ct = None \<longleftrightarrow> definition_ok E prefix caps role ct"
  by (auto simp: validate_def definition_ok_def ParseDestinationLocationRole_recognized
        split: if_splits)

lemma capabilitiesEqual_iff [slice_simps]: "capabilitiesEqual a b \<longleftrightarrow> a = b"
  by (simp add: capabilitiesEqual_def slicesAgree_eq)

lemma validate_sentinel: "validate E prefix caps role ct = Some e \<Longrightarrow> is_sentinel e"
  by (auto simp: validate_def ParseDestinationLocationRole_def split: if_splits)

lemma Define_Inr_iff:
  "Define E pid prefix dir caps role ct elig now = Inr p \<longleftrightarrow>
     pid \<noteq> '''' \<and> definition_ok E prefix caps role ct
     \<and> p = \<lparr>pp_id = pid, matchPrefix = prefix, direct = dir, requiredCapabilities = caps,
            destinationLocationRole = role, cycleTimeP95 = ct, eligibility = elig,
            status = StatusActive, createdAt = now, updatedAt = now\<rparr>"
  by (auto simp: Define_def validate_None_iff [symmetric] split: option.splits)

lemma Define_sentinel: "Define E pid prefix dir caps role ct elig now = Inl e \<Longrightarrow> is_sentinel e"
  by (auto simp: Define_def dest: validate_sentinel split: if_splits option.splits)

lemma Define_wf: "Define E pid prefix dir caps role ct elig now = Inr p \<Longrightarrow> wf_path E p"
  by (auto simp: Define_Inr_iff wf_path_def)

lemma Define_id: "Define E pid prefix dir caps role ct elig now = Inr p \<Longrightarrow> pp_id p = pid"
  by (auto simp: Define_Inr_iff)

text \<open>The three outcomes of a revision: refused, nothing to do, applied.\<close>

lemma Revise_Inl_iff:
  "Revise E p prefix caps ct elig now = Inl e \<longleftrightarrow>
     (status p \<noteq> StatusActive \<and> e = PathErr ErrPathDeactivated)
     \<or> (status p = StatusActive
        \<and> validate E prefix caps (destinationLocationRole p) ct = Some e)"
  by (auto simp: Revise_def split: option.splits if_splits)

lemma Revise_Inr_iff:
  "Revise E p prefix caps ct elig now = Inr (changed, q) \<longleftrightarrow>
     status p = StatusActive \<and> definition_ok E prefix caps (destinationLocationRole p) ct
     \<and> (changed \<longleftrightarrow> \<not> (matchPrefix p = prefix \<and> requiredCapabilities p = caps
                      \<and> cycleTimeP95 p = ct \<and> eligibility p = elig))
     \<and> q = (if changed then p\<lparr>matchPrefix := prefix, requiredCapabilities := caps,
               cycleTimeP95 := ct, eligibility := elig, updatedAt := now\<rparr> else p)"
  by (auto simp: Revise_def validate_None_iff [symmetric] slice_simps split: option.splits)

lemma Revise_sentinel: "Revise E p prefix caps ct elig now = Inl e \<Longrightarrow> is_sentinel e"
  by (auto simp: Revise_Inl_iff dest: validate_sentinel)

lemma Revise_wf: "Revise E p prefix caps ct elig now = Inr (changed, q) \<Longrightarrow> wf_path E p \<Longrightarrow> wf_path E q"
  by (auto simp: Revise_Inr_iff wf_path_def)

lemma Revise_frame:
  assumes "Revise E p prefix caps ct elig now = Inr (changed, q)"
  shows "pp_id q = pp_id p" "direct q = direct p" "status q = status p"
    "destinationLocationRole q = destinationLocationRole p" "createdAt q = createdAt p"
  using assms by (auto simp: Revise_Inr_iff split: if_splits)

lemma Deactivate_wf: "wf_path E p \<Longrightarrow> wf_path E (Deactivate p now)"
  by (auto simp: Deactivate_def wf_path_def)

lemma Deactivate_frame [simp]:
  "pp_id (Deactivate p now) = pp_id p" "direct (Deactivate p now) = direct p"
  "destinationLocationRole (Deactivate p now) = destinationLocationRole p"
  "createdAt (Deactivate p now) = createdAt p" "status (Deactivate p now) = StatusDeactivated"
  by (auto simp: Deactivate_def)

lemma Deactivate_idem [simp]: "Deactivate (Deactivate p t) t' = Deactivate p t"
  by (simp add: Deactivate_def)

lemma wf_path_active_cases: "wf_path E p \<Longrightarrow> IsActive p \<or> status p = StatusDeactivated"
  by (auto simp: wf_path_def IsActive_def)

section \<open>Histories of one aggregate\<close>

text \<open>The commands a path can receive, and the state after a list of them.\<close>

datatype path_cmd =
    CmdRevise string "Capability list" duration Eligibility time
  | CmdDeactivate time

fun path_step :: "ext \<Rightarrow> ProcessPath \<Rightarrow> path_cmd \<Rightarrow> ProcessPath" where
  "path_step E p (CmdRevise prefix caps ct elig now) =
     (case Revise E p prefix caps ct elig now of Inl _ \<Rightarrow> p | Inr (_, q) \<Rightarrow> q)"
| "path_step E p (CmdDeactivate now) = Deactivate p now"

fun path_run :: "ext \<Rightarrow> ProcessPath \<Rightarrow> path_cmd list \<Rightarrow> ProcessPath" where
  "path_run E p [] = p"
| "path_run E p (c # cs) = path_run E (path_step E p c) cs"

definition same_identity :: "ProcessPath \<Rightarrow> ProcessPath \<Rightarrow> bool" where
  "same_identity p q \<longleftrightarrow> pp_id q = pp_id p \<and> direct q = direct p
     \<and> destinationLocationRole q = destinationLocationRole p \<and> createdAt q = createdAt p"

lemma same_identity_refl [simp]: "same_identity p p"
  by (simp add: same_identity_def)

lemma same_identity_trans: "same_identity p q \<Longrightarrow> same_identity q r \<Longrightarrow> same_identity p r"
  by (simp add: same_identity_def)

lemma path_step_wf: "wf_path E p \<Longrightarrow> wf_path E (path_step E p c)"
  by (cases c) (auto intro: Revise_wf Deactivate_wf split: sum.splits)

lemma path_step_identity: "same_identity p (path_step E p c)"
  by (cases c) (auto simp: same_identity_def Revise_frame split: sum.splits)

lemma path_step_frozen: "status p = StatusDeactivated \<Longrightarrow> path_step E p c = p"
  by (cases c) (auto simp: Revise_def Deactivate_def)

lemma path_run_wf: "wf_path E p \<Longrightarrow> wf_path E (path_run E p cs)"
  by (induction cs arbitrary: p) (auto intro: path_step_wf)

lemma path_run_identity: "same_identity p (path_run E p cs)"
proof (induction cs arbitrary: p)
  case (Cons c cs)
  then show ?case using path_step_identity [of p E c] by (auto intro: same_identity_trans)
qed simp

lemma path_run_frozen: "status p = StatusDeactivated \<Longrightarrow> path_run E p cs = p"
  by (induction cs arbitrary: p) (auto simp: path_step_frozen)

lemma path_run_append: "path_run E p (cs @ ds) = path_run E (path_run E p cs) ds"
  by (induction cs arbitrary: p) auto

end
