(* ===== verification/CPTSchedule.thy ===== *)
theory CPTSchedule
  imports Shared
begin

text \<open>
  Package \<open>internal/domain/cptschedule\<close>: cutoffs, the site-scoped \<open>CPTSchedule\<close> aggregate and
  the snapshot that its event carries. \<open>Weekday\<close> is a string, as in the code.
\<close>

type_synonym Weekday = string

definition validWeekdays :: "Weekday list" where
  "validWeekdays = [''Mon'', ''Tue'', ''Wed'', ''Thu'', ''Fri'', ''Sat'', ''Sun'']"

record Cutoff =
  cptId :: string
  localTime :: string
  daysOfWeek :: "Weekday list"
  shipMethod :: string
  eligiblePathIds :: "PathId list"

section \<open>Cutoffs\<close>

text \<open>
  \<open>parseDigits\<close> walks the runes of its argument; every byte of a multi-byte or invalid rune is
  above \<open>'9'\<close>, so walking bytes rejects the same arguments.
\<close>

fun parseDigits_from :: "nat \<Rightarrow> string \<Rightarrow> nat option" where
  "parseDigits_from n [] = Some n"
| "parseDigits_from n (r # rs) =
     (if r < CHR ''0'' \<or> r > CHR ''9'' then None
      else parseDigits_from (n * 10 + (char_code r - char_code CHR ''0'')) rs)"

definition parseDigits :: "string \<Rightarrow> nat option" where
  "parseDigits s = parseDigits_from 0 s"

definition isValidLocalTime :: "string \<Rightarrow> bool" where
  "isValidLocalTime s =
     (if length s \<noteq> 5 \<or> s ! 2 \<noteq> CHR '':'' then False
      else case (parseDigits (take 2 s), parseDigits (take 2 (drop 3 s))) of
             (Some h, Some m) \<Rightarrow> h \<le> 23 \<and> m \<le> 59
           | _ \<Rightarrow> False)"

definition NewCutoff ::
    "string \<Rightarrow> string \<Rightarrow> Weekday list \<Rightarrow> string \<Rightarrow> PathId list \<Rightarrow> err + Cutoff" where
  "NewCutoff cid lt days ship ids =
     (if cid = '''' then Inl (CptErr ErrEmptyCptId)
      else if lt = '''' then Inl (CptErr ErrEmptyLocalTime)
      else if \<not> isValidLocalTime lt then Inl (CptErr ErrInvalidLocalTime)
      else if length days = 0 then Inl (CptErr ErrNoDaysOfWeek)
      else if list_ex (\<lambda>d. \<not> List.member validWeekdays d) days
        then Inl (CptErr ErrInvalidDayOfWeek)
      else if ship = '''' then Inl (CptErr ErrEmptyShipMethod)
      else if length ids = 0 then Inl (CptErr ErrNoEligiblePathIds)
      else Inr \<lparr>cptId = cid, localTime = lt, daysOfWeek = days, shipMethod = ship,
                eligiblePathIds = ids\<rparr>)"

section \<open>The aggregate\<close>

record CPTSchedule =
  cs_siteId :: SiteId
  cs_timezone :: string
  cs_cutoffs :: "Cutoff list"
  cs_createdAt :: time
  cs_updatedAt :: time

text \<open>The loop of \<open>validate\<close> over the cutoffs, with the map of the ids seen so far.\<close>

fun duplicate_cptId :: "string set \<Rightarrow> Cutoff list \<Rightarrow> bool" where
  "duplicate_cptId seen [] = False"
| "duplicate_cptId seen (c # cs) =
     (if cptId c \<in> seen then True else duplicate_cptId (insert (cptId c) seen) cs)"

definition cpt_validate :: "ext \<Rightarrow> string \<Rightarrow> Cutoff list \<Rightarrow> err option" where
  "cpt_validate E tz cs =
     (if tz = '''' then Some (CptErr ErrEmptyTimezone)
      else if \<not> LoadLocation E tz then Some (CptErr ErrInvalidTimezone)
      else if length cs = 0 then Some (CptErr ErrNoCutoffs)
      else if duplicate_cptId {} cs then Some (CptErr ErrDuplicateCptId)
      else None)"

definition cpt_Define ::
    "ext \<Rightarrow> SiteId \<Rightarrow> string \<Rightarrow> Cutoff list \<Rightarrow> time \<Rightarrow> err + CPTSchedule" where
  "cpt_Define E site tz cs now =
     (case cpt_validate E tz cs of
        Some e \<Rightarrow> Inl e
      | None \<Rightarrow> Inr \<lparr>cs_siteId = site, cs_timezone = tz, cs_cutoffs = cs,
                      cs_createdAt = now, cs_updatedAt = now\<rparr>)"

definition cpt_Rehydrate ::
    "SiteId \<Rightarrow> string \<Rightarrow> Cutoff list \<Rightarrow> time \<Rightarrow> time \<Rightarrow> CPTSchedule" where
  "cpt_Rehydrate site tz cs created updated =
     \<lparr>cs_siteId = site, cs_timezone = tz, cs_cutoffs = cs, cs_createdAt = created,
      cs_updatedAt = updated\<rparr>"

definition weekdaysEqual :: "Weekday list \<Rightarrow> Weekday list \<Rightarrow> bool" where
  "weekdaysEqual a b = slicesAgree (=) a b"

definition pathIdsEqual :: "PathId list \<Rightarrow> PathId list \<Rightarrow> bool" where
  "pathIdsEqual a b = slicesAgree (=) a b"

definition cutoffsEqual :: "Cutoff list \<Rightarrow> Cutoff list \<Rightarrow> bool" where
  "cutoffsEqual a b = slicesAgree (\<lambda>x y.
     \<not> (cptId x \<noteq> cptId y \<or> localTime x \<noteq> localTime y \<or> shipMethod x \<noteq> shipMethod y
        \<or> \<not> weekdaysEqual (daysOfWeek x) (daysOfWeek y)
        \<or> \<not> pathIdsEqual (eligiblePathIds x) (eligiblePathIds y))) a b"

definition cpt_Revise ::
    "ext \<Rightarrow> CPTSchedule \<Rightarrow> string \<Rightarrow> Cutoff list \<Rightarrow> time \<Rightarrow> err + bool \<times> CPTSchedule" where
  "cpt_Revise E s tz cs now =
     (case cpt_validate E tz cs of
        Some e \<Rightarrow> Inl e
      | None \<Rightarrow> if cs_timezone s = tz \<and> cutoffsEqual (cs_cutoffs s) cs then Inr (False, s)
                else Inr (True, s\<lparr>cs_timezone := tz, cs_cutoffs := cs, cs_updatedAt := now\<rparr>))"

text \<open>\<open>AllEligiblePathIds\<close>: the two nested loops with one \<open>seen\<close> map, then \<open>slices.Sort\<close>.\<close>

fun collect_ids :: "PathId set \<Rightarrow> PathId list \<Rightarrow> PathId list \<Rightarrow> PathId set \<times> PathId list" where
  "collect_ids seen out [] = (seen, out)"
| "collect_ids seen out (i # is) =
     (if i \<in> seen then collect_ids seen out is
      else collect_ids (insert i seen) (out @ [i]) is)"

fun collect_cutoffs :: "PathId set \<Rightarrow> PathId list \<Rightarrow> Cutoff list \<Rightarrow> PathId list" where
  "collect_cutoffs seen out [] = out"
| "collect_cutoffs seen out (c # cs) =
     (case collect_ids seen out (eligiblePathIds c) of (seen', out') \<Rightarrow>
        collect_cutoffs seen' out' cs)"

definition AllEligiblePathIds :: "CPTSchedule \<Rightarrow> PathId list" where
  "AllEligiblePathIds s = sort (collect_cutoffs {} [] (cs_cutoffs s))"

section \<open>The snapshot (events.go)\<close>

record CutoffSnapshot =
  sn_cptId :: string
  sn_localTime :: string
  sn_daysOfWeek :: "Weekday list"
  sn_shipMethod :: string
  sn_eligiblePathIds :: "PathId list"

record ScheduleSnapshot =
  sn_siteId :: SiteId
  sn_timezone :: string
  sn_cutoffs :: "CutoffSnapshot list"
  sn_at :: time

definition cutoff_snapshot :: "Cutoff \<Rightarrow> CutoffSnapshot" where
  "cutoff_snapshot c = \<lparr>sn_cptId = cptId c, sn_localTime = localTime c,
     sn_daysOfWeek = daysOfWeek c, sn_shipMethod = shipMethod c,
     sn_eligiblePathIds = eligiblePathIds c\<rparr>"

definition ToSnapshot :: "CPTSchedule \<Rightarrow> time \<Rightarrow> ScheduleSnapshot" where
  "ToSnapshot s now = \<lparr>sn_siteId = cs_siteId s, sn_timezone = cs_timezone s,
     sn_cutoffs = map cutoff_snapshot (cs_cutoffs s), sn_at = now\<rparr>"

section \<open>Well-formed schedules\<close>

definition wf_cutoff :: "Cutoff \<Rightarrow> bool" where
  "wf_cutoff c \<longleftrightarrow> cptId c \<noteq> '''' \<and> isValidLocalTime (localTime c) \<and> daysOfWeek c \<noteq> []
     \<and> set (daysOfWeek c) \<subseteq> set validWeekdays \<and> shipMethod c \<noteq> '''' \<and> eligiblePathIds c \<noteq> []"

definition schedule_ok :: "ext \<Rightarrow> string \<Rightarrow> Cutoff list \<Rightarrow> bool" where
  "schedule_ok E tz cs \<longleftrightarrow> tz \<noteq> '''' \<and> LoadLocation E tz \<and> cs \<noteq> [] \<and> distinct (map cptId cs)"

definition wf_schedule :: "ext \<Rightarrow> CPTSchedule \<Rightarrow> bool" where
  "wf_schedule E s \<longleftrightarrow> schedule_ok E (cs_timezone s) (cs_cutoffs s) \<and> list_all wf_cutoff (cs_cutoffs s)"

lemma isValidLocalTime_Nil [simp]: "\<not> isValidLocalTime []"
  by (simp add: isValidLocalTime_def)

lemma NewCutoff_Inr_iff:
  "NewCutoff cid lt days ship ids = Inr c \<longleftrightarrow>
     wf_cutoff c \<and> c = \<lparr>cptId = cid, localTime = lt, daysOfWeek = days, shipMethod = ship,
                eligiblePathIds = ids\<rparr>"
  by (auto simp: NewCutoff_def wf_cutoff_def list_ex_iff)

lemma NewCutoff_sentinel: "NewCutoff cid lt days ship ids = Inl e \<Longrightarrow> is_sentinel e"
  by (auto simp: NewCutoff_def split: if_splits)

lemma NewCutoff_of_wf:
  "wf_cutoff c \<Longrightarrow>
     NewCutoff (cptId c) (localTime c) (daysOfWeek c) (shipMethod c) (eligiblePathIds c) = Inr c"
  by (simp add: NewCutoff_Inr_iff)

lemma duplicate_cptId_iff:
  "duplicate_cptId seen cs \<longleftrightarrow> \<not> distinct (map cptId cs) \<or> set (map cptId cs) \<inter> seen \<noteq> {}"
  by (induction cs arbitrary: seen) auto

lemma cpt_validate_None_iff: "cpt_validate E tz cs = None \<longleftrightarrow> schedule_ok E tz cs"
  by (auto simp: cpt_validate_def schedule_ok_def duplicate_cptId_iff)

lemma cpt_validate_sentinel: "cpt_validate E tz cs = Some e \<Longrightarrow> is_sentinel e"
  by (auto simp: cpt_validate_def split: if_splits)

lemma cutoffsEqual_iff [slice_simps]: "cutoffsEqual a b \<longleftrightarrow> a = b"
  unfolding cutoffsEqual_def slicesAgree_all2
  by (rule list_all2_eqI) (auto simp: weekdaysEqual_def pathIdsEqual_def slice_simps)

lemma cpt_Define_Inr_iff:
  "cpt_Define E site tz cs now = Inr s \<longleftrightarrow> schedule_ok E tz cs
     \<and> s = \<lparr>cs_siteId = site, cs_timezone = tz, cs_cutoffs = cs, cs_createdAt = now,
            cs_updatedAt = now\<rparr>"
  by (auto simp: cpt_Define_def cpt_validate_None_iff [symmetric] split: option.splits)

lemma cpt_Define_sentinel: "cpt_Define E site tz cs now = Inl e \<Longrightarrow> is_sentinel e"
  by (auto simp: cpt_Define_def dest: cpt_validate_sentinel split: option.splits)

lemma cpt_Revise_Inr_iff:
  "cpt_Revise E s tz cs now = Inr (changed, s') \<longleftrightarrow> schedule_ok E tz cs
     \<and> (changed \<longleftrightarrow> \<not> (cs_timezone s = tz \<and> cs_cutoffs s = cs))
     \<and> s' = (if changed then s\<lparr>cs_timezone := tz, cs_cutoffs := cs, cs_updatedAt := now\<rparr> else s)"
  by (auto simp: cpt_Revise_def cpt_validate_None_iff [symmetric] slice_simps split: option.splits)

lemma cpt_Revise_sentinel: "cpt_Revise E s tz cs now = Inl e \<Longrightarrow> is_sentinel e"
  by (auto simp: cpt_Revise_def dest: cpt_validate_sentinel split: option.splits if_splits)

lemma cpt_Define_wf:
  "cpt_Define E site tz cs now = Inr s \<Longrightarrow> list_all wf_cutoff cs \<Longrightarrow> wf_schedule E s"
  by (auto simp: cpt_Define_Inr_iff wf_schedule_def)

lemma cpt_Revise_wf:
  "cpt_Revise E s tz cs now = Inr (changed, s') \<Longrightarrow> list_all wf_cutoff cs \<Longrightarrow> wf_schedule E s'"
  by (auto simp: cpt_Revise_Inr_iff wf_schedule_def)

lemma cpt_Revise_frame:
  "cpt_Revise E s tz cs now = Inr (changed, s') \<Longrightarrow>
     cs_siteId s' = cs_siteId s \<and> cs_createdAt s' = cs_createdAt s
     \<and> cs_timezone s' = tz \<and> cs_cutoffs s' = cs"
  by (auto simp: cpt_Revise_Inr_iff split: if_splits)

section \<open>Collected path ids\<close>

lemma collect_ids_props:
  assumes "collect_ids seen out is = (seen', out')" "distinct out" "set out = seen"
  shows "distinct out' \<and> set out' = seen' \<and> seen' = seen \<union> set is"
  using assms by (induction seen out "is" rule: collect_ids.induct) (auto split: if_splits)

lemma collect_cutoffs_props:
  assumes "distinct out" "set out = seen"
  shows "distinct (collect_cutoffs seen out cs)
    \<and> set (collect_cutoffs seen out cs) = seen \<union> (\<Union>c \<in> set cs. set (eligiblePathIds c))"
  using assms
proof (induction cs arbitrary: seen out)
  case (Cons c cs)
  obtain seen' out' where e: "collect_ids seen out (eligiblePathIds c) = (seen', out')"
    by fastforce
  from collect_ids_props [OF e Cons.prems] Cons.IH [of out' seen'] e show ?case by auto
qed simp

section \<open>Local times\<close>

definition digit :: "nat \<Rightarrow> char" where
  "digit n = char_of (n + 48)"

definition two_digits :: "nat \<Rightarrow> string" where
  "two_digits n = [digit (n div 10), digit (n mod 10)]"

lemma char_code_digit: "n < 10 \<Longrightarrow> char_code (digit n) = n + 48"
  by (simp add: char_code_def digit_def of_char_of)

lemma digit_bounds: "n < 10 \<Longrightarrow> \<not> (digit n < CHR ''0'') \<and> \<not> (CHR ''9'' < digit n)"
  by (simp add: less_char_def digit_def of_char_of)

lemma digit_exists:
  assumes "\<not> (r < CHR ''0'')" "\<not> (CHR ''9'' < r)"
  shows "\<exists>n < 10. r = digit n"
proof -
  have b: "48 \<le> char_code r" "char_code r \<le> 57"
    using assms by (simp_all add: less_char_def char_code_def)
  have "r = char_of (char_code r)" by (simp add: char_code_def)
  with b have "r = digit (char_code r - 48)" by (simp add: digit_def)
  with b show ?thesis by (intro exI [of _ "char_code r - 48"]) auto
qed

lemma parseDigits_pair_iff:
  "parseDigits [a, b] = Some n \<longleftrightarrow> (\<exists>x < 10. \<exists>y < 10. a = digit x \<and> b = digit y \<and> n = 10 * x + y)"
proof
  assume l: "parseDigits [a, b] = Some n"
  then obtain x y where "x < 10" "a = digit x" "y < 10" "b = digit y"
    using digit_exists [of a] digit_exists [of b] by (auto simp: parseDigits_def split: if_splits)
  moreover from this l have "n = 10 * x + y"
    by (auto simp: parseDigits_def digit_bounds char_code_digit char_code_def[of "CHR ''0''"])
  ultimately show "\<exists>x < 10. \<exists>y < 10. a = digit x \<and> b = digit y \<and> n = 10 * x + y" by blast
next
  assume "\<exists>x < 10. \<exists>y < 10. a = digit x \<and> b = digit y \<and> n = 10 * x + y"
  then show "parseDigits [a, b] = Some n"
    by (auto simp: parseDigits_def digit_bounds char_code_digit char_code_def[of "CHR ''0''"])
qed

lemma parseDigits_two_digits_iff:
  "parseDigits [a, b] = Some n \<longleftrightarrow> n < 100 \<and> [a, b] = two_digits n"
proof
  assume "parseDigits [a, b] = Some n"
  then show "n < 100 \<and> [a, b] = two_digits n"
    by (auto simp: parseDigits_pair_iff two_digits_def)
next
  assume "n < 100 \<and> [a, b] = two_digits n"
  then show "parseDigits [a, b] = Some n"
    unfolding parseDigits_pair_iff two_digits_def
    by (intro exI [of _ "n div 10"] conjI exI [of _ "n mod 10"]) auto
qed

lemma length5: "length s = 5 \<Longrightarrow> \<exists>a b c d e. s = [a, b, c, d, e]"
  by (auto simp: length_Suc_conv eval_nat_numeral)

lemma isValidLocalTime_parts:
  "isValidLocalTime [a, b, c, d, e] \<longleftrightarrow> c = CHR '':'' \<and>
     (\<exists>h m. parseDigits [a, b] = Some h \<and> parseDigits [d, e] = Some m \<and> h \<le> 23 \<and> m \<le> 59)"
  by (auto simp: isValidLocalTime_def split: option.splits)

lemma isValidLocalTime_five:
  "isValidLocalTime [a, b, c, d, e] \<longleftrightarrow> c = CHR '':'' \<and>
     (\<exists>h \<le> 23. \<exists>m \<le> 59. [a, b] = two_digits h \<and> [d, e] = two_digits m)"
  unfolding isValidLocalTime_parts parseDigits_two_digits_iff by force

lemma two_digits_pair: "\<exists>a b. two_digits n = [a, b]"
  by (simp add: two_digits_def)

lemma isValidLocalTime_iff_rendered:
  "isValidLocalTime s \<longleftrightarrow> (\<exists>h \<le> 23. \<exists>m \<le> 59. s = two_digits h @ '':'' @ two_digits m)"
proof
  assume v: "isValidLocalTime s"
  then have "length s = 5" by (simp add: isValidLocalTime_def split: if_splits)
  then obtain a b c d e where s: "s = [a, b, c, d, e]" using length5 by blast
  with v obtain h m where "h \<le> 23" "m \<le> 59" "c = CHR '':''" "[a, b] = two_digits h" "[d, e] = two_digits m"
    by (auto simp: isValidLocalTime_five)
  moreover from this s have "s = two_digits h @ '':'' @ two_digits m"
    by (metis append_Cons append_Nil)
  ultimately show "\<exists>h \<le> 23. \<exists>m \<le> 59. s = two_digits h @ '':'' @ two_digits m" by blast
next
  assume "\<exists>h \<le> 23. \<exists>m \<le> 59. s = two_digits h @ '':'' @ two_digits m"
  then obtain h m where hm: "h \<le> 23" "m \<le> 59" and s: "s = two_digits h @ '':'' @ two_digits m" by blast
  from two_digits_pair [of h] two_digits_pair [of m] obtain a b d e
    where "two_digits h = [a, b]" "two_digits m = [d, e]" by blast
  with hm s show "isValidLocalTime s" by (simp add: isValidLocalTime_five) metis
qed

end
