(* ===== verification/DomainClaims.thy ===== *)
theory DomainClaims
  imports ProcessPath CPTSchedule
begin

text \<open>
  The properties of the two aggregates, each a few steps over the lemmas of \<open>ProcessPath\<close> and
  \<open>CPTSchedule\<close>, with their witnesses.
\<close>

section \<open>Process paths\<close>

text \<open>
  \<open>Define\<close> decides exactly by the declared rules (non-empty id; non-empty lower-case prefix; at
  least one capability; a recognised or absent destination role; a positive cycle time): it returns
  a well-formed active path carrying the arguments, stamped with \<open>now\<close>, when all hold, and one of
  the domain's sentinel errors when one fails.
\<close>

lemma define_decides:
  "case Define E pid prefix dir caps role ct elig now of
     Inl e \<Rightarrow> is_sentinel e \<and> \<not> (pid \<noteq> '''' \<and> definition_ok E prefix caps role ct)
   | Inr p \<Rightarrow> pid \<noteq> '''' \<and> definition_ok E prefix caps role ct \<and> wf_path E p \<and> IsActive p
       \<and> pp_id p = pid \<and> matchPrefix p = prefix \<and> direct p = dir \<and> requiredCapabilities p = caps
       \<and> destinationLocationRole p = role \<and> cycleTimeP95 p = ct \<and> eligibility p = elig
       \<and> createdAt p = now \<and> updatedAt p = now"
proof (cases "Define E pid prefix dir caps role ct elig now")
  case (Inl e)
  then have "pid = '''' \<or> \<not> definition_ok E prefix caps role ct"
    by (auto simp: Define_def validate_None_iff [symmetric] split: if_splits option.splits)
  then show ?thesis using Define_sentinel [OF Inl] by (simp add: Inl)
next
  case (Inr p)
  show ?thesis
    using Define_wf [OF Inr] Inr [unfolded Define_Inr_iff] by (auto simp: Inr IsActive_def)
qed

text \<open>
  \<open>Revise\<close> refuses a path that is not active with \<open>ErrPathDeactivated\<close>, refuses an invalid new
  definition (the role being the one fixed at definition), reports \<open>changed = False\<close> and leaves the
  path as it is when nothing differs, and otherwise replaces exactly prefix, capabilities, cycle
  time, eligibility and \<open>updatedAt\<close>.
\<close>

lemma revise_decides:
  "case Revise E p prefix caps ct elig now of
     Inl e \<Rightarrow> is_sentinel e \<and> (if IsActive p
        then \<not> definition_ok E prefix caps (destinationLocationRole p) ct
        else e = PathErr ErrPathDeactivated)
   | Inr (changed, q) \<Rightarrow> IsActive p \<and> definition_ok E prefix caps (destinationLocationRole p) ct
       \<and> changed = (\<not> (matchPrefix p = prefix \<and> requiredCapabilities p = caps
                       \<and> cycleTimeP95 p = ct \<and> eligibility p = elig))
       \<and> q = (if changed then p\<lparr>matchPrefix := prefix, requiredCapabilities := caps,
                cycleTimeP95 := ct, eligibility := elig, updatedAt := now\<rparr> else p)"
proof (cases "Revise E p prefix caps ct elig now")
  case (Inl e)
  then show ?thesis
    using Revise_sentinel [OF Inl] Inl [unfolded Revise_Inl_iff]
    by (auto simp: Inl IsActive_def validate_None_iff [symmetric])
next
  case (Inr r)
  then obtain changed q where r: "Revise E p prefix caps ct elig now = Inr (changed, q)"
    by (cases r) simp
  show ?thesis using r [unfolded Revise_Inr_iff] by (auto simp: r IsActive_def)
qed

text \<open>
  C25. Over any history of revisions and deactivations, a well-formed path stays well-formed, keeps
  its id, its direct flag, its destination role and its creation time, and once it is deactivated no
  later command changes anything of it.
\<close>

lemma path_lifecycle:
  assumes "wf_path E p"
  shows "wf_path E (path_run E p cs) \<and> same_identity p (path_run E p cs)
    \<and> (status (path_run E p cs) = StatusDeactivated \<longrightarrow>
         path_run E p (cs @ ds) = path_run E p cs)"
  using assms by (simp add: path_run_wf path_run_identity path_run_append path_run_frozen)

definition sample_path :: ProcessPath where
  "sample_path = \<lparr>pp_id = ''pick-pack'', matchPrefix = ''pp'', direct = False,
     requiredCapabilities = [''pick'', ''pack''], destinationLocationRole = ''Drop'',
     cycleTimeP95 = 7200000000000, eligibility = EligibilityZero, status = StatusActive,
     createdAt = 10, updatedAt = 10\<rparr>"

lemma sample_path_wf: "wf_path demo_ext sample_path"
  by (simp add: wf_path_def sample_path_def definition_ok_def recognized_role_def role_defs
      demo_ext_def strings_ToLower_def is_ascii_def char_code_def ascii_lower_def less_eq_char_def)

lemma path_lifecycle_witness:
  "let q = path_run demo_ext sample_path [CmdDeactivate 20] in
     wf_path demo_ext q \<and> status q = StatusDeactivated
     \<and> path_run demo_ext sample_path ([CmdDeactivate 20] @ [CmdDeactivate 30]) = q"
  using path_lifecycle [OF sample_path_wf, of "[CmdDeactivate 20]" "[CmdDeactivate 30]"]
  by (simp add: Let_def)

section \<open>CPT schedules\<close>

text \<open>
  C37. \<open>isValidLocalTime\<close> accepts exactly the texts \<open>HH:MM\<close> of a minute of the day: two digits each,
  hours up to 23, minutes up to 59, a colon between, nothing else.
\<close>

lemma local_time_grammar:
  "isValidLocalTime s \<longleftrightarrow> (\<exists>h \<le> 23. \<exists>m \<le> 59. s = two_digits h @ '':'' @ two_digits m)"
  by (rule isValidLocalTime_iff_rendered)

text \<open>
  A cutoff exists only when it is well formed: \<open>NewCutoff\<close> returns the cutoff with its arguments
  exactly when the id, the ship method, the days and the path ids are present, the days are week
  days and the time is a valid local time, and a sentinel error otherwise.
\<close>

lemma new_cutoff_decides:
  "case NewCutoff cid lt days ship pids of
     Inl e \<Rightarrow> is_sentinel e \<and> \<not> wf_cutoff \<lparr>cptId = cid, localTime = lt, daysOfWeek = days,
                 shipMethod = ship, eligiblePathIds = pids\<rparr>
   | Inr c \<Rightarrow> wf_cutoff c \<and> c = \<lparr>cptId = cid, localTime = lt, daysOfWeek = days,
                 shipMethod = ship, eligiblePathIds = pids\<rparr>"
proof (cases "NewCutoff cid lt days ship pids")
  case (Inl e)
  then show ?thesis
    using NewCutoff_sentinel [OF Inl] NewCutoff_of_wf [of "\<lparr>cptId = cid, localTime = lt,
      daysOfWeek = days, shipMethod = ship, eligiblePathIds = pids\<rparr>"] by auto
next
  case (Inr c)
  show ?thesis using Inr [unfolded NewCutoff_Inr_iff] by (auto simp: Inr)
qed

text \<open>
  Revising a schedule with well-formed cutoffs keeps it well formed, keeps its site and creation
  time, replaces zone and cutoffs as a whole, and reports no change exactly when both are the same
  as before, cutoffs compared in order.
\<close>

lemma schedule_revision:
  assumes "cpt_Revise E s tz cs now = Inr (changed, s')" "list_all wf_cutoff cs"
  shows "wf_schedule E s' \<and> cs_siteId s' = cs_siteId s \<and> cs_createdAt s' = cs_createdAt s
    \<and> cs_timezone s' = tz \<and> cs_cutoffs s' = cs
    \<and> (changed \<longleftrightarrow> cs_timezone s \<noteq> tz \<or> cs_cutoffs s \<noteq> cs)
    \<and> (\<not> changed \<longrightarrow> s' = s)"
  using cpt_Revise_wf [OF assms] cpt_Revise_frame [OF assms(1)] assms(1)
  by (auto simp: cpt_Revise_Inr_iff)

definition sample_cutoff :: Cutoff where
  "sample_cutoff = \<lparr>cptId = ''CPT-1'', localTime = ''18:30'', daysOfWeek = [''Mon'', ''Fri''],
     shipMethod = ''GROUND'', eligiblePathIds = [''pick-pack'']\<rparr>"

definition sample_schedule :: CPTSchedule where
  "sample_schedule = \<lparr>cs_siteId = ''SITE-1'', cs_timezone = ''America/Sao_Paulo'',
     cs_cutoffs = [sample_cutoff], cs_createdAt = 5, cs_updatedAt = 5\<rparr>"

lemma sample_cutoff_wf: "wf_cutoff sample_cutoff"
proof -
  have "isValidLocalTime ''18:30''"
    unfolding isValidLocalTime_iff_rendered
    by (rule exI [of _ 18], rule conjI, simp, rule exI [of _ 30])
      (simp add: two_digits_def digit_def; code_simp)
  then show ?thesis by (simp add: wf_cutoff_def sample_cutoff_def validWeekdays_def)
qed

lemma schedule_revision_witness:
  "\<exists>s'. cpt_Revise demo_ext sample_schedule ''America/New_York'' [sample_cutoff] 9 = Inr (True, s')
     \<and> wf_schedule demo_ext s'"
proof -
  let ?s' = "sample_schedule\<lparr>cs_timezone := ''America/New_York'', cs_cutoffs := [sample_cutoff],
    cs_updatedAt := 9\<rparr>"
  have "cpt_Revise demo_ext sample_schedule ''America/New_York'' [sample_cutoff] 9 = Inr (True, ?s')"
    by (simp add: cpt_Revise_Inr_iff schedule_ok_def LoadLocation_def demo_ext_def sample_schedule_def)
  from schedule_revision [OF this] this show ?thesis using sample_cutoff_wf by auto
qed

text \<open>
  The path ids a schedule refers to are collected without duplicates, in ascending order, and are
  exactly those of its cutoffs.
\<close>

lemma eligible_ids_collected:
  "distinct (AllEligiblePathIds s) \<and> sorted (AllEligiblePathIds s)
   \<and> set (AllEligiblePathIds s) = (\<Union>c \<in> set (cs_cutoffs s). set (eligiblePathIds c))"
  using collect_cutoffs_props [of "[]" "{}" "cs_cutoffs s"]
  by (simp add: AllEligiblePathIds_def)

text \<open>
  The zone check is \<open>time.LoadLocation\<close>, which also accepts \<open>Local\<close> and \<open>UTC\<close> without looking
  at the zone database: a schedule whose zone is \<open>Local\<close>, which is no IANA zone and means whatever
  zone the host happens to run in, passes validation on every host.
\<close>

lemma local_zone_accepted:
  assumes "cs \<noteq> []" "distinct (map cptId cs)"
  shows "cpt_validate E ''Local'' cs = None"
  using assms by (simp add: cpt_validate_None_iff schedule_ok_def LoadLocation_def)

lemma local_zone_accepted_witness: "cpt_validate demo_ext ''Local'' [sample_cutoff] = None"
  by (rule local_zone_accepted) simp_all

end
