(* ===== verification/Events.thy ===== *)
theory Events
  imports ProcessPath CPTSchedule
begin

text \<open>
  The domain events (\<open>internal/domain/shared/events.go\<close>, \<open>cptschedule/events.go\<close>). The two
  structs \<open>ProcessPathCreated\<close> and \<open>ProcessPathUpdated\<close> have the same fields, which are one
  record here; the interface \<open>DomainEvent\<close> is the datatype of the four structs.
\<close>

record PathPayload =
  ev_pathId :: PathId
  ev_matchPrefix :: string
  ev_direct :: bool
  ev_requiredCapabilities :: "Capability list"
  ev_destinationLocationRole :: DestinationLocationRole
  ev_cycleTimeP95 :: duration
  ev_eligibility :: Eligibility
  ev_at :: time

datatype DomainEvent =
    ProcessPathCreated PathPayload
  | ProcessPathUpdated PathPayload
  | ProcessPathDeactivated PathId time
  | CPTScheduleChanged ScheduleSnapshot

fun EventName :: "DomainEvent \<Rightarrow> string" where
  "EventName (ProcessPathCreated _) = ''ProcessPathCreated''"
| "EventName (ProcessPathUpdated _) = ''ProcessPathUpdated''"
| "EventName (ProcessPathDeactivated _ _) = ''ProcessPathDeactivated''"
| "EventName (CPTScheduleChanged _) = ''CPTScheduleChanged''"

fun OccurredAt :: "DomainEvent \<Rightarrow> time" where
  "OccurredAt (ProcessPathCreated p) = ev_at p"
| "OccurredAt (ProcessPathUpdated p) = ev_at p"
| "OccurredAt (ProcessPathDeactivated _ t) = t"
| "OccurredAt (CPTScheduleChanged s) = sn_at s"

text \<open>The event literal that the define and revise use cases build from an aggregate.\<close>

definition path_payload :: "ProcessPath \<Rightarrow> time \<Rightarrow> PathPayload" where
  "path_payload p now = \<lparr>ev_pathId = pp_id p, ev_matchPrefix = matchPrefix p,
     ev_direct = direct p, ev_requiredCapabilities = requiredCapabilities p,
     ev_destinationLocationRole = destinationLocationRole p, ev_cycleTimeP95 = cycleTimeP95 p,
     ev_eligibility = eligibility p, ev_at = now\<rparr>"

end
