(* ===== verification/UseCases.thy ===== *)
theory UseCases
  imports Events
begin

text \<open>
  The application layer: the ports (\<open>internal/application/ports\<close>) and the use cases
  (\<open>internal/application/usecases\<close>). A port is a record of functions over the state \<open>'w\<close> of
  whatever adapter implements it, so a use case is one definition for every adapter. The ports'
  contracts are the locales below; the adapters interpret them.

  Aggregates cross a port as values. The in-memory repository hands out pointers to its own
  objects, but every mutation of such an object is followed at once by a \<open>Save\<close> of it that
  cannot fail, so between two calls the store holds what \<open>Save\<close> was given.
\<close>

section \<open>Ports (ports.go, pgtx.go)\<close>

text \<open>The context carries a transaction (\<open>pgtx.WithTx\<close>) or does not.\<close>

datatype ctx = Background | WithTx

record 'w ProcessPathRepo =
  repo_Save :: "ctx \<Rightarrow> ProcessPath \<Rightarrow> ('w, unit) io"
  repo_FindByID :: "ctx \<Rightarrow> PathId \<Rightarrow> ('w, ProcessPath option) io"
  repo_ListActive :: "ctx \<Rightarrow> ('w, ProcessPath list) io"
  repo_ListAll :: "ctx \<Rightarrow> ('w, ProcessPath list) io"

record 'w CPTScheduleRepo =
  sched_Save :: "ctx \<Rightarrow> CPTSchedule \<Rightarrow> ('w, unit) io"
  sched_FindBySiteID :: "ctx \<Rightarrow> SiteId \<Rightarrow> ('w, CPTSchedule option) io"

type_synonym 'w EventPublisher = "ctx \<Rightarrow> DomainEvent \<Rightarrow> ('w, unit) io"
type_synonym 'w UnitOfWork = "ctx \<Rightarrow> (ctx \<Rightarrow> ('w, unit) io) \<Rightarrow> ('w, unit) io"
type_synonym 'w Clock = "'w \<Rightarrow> time \<times> 'w"

record 'w PathMetrics =
  PathDefinitionAccepted :: "ctx \<Rightarrow> 'w \<Rightarrow> 'w"
  PathDefinitionRejected :: "ctx \<Rightarrow> 'w \<Rightarrow> 'w"

text \<open>The fields of the use case structs; the composition root gives all of them the same values.\<close>

record 'w Deps =
  Repo :: "'w ProcessPathRepo"
  ScheduleRepo :: "'w CPTScheduleRepo"
  Publisher :: "'w EventPublisher"
  Clock :: "'w Clock"
  UoW :: "'w UnitOfWork option"
  Metrics :: "'w PathMetrics option"

section \<open>Use cases\<close>

definition atomically ::
    "ctx \<Rightarrow> 'w UnitOfWork option \<Rightarrow> (ctx \<Rightarrow> ('w, unit) io) \<Rightarrow> ('w, unit) io" where
  "atomically c uow fn = (case uow of None \<Rightarrow> fn c | Some execute \<Rightarrow> execute c fn)"

definition recordRejected :: "'w Deps \<Rightarrow> ctx \<Rightarrow> 'w \<Rightarrow> 'w" where
  "recordRejected U c w = (case Metrics U of None \<Rightarrow> w | Some m \<Rightarrow> PathDefinitionRejected m c w)"

definition recordAccepted :: "'w Deps \<Rightarrow> ctx \<Rightarrow> 'w \<Rightarrow> 'w" where
  "recordAccepted U c w = (case Metrics U of None \<Rightarrow> w | Some m \<Rightarrow> PathDefinitionAccepted m c w)"

text \<open>\<open>Save\<close> and then \<open>Publish\<close> inside one atomic scope: the tail of every mutating use case.\<close>

definition save_and_publish ::
    "'w Deps \<Rightarrow> ctx \<Rightarrow> (ctx \<Rightarrow> ('w, unit) io) \<Rightarrow> DomainEvent \<Rightarrow> ('w, unit) io" where
  "save_and_publish U c save ev =
     atomically c (UoW U) (\<lambda>c'. io_bind (save c') (\<lambda>_. Publisher U c' ev))"

definition DefinePath_Execute ::
    "ext \<Rightarrow> 'w Deps \<Rightarrow> ctx \<Rightarrow> PathId \<Rightarrow> string \<Rightarrow> bool \<Rightarrow> Capability list \<Rightarrow> DestinationLocationRole
     \<Rightarrow> duration \<Rightarrow> Eligibility \<Rightarrow> ('w, ProcessPath) io" where
  "DefinePath_Execute E U c pid prefix dir caps role ct elig = (\<lambda>w.
     case repo_FindByID (Repo U) c pid w of
       (Inl e, w1) \<Rightarrow> (Inl e, w1)
     | (Inr (Some _), w1) \<Rightarrow> (Inl (AppErr ErrPathAlreadyExists), recordRejected U c w1)
     | (Inr None, w1) \<Rightarrow>
         (case Clock U w1 of (now, w2) \<Rightarrow>
            (case Define E pid prefix dir caps role ct elig now of
               Inl e \<Rightarrow> (Inl e, recordRejected U c w2)
             | Inr p \<Rightarrow>
                 (case save_and_publish U c (\<lambda>c'. repo_Save (Repo U) c' p)
                         (ProcessPathCreated (path_payload p now)) w2 of
                    (Inl e, w3) \<Rightarrow> (Inl e, w3)
                  | (Inr _, w3) \<Rightarrow> (Inr p, recordAccepted U c w3)))))"

definition RevisePath_Execute ::
    "ext \<Rightarrow> 'w Deps \<Rightarrow> ctx \<Rightarrow> PathId \<Rightarrow> string \<Rightarrow> Capability list \<Rightarrow> duration \<Rightarrow> Eligibility
     \<Rightarrow> ('w, ProcessPath) io" where
  "RevisePath_Execute E U c pid prefix caps ct elig = (\<lambda>w.
     case repo_FindByID (Repo U) c pid w of
       (Inl e, w1) \<Rightarrow> (Inl e, w1)
     | (Inr None, w1) \<Rightarrow> (Inl (AppErr ErrPathNotFound), w1)
     | (Inr (Some p), w1) \<Rightarrow>
         (case Clock U w1 of (now, w2) \<Rightarrow>
            (case Revise E p prefix caps ct elig now of
               Inl e \<Rightarrow> (Inl e, w2)
             | Inr (changed, q) \<Rightarrow>
                 if \<not> changed then (Inr q, w2)
                 else (case save_and_publish U c (\<lambda>c'. repo_Save (Repo U) c' q)
                              (ProcessPathUpdated (path_payload q now)) w2 of
                         (Inl e, w3) \<Rightarrow> (Inl e, w3)
                       | (Inr _, w3) \<Rightarrow> (Inr q, w3)))))"

definition DeactivatePath_Execute :: "'w Deps \<Rightarrow> ctx \<Rightarrow> PathId \<Rightarrow> ('w, unit) io" where
  "DeactivatePath_Execute U c pid = (\<lambda>w.
     case repo_FindByID (Repo U) c pid w of
       (Inl e, w1) \<Rightarrow> (Inl e, w1)
     | (Inr None, w1) \<Rightarrow> (Inl (AppErr ErrPathNotFound), w1)
     | (Inr (Some p), w1) \<Rightarrow>
         if \<not> IsActive p then (Inr (), w1)
         else (case Clock U w1 of (now, w2) \<Rightarrow>
                 (let q = Deactivate p now in
                  save_and_publish U c (\<lambda>c'. repo_Save (Repo U) c' q)
                    (ProcessPathDeactivated (pp_id q) now) w2)))"

definition GetPath_Execute :: "'w Deps \<Rightarrow> ctx \<Rightarrow> PathId \<Rightarrow> ('w, ProcessPath) io" where
  "GetPath_Execute U c pid = (\<lambda>w.
     case repo_FindByID (Repo U) c pid w of
       (Inl e, w1) \<Rightarrow> (Inl e, w1)
     | (Inr None, w1) \<Rightarrow> (Inl (AppErr ErrPathNotFound), w1)
     | (Inr (Some p), w1) \<Rightarrow> (Inr p, w1))"

definition ListPaths_Execute :: "'w Deps \<Rightarrow> ctx \<Rightarrow> bool \<Rightarrow> ('w, ProcessPath list) io" where
  "ListPaths_Execute U c activeOnly =
     (if activeOnly then repo_ListActive (Repo U) c else repo_ListAll (Repo U) c)"

text \<open>
  \<open>validateEligiblePathIds\<close>: the loop over one cutoff's ids and the loop over the cutoffs, sharing
  the map of the ids already looked up.
\<close>

fun check_ids :: "'w Deps \<Rightarrow> ctx \<Rightarrow> PathId set \<Rightarrow> PathId list \<Rightarrow> ('w, PathId set) io" where
  "check_ids U c checked [] = (\<lambda>w. (Inr checked, w))"
| "check_ids U c checked (i # is) = (\<lambda>w.
     if i \<in> checked then check_ids U c checked is w
     else (case repo_FindByID (Repo U) c i w of
             (Inl e, w1) \<Rightarrow> (Inl e, w1)
           | (Inr None, w1) \<Rightarrow> (Inl (AppErr ErrIneligiblePathId), w1)
           | (Inr (Some p), w1) \<Rightarrow>
               if \<not> IsActive p then (Inl (AppErr ErrIneligiblePathId), w1)
               else check_ids U c (insert i checked) is w1))"

fun check_cutoffs :: "'w Deps \<Rightarrow> ctx \<Rightarrow> PathId set \<Rightarrow> Cutoff list \<Rightarrow> ('w, PathId set) io" where
  "check_cutoffs U c checked [] = (\<lambda>w. (Inr checked, w))"
| "check_cutoffs U c checked (x # xs) =
     io_bind (check_ids U c checked (eligiblePathIds x)) (\<lambda>seen. check_cutoffs U c seen xs)"

definition validateEligiblePathIds :: "'w Deps \<Rightarrow> ctx \<Rightarrow> Cutoff list \<Rightarrow> ('w, PathId set) io" where
  "validateEligiblePathIds U c cs = check_cutoffs U c {} cs"

definition DefineCPTSchedule_Execute ::
    "ext \<Rightarrow> 'w Deps \<Rightarrow> ctx \<Rightarrow> SiteId \<Rightarrow> string \<Rightarrow> Cutoff list \<Rightarrow> ('w, CPTSchedule) io" where
  "DefineCPTSchedule_Execute E U c site tz cs = (\<lambda>w.
     case sched_FindBySiteID (ScheduleRepo U) c site w of
       (Inl e, w1) \<Rightarrow> (Inl e, w1)
     | (Inr existing, w1) \<Rightarrow>
         (case validateEligiblePathIds U c cs w1 of
            (Inl e, w2) \<Rightarrow> (Inl e, w2)
          | (Inr _, w2) \<Rightarrow>
              (case Clock U w2 of (now, w3) \<Rightarrow>
                 (case (case existing of
                          None \<Rightarrow> map_sum id (Pair True) (cpt_Define E site tz cs now)
                        | Some s \<Rightarrow> cpt_Revise E s tz cs now) of
                    Inl e \<Rightarrow> (Inl e, w3)
                  | Inr (changed, schedule) \<Rightarrow>
                      if \<not> changed then (Inr schedule, w3)
                      else (case save_and_publish U c (\<lambda>c'. sched_Save (ScheduleRepo U) c' schedule)
                                   (CPTScheduleChanged (ToSnapshot schedule now)) w3 of
                              (Inl e, w4) \<Rightarrow> (Inl e, w4)
                            | (Inr _, w4) \<Rightarrow> (Inr schedule, w4))))))"

definition GetCPTSchedule_Execute :: "'w Deps \<Rightarrow> ctx \<Rightarrow> SiteId \<Rightarrow> ('w, CPTSchedule) io" where
  "GetCPTSchedule_Execute U c site = (\<lambda>w.
     case sched_FindBySiteID (ScheduleRepo U) c site w of
       (Inl e, w1) \<Rightarrow> (Inl e, w1)
     | (Inr None, w1) \<Rightarrow> (Inl (AppErr ErrCPTScheduleNotFound), w1)
     | (Inr (Some s), w1) \<Rightarrow> (Inr s, w1))"

section \<open>What a successful call went through\<close>

lemma DefinePath_Inr:
  assumes "DefinePath_Execute E U c pid prefix dir caps role ct elig w = (Inr p, w')"
  obtains w1 now w2 u w3 where "repo_FindByID (Repo U) c pid w = (Inr None, w1)"
    "Clock U w1 = (now, w2)" "Define E pid prefix dir caps role ct elig now = Inr p"
    "save_and_publish U c (\<lambda>c'. repo_Save (Repo U) c' p)
       (ProcessPathCreated (path_payload p now)) w2 = (Inr u, w3)"
    "w' = recordAccepted U c w3"
  using assms by (auto simp: DefinePath_Execute_def split: prod.splits sum.splits option.splits)

lemma RevisePath_Inr:
  assumes "RevisePath_Execute E U c pid prefix caps ct elig w = (Inr q, w')"
  obtains p w1 now w2 changed where "repo_FindByID (Repo U) c pid w = (Inr (Some p), w1)"
    "Clock U w1 = (now, w2)" "Revise E p prefix caps ct elig now = Inr (changed, q)"
    "\<not> changed \<Longrightarrow> w' = w2"
    "changed \<Longrightarrow> save_and_publish U c (\<lambda>c'. repo_Save (Repo U) c' q)
       (ProcessPathUpdated (path_payload q now)) w2 = (Inr (), w')"
  using assms
  by (auto simp: RevisePath_Execute_def split: prod.splits sum.splits option.splits if_splits)

lemma DeactivatePath_Inr:
  assumes "DeactivatePath_Execute U c pid w = (Inr u, w')"
  obtains p w1 where "repo_FindByID (Repo U) c pid w = (Inr (Some p), w1)"
      "\<not> IsActive p" "w' = w1"
  | p w1 now w2 where "repo_FindByID (Repo U) c pid w = (Inr (Some p), w1)" "IsActive p"
      "Clock U w1 = (now, w2)"
      "save_and_publish U c (\<lambda>c'. repo_Save (Repo U) c' (Deactivate p now))
         (ProcessPathDeactivated (pp_id (Deactivate p now)) now) w2 = (Inr u, w')"
  using assms
  by (auto simp: DeactivatePath_Execute_def Let_def
        split: prod.splits sum.splits option.splits if_splits)

lemma DefineCPTSchedule_Inr:
  assumes "DefineCPTSchedule_Execute E U c site tz cs w = (Inr s, w')"
  obtains existing w1 seen w2 now w3 changed
  where "sched_FindBySiteID (ScheduleRepo U) c site w = (Inr existing, w1)"
    "validateEligiblePathIds U c cs w1 = (Inr seen, w2)" "Clock U w2 = (now, w3)"
    "(case existing of None \<Rightarrow> map_sum id (Pair True) (cpt_Define E site tz cs now)
      | Some s0 \<Rightarrow> cpt_Revise E s0 tz cs now) = Inr (changed, s)"
    "\<not> changed \<Longrightarrow> w' = w3"
    "changed \<Longrightarrow> save_and_publish U c (\<lambda>c'. sched_Save (ScheduleRepo U) c' s)
       (CPTScheduleChanged (ToSnapshot s now)) w3 = (Inr (), w')"
  using assms
  by (fastforce simp: DefineCPTSchedule_Execute_def split: prod.splits sum.splits if_splits)

end
