(* ===== verification/Catalogue.thy ===== *)
theory Catalogue
  imports UseCases
begin

text \<open>
  What the application promises, independently of an adapter. A \<open>catalogue\<close> is what a context
  sees of the store: the paths, the schedules, and the messages that were handed to the outside.
  \<open>cat_step\<close> is the specification of one state-changing request; the locales are the contracts of
  the ports, and inside them every use case is proved to do nothing or one \<open>cat_step\<close>.

  \<open>sp old p\<close> is what a repository keeps when \<open>p\<close> is saved over \<open>old\<close> (\<open>ss\<close> for schedules):
  the in-memory one keeps \<open>p\<close>, the Postgres one rounds to its column types and never updates the
  columns that its \<open>ON CONFLICT\<close> clause leaves out. \<open>emit ev ms\<close>: publishing \<open>ev\<close> may add the
  messages \<open>ms\<close> (a relation, because a message carries a freshly minted id).
\<close>

record 'm catalogue =
  cat_paths :: "PathId \<Rightarrow> ProcessPath option"
  cat_schedules :: "SiteId \<Rightarrow> CPTSchedule option"
  cat_msgs :: "'m list"

definition put_path :: "(ProcessPath option \<Rightarrow> ProcessPath \<Rightarrow> ProcessPath) \<Rightarrow> ProcessPath
    \<Rightarrow> 'm catalogue \<Rightarrow> 'm catalogue" where
  "put_path sp p C =
     C\<lparr>cat_paths := (cat_paths C)(pp_id p \<mapsto> sp (cat_paths C (pp_id p)) p)\<rparr>"

definition put_schedule :: "(CPTSchedule option \<Rightarrow> CPTSchedule \<Rightarrow> CPTSchedule) \<Rightarrow> CPTSchedule
    \<Rightarrow> 'm catalogue \<Rightarrow> 'm catalogue" where
  "put_schedule ss s C =
     C\<lparr>cat_schedules := (cat_schedules C)(cs_siteId s \<mapsto> ss (cat_schedules C (cs_siteId s)) s)\<rparr>"

definition put_msgs :: "'m list \<Rightarrow> 'm catalogue \<Rightarrow> 'm catalogue" where
  "put_msgs ms C = C\<lparr>cat_msgs := cat_msgs C @ ms\<rparr>"

definition published ::
    "(DomainEvent \<Rightarrow> 'm list \<Rightarrow> bool) \<Rightarrow> DomainEvent \<Rightarrow> 'm catalogue \<Rightarrow> 'm catalogue \<Rightarrow> bool" where
  "published emit ev C C' \<longleftrightarrow> (\<exists>ms. emit ev ms \<and> C' = put_msgs ms C)"

definition active_in :: "'m catalogue \<Rightarrow> PathId \<Rightarrow> bool" where
  "active_in C i \<longleftrightarrow> (case cat_paths C i of None \<Rightarrow> False | Some p \<Rightarrow> IsActive p)"

definition eligible_in :: "'m catalogue \<Rightarrow> Cutoff list \<Rightarrow> bool" where
  "eligible_in C cs \<longleftrightarrow> list_all (\<lambda>x. list_all (active_in C) (eligiblePathIds x)) cs"

section \<open>The specification\<close>

inductive cat_step ::
    "ext \<Rightarrow> (ProcessPath option \<Rightarrow> ProcessPath \<Rightarrow> ProcessPath)
     \<Rightarrow> (CPTSchedule option \<Rightarrow> CPTSchedule \<Rightarrow> CPTSchedule)
     \<Rightarrow> (DomainEvent \<Rightarrow> 'm list \<Rightarrow> bool) \<Rightarrow> 'm catalogue \<Rightarrow> 'm catalogue \<Rightarrow> bool"
  for E sp ss emit where
  step_define: "cat_paths C pid = None \<Longrightarrow> Define E pid prefix dir caps role ct elig now = Inr p \<Longrightarrow>
     published emit (ProcessPathCreated (path_payload p now)) (put_path sp p C) C' \<Longrightarrow>
     cat_step E sp ss emit C C'"
| step_revise: "cat_paths C pid = Some p \<Longrightarrow> Revise E p prefix caps ct elig now = Inr (True, q) \<Longrightarrow>
     published emit (ProcessPathUpdated (path_payload q now)) (put_path sp q C) C' \<Longrightarrow>
     cat_step E sp ss emit C C'"
| step_deactivate: "cat_paths C pid = Some p \<Longrightarrow> IsActive p \<Longrightarrow> q = Deactivate p now \<Longrightarrow>
     published emit (ProcessPathDeactivated (pp_id q) now) (put_path sp q C) C' \<Longrightarrow>
     cat_step E sp ss emit C C'"
| step_new_schedule: "cat_schedules C site = None \<Longrightarrow> eligible_in C cs \<Longrightarrow>
     cpt_Define E site tz cs now = Inr s \<Longrightarrow>
     published emit (CPTScheduleChanged (ToSnapshot s now)) (put_schedule ss s C) C' \<Longrightarrow>
     cat_step E sp ss emit C C'"
| step_revised_schedule: "cat_schedules C site = Some s0 \<Longrightarrow> eligible_in C cs \<Longrightarrow>
     cpt_Revise E s0 tz cs now = Inr (True, s) \<Longrightarrow>
     published emit (CPTScheduleChanged (ToSnapshot s now)) (put_schedule ss s C) C' \<Longrightarrow>
     cat_step E sp ss emit C C'"

abbreviation cat_steps where
  "cat_steps E sp ss emit \<equiv> (cat_step E sp ss emit)\<^sup>*\<^sup>*"

section \<open>Contracts of the ports\<close>

text \<open>
  \<open>inv\<close> is what the adapter keeps true of its own state (for instance that its keys are distinct);
  every operation keeps it, whether it succeeds or fails.
\<close>

locale path_repo =
  fixes repo :: "'w ProcessPathRepo"
    and inv :: "'w \<Rightarrow> bool"
    and view :: "ctx \<Rightarrow> 'w \<Rightarrow> 'm catalogue"
    and sp :: "ProcessPath option \<Rightarrow> ProcessPath \<Rightarrow> ProcessPath"
  assumes find_path: "inv w \<Longrightarrow> repo_FindByID repo c pid w = (Inr r, w') \<Longrightarrow>
      r = cat_paths (view c w) pid \<and> view c w' = view c w"
    and find_path_fails: "inv w \<Longrightarrow> repo_FindByID repo Background pid w = (Inl e, w') \<Longrightarrow>
      view Background w' = view Background w"
    and list_view: "inv w \<Longrightarrow> view Background (snd (repo_ListActive repo Background w)) = view Background w"
      "inv w \<Longrightarrow> view Background (snd (repo_ListAll repo Background w)) = view Background w"
    and save_path: "inv w \<Longrightarrow> repo_Save repo c p w = (Inr u, w') \<Longrightarrow>
      view c w' = put_path sp p (view c w)"
    and path_inv: "inv w \<Longrightarrow> inv (snd (repo_FindByID repo c pid w))"
      "inv w \<Longrightarrow> inv (snd (repo_Save repo c p w))"
      "inv w \<Longrightarrow> inv (snd (repo_ListActive repo c w))" "inv w \<Longrightarrow> inv (snd (repo_ListAll repo c w))"

locale schedule_repo =
  fixes srepo :: "'w CPTScheduleRepo"
    and inv :: "'w \<Rightarrow> bool"
    and view :: "ctx \<Rightarrow> 'w \<Rightarrow> 'm catalogue"
    and ss :: "CPTSchedule option \<Rightarrow> CPTSchedule \<Rightarrow> CPTSchedule"
  assumes find_schedule: "inv w \<Longrightarrow> sched_FindBySiteID srepo c site w = (Inr r, w') \<Longrightarrow>
      r = cat_schedules (view c w) site \<and> view c w' = view c w"
    and find_schedule_fails: "inv w \<Longrightarrow> sched_FindBySiteID srepo Background site w = (Inl e, w') \<Longrightarrow>
      view Background w' = view Background w"
    and save_schedule: "inv w \<Longrightarrow> sched_Save srepo c s w = (Inr u, w') \<Longrightarrow>
      view c w' = put_schedule ss s (view c w)"
    and schedule_inv: "inv w \<Longrightarrow> inv (snd (sched_FindBySiteID srepo c site w))"
      "inv w \<Longrightarrow> inv (snd (sched_Save srepo c s w))"

locale event_publisher =
  fixes pub :: "'w EventPublisher"
    and inv :: "'w \<Rightarrow> bool"
    and view :: "ctx \<Rightarrow> 'w \<Rightarrow> 'm catalogue"
    and emit :: "DomainEvent \<Rightarrow> 'm list \<Rightarrow> bool"
  assumes publish: "inv w \<Longrightarrow> pub c ev w = (Inr u, w') \<Longrightarrow> published emit ev (view c w) (view c w')"
    and publish_inv: "inv w \<Longrightarrow> inv (snd (pub c ev w))"

locale application =
  path_repo repo inv view sp + schedule_repo srepo inv view ss + event_publisher pub inv view emit
  for repo :: "'w ProcessPathRepo" and srepo :: "'w CPTScheduleRepo" and pub :: "'w EventPublisher"
    and inv :: "'w \<Rightarrow> bool" and view :: "ctx \<Rightarrow> 'w \<Rightarrow> 'm catalogue"
    and sp :: "ProcessPath option \<Rightarrow> ProcessPath \<Rightarrow> ProcessPath"
    and ss :: "CPTSchedule option \<Rightarrow> CPTSchedule \<Rightarrow> CPTSchedule"
    and emit :: "DomainEvent \<Rightarrow> 'm list \<Rightarrow> bool" +
  fixes U :: "'w Deps"
  assumes deps: "Repo U = repo" "ScheduleRepo U = srepo" "Publisher U = pub"
    and clock_frame: "Clock U w = (now, w') \<Longrightarrow> view c w' = view c w \<and> (inv w \<longrightarrow> inv w')"
    and accepted_frame: "view c (recordAccepted U c' w) = view c w"
      "inv w \<Longrightarrow> inv (recordAccepted U c' w)"
    and rejected_frame: "view c (recordRejected U c' w) = view c w"
      "inv w \<Longrightarrow> inv (recordRejected U c' w)"
    and uow_ok: "UoW U = Some ex \<Longrightarrow> inv w \<Longrightarrow> (\<And>c w. inv w \<Longrightarrow> inv (snd (f c w))) \<Longrightarrow>
      ex c f w = (Inr u, w') \<Longrightarrow>
      \<exists>c1 w1 w2. inv w1 \<and> view c1 w1 = view c w \<and> f c1 w1 = (Inr (), w2) \<and> view c w' = view c1 w2"
    and uow_inv: "UoW U = Some ex \<Longrightarrow> inv w \<Longrightarrow> (\<And>c w. inv w \<Longrightarrow> inv (snd (f c w))) \<Longrightarrow>
      inv (snd (ex c f w))"
begin

lemma body_inv:
  "inv w \<Longrightarrow> inv (snd (io_bind (repo_Save (Repo U) c p) (\<lambda>_. Publisher U c ev) w))"
  "inv w \<Longrightarrow> inv (snd (io_bind (sched_Save (ScheduleRepo U) c s) (\<lambda>_. Publisher U c ev) w))"
  by (rule io_bind_keeps [where P = inv]; simp add: deps path_inv schedule_inv publish_inv)+

lemma atomically_ok:
  assumes "inv w" "\<And>c w. inv w \<Longrightarrow> inv (snd (f c w))" "atomically c (UoW U) f w = (Inr u, w')"
  shows "\<exists>c1 w1 w2. inv w1 \<and> view c1 w1 = view c w \<and> f c1 w1 = (Inr (), w2)
    \<and> view c w' = view c1 w2"
proof (cases "UoW U")
  case None
  then show ?thesis using assms by (auto simp: atomically_def)
next
  case (Some ex)
  then have "ex c f w = (Inr u, w')" using assms(3) by (simp add: atomically_def)
  from uow_ok [OF Some assms(1,2) this] show ?thesis by blast
qed

lemma atomically_inv:
  assumes "inv w" "\<And>c w. inv w \<Longrightarrow> inv (snd (f c w))"
  shows "inv (snd (atomically c (UoW U) f w))"
proof (cases "UoW U")
  case (Some ex)
  then show ?thesis using uow_inv [OF Some assms(1), of f c] assms(2) by (simp add: atomically_def)
qed (simp add: assms atomically_def)

lemma save_and_publish_inv:
  assumes "inv w"
  shows "inv (snd (save_and_publish U c (\<lambda>c'. repo_Save (Repo U) c' p) ev w))"
    "inv (snd (save_and_publish U c (\<lambda>c'. sched_Save (ScheduleRepo U) c' s) ev w))"
  unfolding save_and_publish_def using assms body_inv by (auto intro!: atomically_inv)

lemma save_and_publish_path:
  assumes "inv w" "save_and_publish U c (\<lambda>c'. repo_Save (Repo U) c' p) ev w = (Inr u, w')"
  shows "published emit ev (put_path sp p (view c w)) (view c w')"
proof -
  obtain c1 w1 w2 where a: "inv w1" "view c1 w1 = view c w" "view c w' = view c1 w2"
    and f: "io_bind (repo_Save (Repo U) c1 p) (\<lambda>_. Publisher U c1 ev) w1 = (Inr (), w2)"
    using atomically_ok [of w "\<lambda>c'. io_bind (repo_Save (Repo U) c' p) (\<lambda>_. Publisher U c' ev)" c u w', OF assms(1) body_inv(1)]
      assms(2) unfolding save_and_publish_def by blast
  obtain x w3 where s: "repo_Save repo c1 p w1 = (Inr x, w3)" and p: "pub c1 ev w3 = (Inr (), w2)"
    using f by (auto simp: io_bind_eq_Inr deps)
  have "inv w3" using path_inv(2) [OF a(1), of c1 p] s by simp
  then show ?thesis using publish [OF _ p] save_path [OF a(1) s] a by simp
qed

lemma save_and_publish_schedule:
  assumes "inv w" "save_and_publish U c (\<lambda>c'. sched_Save (ScheduleRepo U) c' s) ev w = (Inr u, w')"
  shows "published emit ev (put_schedule ss s (view c w)) (view c w')"
proof -
  obtain c1 w1 w2 where a: "inv w1" "view c1 w1 = view c w" "view c w' = view c1 w2"
    and f: "io_bind (sched_Save (ScheduleRepo U) c1 s) (\<lambda>_. Publisher U c1 ev) w1 = (Inr (), w2)"
    using atomically_ok [of w "\<lambda>c'. io_bind (sched_Save (ScheduleRepo U) c' s) (\<lambda>_. Publisher U c' ev)" c u w', OF assms(1) body_inv(2)]
      assms(2) unfolding save_and_publish_def by blast
  obtain x w3 where s: "sched_Save srepo c1 s w1 = (Inr x, w3)" and p: "pub c1 ev w3 = (Inr (), w2)"
    using f by (auto simp: io_bind_eq_Inr deps)
  have "inv w3" using schedule_inv(2) [OF a(1), of c1 s] s by simp
  then show ?thesis using publish [OF _ p] save_schedule [OF a(1) s] a by simp
qed

lemma find_pathD:
  assumes "inv w" "repo_FindByID (Repo U) c pid w = (Inr r, w')"
  shows "cat_paths (view c w) pid = r" "view c w' = view c w" "inv w'"
  using assms find_path [of w c pid r w'] path_inv(1) [of w c pid] by (auto simp: deps)

lemma find_scheduleD:
  assumes "inv w" "sched_FindBySiteID (ScheduleRepo U) c site w = (Inr r, w')"
  shows "cat_schedules (view c w) site = r" "view c w' = view c w" "inv w'"
  using assms find_schedule [of w c site r w'] schedule_inv(1) [of w c site] by (auto simp: deps)

lemma clockD: "Clock U w = (now, w') \<Longrightarrow> view c w' = view c w"
    "Clock U w = (now, w') \<Longrightarrow> inv w \<Longrightarrow> inv w'"
  using clock_frame by blast+

lemma define_ok:
  assumes i: "inv w" and "DefinePath_Execute E U c pid prefix dir caps role ct elig w = (Inr p, w')"
  shows "\<exists>now. cat_paths (view c w) pid = None
    \<and> Define E pid prefix dir caps role ct elig now = Inr p
    \<and> published emit (ProcessPathCreated (path_payload p now)) (put_path sp p (view c w)) (view c w')"
  using assms(2)
proof (rule DefinePath_Inr)
  fix w1 now w2 u w3
  assume f: "repo_FindByID (Repo U) c pid w = (Inr None, w1)" and k: "Clock U w1 = (now, w2)"
    and d: "Define E pid prefix dir caps role ct elig now = Inr p"
    and s: "save_and_publish U c (\<lambda>c'. repo_Save (Repo U) c' p)
       (ProcessPathCreated (path_payload p now)) w2 = (Inr u, w3)" and w': "w' = recordAccepted U c w3"
  note fd = find_pathD [OF i f]
  have "view c w2 = view c w" "inv w2" using clockD [OF k] fd by auto
  then show ?thesis
    using save_and_publish_path [OF _ s] d fd(1) accepted_frame(1) w' by auto
qed

lemma define_inv:
  assumes "inv w"
  shows "inv (snd (DefinePath_Execute E U c pid prefix dir caps role ct elig w))"
proof -
  obtain r w1 where f: "repo_FindByID (Repo U) c pid w = (r, w1)" by fastforce
  obtain now w2 where k: "Clock U w1 = (now, w2)" by fastforce
  have i1: "inv w1" using path_inv(1) [OF assms, of c pid] f by (simp add: deps)
  have i2: "inv w2" using clockD(2) [OF k i1] .
  show ?thesis
    using i1 i2 f k accepted_frame(2) rejected_frame(2) save_and_publish_inv(1) [OF i2]
    by (auto simp: DefinePath_Execute_def case_prod_beta split: sum.splits option.splits)
qed

lemma revise_ok:
  assumes i: "inv w" and "RevisePath_Execute E U c pid prefix caps ct elig w = (Inr q, w')"
  shows "\<exists>now p changed. cat_paths (view c w) pid = Some p
    \<and> Revise E p prefix caps ct elig now = Inr (changed, q)
    \<and> (if changed
        then published emit (ProcessPathUpdated (path_payload q now)) (put_path sp q (view c w)) (view c w')
        else view c w' = view c w)"
  using assms(2)
proof (rule RevisePath_Inr)
  fix p w1 now w2 changed
  assume f: "repo_FindByID (Repo U) c pid w = (Inr (Some p), w1)" and k: "Clock U w1 = (now, w2)"
    and r: "Revise E p prefix caps ct elig now = Inr (changed, q)"
    and n: "\<not> changed \<Longrightarrow> w' = w2"
    and s: "changed \<Longrightarrow> save_and_publish U c (\<lambda>c'. repo_Save (Repo U) c' q)
       (ProcessPathUpdated (path_payload q now)) w2 = (Inr (), w')"
  note fd = find_pathD [OF i f]
  have v: "view c w2 = view c w" "inv w2" using clockD [OF k] fd by auto
  show ?thesis
    using save_and_publish_path [OF v(2) s] v(1) fd(1) n r by (cases changed) auto
qed

lemma deactivate_ok:
  assumes i: "inv w" and "DeactivatePath_Execute U c pid w = (Inr u, w')"
  shows "\<exists>p. cat_paths (view c w) pid = Some p
    \<and> (if IsActive p
       then \<exists>now. published emit (ProcessPathDeactivated (pp_id p) now)
              (put_path sp (Deactivate p now) (view c w)) (view c w')
       else view c w' = view c w)"
  using assms(2)
proof (rule DeactivatePath_Inr)
  fix p w1
  assume "repo_FindByID (Repo U) c pid w = (Inr (Some p), w1)" "\<not> IsActive p" "w' = w1"
  then show ?thesis using find_pathD(1,2) [OF i] by (intro exI [of _ p]) auto
next
  fix p w1 now w2
  assume f: "repo_FindByID (Repo U) c pid w = (Inr (Some p), w1)" and a: "IsActive p"
    and k: "Clock U w1 = (now, w2)"
    and s: "save_and_publish U c (\<lambda>c'. repo_Save (Repo U) c' (Deactivate p now))
         (ProcessPathDeactivated (pp_id (Deactivate p now)) now) w2 = (Inr u, w')"
  note fd = find_pathD [OF i f]
  have "view c w2 = view c w" "inv w2" using clockD [OF k] fd by auto
  then show ?thesis using a save_and_publish_path [OF _ s] fd(1) by auto
qed

lemma check_ids_ok:
  assumes "inv w" "check_ids U c checked is w = (Inr seen, w')"
  shows "inv w' \<and> view c w' = view c w \<and> seen = checked \<union> set is
    \<and> (\<forall>i \<in> set is - checked. active_in (view c w) i)"
  using assms
proof (induction "is" arbitrary: checked w)
  case (Cons i "is")
  show ?case
  proof (cases "i \<in> checked")
    case True
    then show ?thesis using Cons.IH [of w checked] Cons.prems by auto
  next
    case False
    then obtain p w1 where f: "repo_FindByID (Repo U) c i w = (Inr (Some p), w1)" and a: "IsActive p"
      and k: "check_ids U c (insert i checked) is w1 = (Inr seen, w')"
      using Cons.prems by (auto split: prod.splits sum.splits option.splits if_splits)
    note fd = find_pathD [OF Cons.prems(1) f]
    have act: "active_in (view c w) i" using fd(1) a by (auto simp: active_in_def)
    show ?thesis using act Cons.IH [OF fd(3) k] unfolding fd(2) by auto
  qed
qed simp

lemma check_cutoffs_ok:
  assumes "inv w" "check_cutoffs U c checked cs w = (Inr seen, w')"
    and "\<forall>i \<in> checked. active_in (view c w) i"
  shows "inv w' \<and> view c w' = view c w \<and> eligible_in (view c w) cs"
  using assms
proof (induction cs arbitrary: checked w)
  case Nil
  then show ?case by (simp add: eligible_in_def)
next
  case (Cons x xs)
  obtain mid w1 where a: "check_ids U c checked (eligiblePathIds x) w = (Inr mid, w1)"
    and b: "check_cutoffs U c mid xs w1 = (Inr seen, w')"
    using Cons.prems(2) by (auto simp: io_bind_eq_Inr)
  note ids = check_ids_ok [OF Cons.prems(1) a]
  then have "\<forall>i \<in> mid. active_in (view c w1) i" using Cons.prems(3) by auto
  then show ?case using ids Cons.IH [OF _ b] Cons.prems(3)
    by (auto simp: eligible_in_def list_all_iff)
qed

lemma schedule_ok:
  assumes i: "inv w" and "DefineCPTSchedule_Execute E U c site tz cs w = (Inr s, w')"
  shows "\<exists>now changed. eligible_in (view c w) cs
    \<and> (case cat_schedules (view c w) site of
         None \<Rightarrow> changed \<and> cpt_Define E site tz cs now = Inr s
       | Some s0 \<Rightarrow> cpt_Revise E s0 tz cs now = Inr (changed, s))
    \<and> (if changed
        then published emit (CPTScheduleChanged (ToSnapshot s now)) (put_schedule ss s (view c w))
          (view c w')
        else view c w' = view c w)"
  using assms(2)
proof (rule DefineCPTSchedule_Inr)
  fix existing w1 seen w2 now w3 changed
  assume f: "sched_FindBySiteID (ScheduleRepo U) c site w = (Inr existing, w1)"
    and v: "validateEligiblePathIds U c cs w1 = (Inr seen, w2)" and k: "Clock U w2 = (now, w3)"
    and r: "(case existing of None \<Rightarrow> map_sum id (Pair True) (cpt_Define E site tz cs now)
      | Some s0 \<Rightarrow> cpt_Revise E s0 tz cs now) = Inr (changed, s)"
    and n: "\<not> changed \<Longrightarrow> w' = w3"
    and p: "changed \<Longrightarrow> save_and_publish U c (\<lambda>c'. sched_Save (ScheduleRepo U) c' s)
       (CPTScheduleChanged (ToSnapshot s now)) w3 = (Inr (), w')"
  note fd = find_scheduleD [OF i f]
  have e: "inv w2 \<and> view c w2 = view c w \<and> eligible_in (view c w) cs"
    using v check_cutoffs_ok [OF fd(3), of c "{}"] fd(2) by (simp add: validateEligiblePathIds_def)
  have kv: "view c w3 = view c w" "inv w3" using clockD [OF k] e by auto
  have "if changed
        then published emit (CPTScheduleChanged (ToSnapshot s now)) (put_schedule ss s (view c w))
          (view c w')
        else view c w' = view c w"
    using kv n save_and_publish_schedule [OF kv(2) p] by (cases changed) auto
  moreover have "case cat_schedules (view c w) site of
         None \<Rightarrow> changed \<and> cpt_Define E site tz cs now = Inr s
       | Some s0 \<Rightarrow> cpt_Revise E s0 tz cs now = Inr (changed, s)"
    using r fd(1) by (auto split: option.splits sum.splits simp: map_sum_def)
  ultimately show ?thesis using e by metis
qed

end

section \<open>Requests\<close>

text \<open>The use cases as one request type, and what serving one leaves of the state.\<close>

datatype request =
    DefineRequest PathId string bool "Capability list" DestinationLocationRole duration Eligibility
  | ReviseRequest PathId string "Capability list" duration Eligibility
  | DeactivateRequest PathId
  | GetRequest PathId
  | ListRequest bool
  | ScheduleRequest SiteId string "Cutoff list"
  | GetScheduleRequest SiteId

fun serve :: "ext \<Rightarrow> 'w Deps \<Rightarrow> request \<Rightarrow> 'w \<Rightarrow> 'w" where
  "serve E U (DefineRequest i pr d cs ro ct el) w = snd (DefinePath_Execute E U Background i pr d cs ro ct el w)"
| "serve E U (ReviseRequest i pr cs ct el) w = snd (RevisePath_Execute E U Background i pr cs ct el w)"
| "serve E U (DeactivateRequest i) w = snd (DeactivatePath_Execute U Background i w)"
| "serve E U (GetRequest i) w = snd (GetPath_Execute U Background i w)"
| "serve E U (ListRequest a) w = snd (ListPaths_Execute U Background a w)"
| "serve E U (ScheduleRequest site tz cs) w = snd (DefineCPTSchedule_Execute E U Background site tz cs w)"
| "serve E U (GetScheduleRequest site) w = snd (GetCPTSchedule_Execute U Background site w)"

definition serve_all :: "ext \<Rightarrow> 'w Deps \<Rightarrow> request list \<Rightarrow> 'w \<Rightarrow> 'w" where
  "serve_all E U rs w = fold (serve E U) rs w"

section \<open>Whole requests\<close>

text \<open>
  With an adapter whose Save-then-Publish happens as a whole or not at all, a request changes the
  catalogue by one whole step or not at all, whatever fails on the way.
\<close>

locale stepwise_application =
  application repo srepo pub inv view sp ss emit U
  for repo :: "'w ProcessPathRepo" and srepo :: "'w CPTScheduleRepo" and pub :: "'w EventPublisher"
    and inv :: "'w \<Rightarrow> bool" and view :: "ctx \<Rightarrow> 'w \<Rightarrow> 'm catalogue"
    and sp :: "ProcessPath option \<Rightarrow> ProcessPath \<Rightarrow> ProcessPath"
    and ss :: "CPTSchedule option \<Rightarrow> CPTSchedule \<Rightarrow> CPTSchedule"
    and emit :: "DomainEvent \<Rightarrow> 'm list \<Rightarrow> bool" and U :: "'w Deps" +
  assumes path_scope: "inv w \<Longrightarrow>
      save_and_publish U Background (\<lambda>c'. repo_Save (Repo U) c' p) ev w = (r, w') \<Longrightarrow>
         view Background w' = view Background w
       \<or> published emit ev (put_path sp p (view Background w)) (view Background w')"
    and schedule_scope: "inv w \<Longrightarrow>
      save_and_publish U Background (\<lambda>c'. sched_Save (ScheduleRepo U) c' s) ev w = (r, w') \<Longrightarrow>
         view Background w' = view Background w
       \<or> published emit ev (put_schedule ss s (view Background w)) (view Background w')"
begin

lemma find_background:
  "inv w \<Longrightarrow> repo_FindByID (Repo U) Background pid w = (r, w') \<Longrightarrow>
    view Background w' = view Background w \<and> inv w'"
  using find_path find_path_fails path_inv(1) [of w Background pid] by (cases r) (auto simp: deps)

lemma find_schedule_background:
  "inv w \<Longrightarrow> sched_FindBySiteID (ScheduleRepo U) Background site w = (r, w') \<Longrightarrow>
    view Background w' = view Background w \<and> inv w'"
  using find_schedule find_schedule_fails schedule_inv(1) [of w Background site]
  by (cases r) (auto simp: deps)

definition quiet :: "('w, 'a) io \<Rightarrow> bool" where
  "quiet m \<longleftrightarrow> (\<forall>w. inv w \<longrightarrow> inv (snd (m w)) \<and> view Background (snd (m w)) = view Background w)"

lemma quietD: "quiet m \<Longrightarrow> inv w \<Longrightarrow> m w = (r, w') \<Longrightarrow> inv w' \<and> view Background w' = view Background w"
  by (metis quiet_def snd_conv)

lemma check_ids_quiet: "quiet (check_ids U Background checked is)"
proof (induction "is" arbitrary: checked)
  case (Cons i "is")
  show ?case
    unfolding quiet_def
  proof (intro allI impI)
    fix w assume "inv w"
    obtain r w1 where f: "repo_FindByID (Repo U) Background i w = (r, w1)" by fastforce
    note b = find_background [OF \<open>inv w\<close> f]
    show "inv (snd (check_ids U Background checked (i # is) w))
      \<and> view Background (snd (check_ids U Background checked (i # is) w)) = view Background w"
      using Cons.IH [of checked] Cons.IH [of "insert i checked"] b f \<open>inv w\<close>
      by (auto simp: quiet_def split: sum.splits option.splits)
  qed
qed (simp add: quiet_def)

lemma check_cutoffs_quiet: "quiet (check_cutoffs U Background checked cs)"
proof (induction cs arbitrary: checked)
  case (Cons x xs)
  show ?case
    using Cons.IH check_ids_quiet [of checked "eligiblePathIds x"]
    by (auto simp: quiet_def io_bind_def split: prod.splits sum.splits)
qed (simp add: quiet_def)

text \<open>What serving one request may do to a state that satisfies the adapter's invariant.\<close>

definition one_step :: "ext \<Rightarrow> 'w \<Rightarrow> 'w \<Rightarrow> bool" where
  "one_step E w w' \<longleftrightarrow> inv w' \<and> (view Background w' = view Background w
     \<or> cat_step E sp ss emit (view Background w) (view Background w'))"

lemma one_step_quiet: "inv w' \<Longrightarrow> view Background w' = view Background w \<Longrightarrow> one_step E w w'"
  by (simp add: one_step_def)

lemma define_atomic:
  assumes i: "inv w"
  shows "one_step E w (serve E U (DefineRequest pid pr d cs ro ct el) w)"
proof -
  obtain r w1 where f: "repo_FindByID (Repo U) Background pid w = (r, w1)" by fastforce
  note b = find_background [OF i f]
  show ?thesis
  proof (cases "r = Inr None")
    case r: True
    note none = find_pathD(1) [OF i f [unfolded r]]
    obtain now w2 where k: "Clock U w1 = (now, w2)" by (cases "Clock U w1")
    have v2: "view Background w2 = view Background w" "inv w2" using b clockD [OF k] by auto
    show ?thesis
    proof (cases "Define E pid pr d cs ro ct el now")
      case (Inl e)
      then show ?thesis using f k r v2 rejected_frame
        by (auto intro!: one_step_quiet simp: DefinePath_Execute_def)
    next
      case (Inr p)
      obtain r3 w3 where sv: "save_and_publish U Background (\<lambda>c'. repo_Save (Repo U) c' p)
          (ProcessPathCreated (path_payload p now)) w2 = (r3, w3)" by fastforce
      have w3: "inv w3" using save_and_publish_inv(1) [OF v2(2)] sv by (metis snd_conv)
      have "serve E U (DefineRequest pid pr d cs ro ct el) w
          = (case r3 of Inl _ \<Rightarrow> w3 | Inr _ \<Rightarrow> recordAccepted U Background w3)"
        using sv f k r Inr by (cases r3) (simp_all add: DefinePath_Execute_def)
      then show ?thesis
        using path_scope [OF v2(2) sv] step_define [OF none Inr] v2 w3 accepted_frame
        by (cases r3) (auto simp: one_step_def)
    qed
  next
    case False
    then show ?thesis using f b rejected_frame
      by (auto intro!: one_step_quiet simp: DefinePath_Execute_def split: sum.splits option.splits)
  qed
qed

lemma revise_atomic:
  assumes i: "inv w"
  shows "one_step E w (serve E U (ReviseRequest pid pr cs ct el) w)"
proof -
  obtain r w1 where f: "repo_FindByID (Repo U) Background pid w = (r, w1)" by fastforce
  note b = find_background [OF i f]
  show ?thesis
  proof (cases "\<exists>p. r = Inr (Some p)")
    case True
    then obtain p where r: "r = Inr (Some p)" by blast
    note some = find_pathD(1) [OF i f [unfolded r]]
    obtain now w2 where k: "Clock U w1 = (now, w2)" by (cases "Clock U w1")
    have v2: "view Background w2 = view Background w" "inv w2" using b clockD [OF k] by auto
    show ?thesis
    proof (cases "\<exists>q. Revise E p pr cs ct el now = Inr (True, q)")
      case False
      then have "serve E U (ReviseRequest pid pr cs ct el) w = w2"
        using f k r by (auto simp: RevisePath_Execute_def split: sum.splits)
      then show ?thesis using v2 by (simp add: one_step_quiet)
    next
      case True
      then obtain q where rv: "Revise E p pr cs ct el now = Inr (True, q)" by blast
      obtain r3 w3 where sv: "save_and_publish U Background (\<lambda>c'. repo_Save (Repo U) c' q)
          (ProcessPathUpdated (path_payload q now)) w2 = (r3, w3)" by fastforce
      have w3: "inv w3" using save_and_publish_inv(1) [OF v2(2)] sv by (metis snd_conv)
      have "serve E U (ReviseRequest pid pr cs ct el) w = w3"
        using sv f k r rv by (cases r3) (simp_all add: RevisePath_Execute_def)
      then show ?thesis
        using path_scope [OF v2(2) sv] step_revise [OF some rv] v2 w3
        by (auto simp: one_step_def)
    qed
  next
    case False
    then have "serve E U (ReviseRequest pid pr cs ct el) w = w1"
      using f by (auto simp: RevisePath_Execute_def split: sum.splits option.splits)
    then show ?thesis using b by (simp add: one_step_quiet)
  qed
qed

lemma deactivate_atomic:
  assumes i: "inv w"
  shows "one_step E w (serve E U (DeactivateRequest pid) w)"
proof -
  obtain r w1 where f: "repo_FindByID (Repo U) Background pid w = (r, w1)" by fastforce
  note b = find_background [OF i f]
  show ?thesis
  proof (cases "\<exists>p. r = Inr (Some p) \<and> IsActive p")
    case True
    then obtain p where r: "r = Inr (Some p)" and act: "IsActive p" by blast
    note some = find_pathD(1) [OF i f [unfolded r]]
    obtain now w2 where k: "Clock U w1 = (now, w2)" by (cases "Clock U w1")
    have v2: "view Background w2 = view Background w" "inv w2" using b clockD [OF k] by auto
    obtain r3 w3 where sv: "save_and_publish U Background
        (\<lambda>c'. repo_Save (Repo U) c' (Deactivate p now))
        (ProcessPathDeactivated (pp_id (Deactivate p now)) now) w2 = (r3, w3)" by fastforce
    have w3: "inv w3" using save_and_publish_inv(1) [OF v2(2)] sv by (metis snd_conv)
    have "serve E U (DeactivateRequest pid) w = w3"
      using sv f k r act by (simp add: DeactivatePath_Execute_def Let_def)
    then show ?thesis
      using path_scope [OF v2(2) sv] step_deactivate [OF some act refl] v2 w3
      by (auto simp: one_step_def)
  next
    case False
    then have "serve E U (DeactivateRequest pid) w = w1"
      using f by (auto simp: DeactivatePath_Execute_def split: sum.splits option.splits)
    then show ?thesis using b by (simp add: one_step_quiet)
  qed
qed

lemma schedule_atomic:
  assumes i: "inv w"
  shows "one_step E w (serve E U (ScheduleRequest site tz cs) w)"
proof -
  obtain r w1 where f: "sched_FindBySiteID (ScheduleRepo U) Background site w = (r, w1)" by fastforce
  note b = find_schedule_background [OF i f]
  obtain rv w2 where chk: "validateEligiblePathIds U Background cs w1 = (rv, w2)" by fastforce
  have v2: "inv w2 \<and> view Background w2 = view Background w"
    using quietD [OF check_cutoffs_quiet [of "{}" cs], of w1 rv w2] chk b
    by (simp add: validateEligiblePathIds_def)
  obtain now w3 where k: "Clock U w2 = (now, w3)" by (cases "Clock U w2")
  have v3: "view Background w3 = view Background w" "inv w3" using v2 clockD [OF k] by auto
  show ?thesis
  proof (cases "\<exists>existing seen. r = Inr existing \<and> rv = Inr seen")
    case False
    then have "serve E U (ScheduleRequest site tz cs) w = w1
        \<or> serve E U (ScheduleRequest site tz cs) w = w2"
      using f chk by (cases r; cases rv) (simp_all add: DefineCPTSchedule_Execute_def)
    then show ?thesis using b v2 by (auto intro: one_step_quiet)
  next
    case True
    then obtain existing seen where r: "r = Inr existing" and seen: "rv = Inr seen" by blast
    note ex = find_scheduleD [OF i f [unfolded r]]
    have elig: "eligible_in (view Background w) cs"
      using check_cutoffs_ok [OF ex(3), of Background "{}" cs seen w2] chk seen ex(2)
      by (simp add: validateEligiblePathIds_def)
    let ?res = "case existing of None \<Rightarrow> map_sum id (Pair True) (cpt_Define E site tz cs now)
                | Some s \<Rightarrow> cpt_Revise E s tz cs now"
    show ?thesis
    proof (cases "\<exists>s. ?res = Inr (True, s)")
      case False
      then have "serve E U (ScheduleRequest site tz cs) w = w3" using f chk k r seen
        by (auto simp: DefineCPTSchedule_Execute_def split: sum.splits)
      then show ?thesis using v3 by (simp add: one_step_quiet)
    next
      case True
      then obtain s where res: "?res = Inr (True, s)" by blast
      obtain r4 w4 where sv: "save_and_publish U Background (\<lambda>c'. sched_Save (ScheduleRepo U) c' s)
          (CPTScheduleChanged (ToSnapshot s now)) w3 = (r4, w4)" by fastforce
      have w4: "inv w4" using save_and_publish_inv(2) [OF v3(2)] sv by (metis snd_conv)
      have step: "cat_step E sp ss emit (view Background w) C'"
        if "published emit (CPTScheduleChanged (ToSnapshot s now))
          (put_schedule ss s (view Background w)) C'" for C'
      proof (cases existing)
        case None
        then show ?thesis using res ex(1) elig that
          by (auto intro!: step_new_schedule simp: map_sum_def split: sum.splits)
      next
        case (Some s0)
        then show ?thesis using res ex(1) elig that by (auto intro!: step_revised_schedule)
      qed
      have "serve E U (ScheduleRequest site tz cs) w = w4"
        using sv f chk k r seen by (cases r4) (simp_all add: DefineCPTSchedule_Execute_def res)
      then show ?thesis
        using schedule_scope [OF v3(2) sv] step v3 w4 by (auto simp: one_step_def)
    qed
  qed
qed

lemma serve_atomic:
  assumes i: "inv w"
  shows "one_step E w (serve E U req w)"
proof (cases req)
  case (GetRequest pid)
  obtain r w1 where f: "repo_FindByID (Repo U) Background pid w = (r, w1)" by fastforce
  then have "serve E U req w = w1"
    using GetRequest by (auto simp: GetPath_Execute_def split: sum.splits option.splits)
  then show ?thesis using find_background [OF i f] by (simp add: one_step_quiet)
next
  case (GetScheduleRequest site)
  obtain r w1 where f: "sched_FindBySiteID (ScheduleRepo U) Background site w = (r, w1)" by fastforce
  then have "serve E U req w = w1"
    using GetScheduleRequest by (auto simp: GetCPTSchedule_Execute_def split: sum.splits option.splits)
  then show ?thesis using find_schedule_background [OF i f] by (simp add: one_step_quiet)
next
  case (ListRequest a)
  then show ?thesis using i
    by (auto simp: ListPaths_Execute_def deps list_view path_inv intro!: one_step_quiet)
qed (use i define_atomic revise_atomic deactivate_atomic schedule_atomic in metis)+

text \<open>
  Errors that do not come out of the Save-then-Publish scope leave the catalogue alone; \<open>bad\<close> marks
  the ones that do.
\<close>

lemma revise_refused:
  assumes "inv w" "RevisePath_Execute E U Background pid pr cs ct el w = (Inl e, w')" "\<not> bad e"
    and "\<And>p ev w w' e. save_and_publish U Background (\<lambda>c'. repo_Save (Repo U) c' p) ev w = (Inl e, w') \<Longrightarrow> bad e"
  shows "view Background w' = view Background w"
proof -
  obtain r w1 where f: "repo_FindByID (Repo U) Background pid w = (r, w1)" by fastforce
  obtain now w2 where k: "Clock U w1 = (now, w2)" by fastforce
  note b = find_background [OF assms(1) f]
  show ?thesis
    using assms(2-4) b clockD(1) [OF k, of Background] f k
    by (auto simp: RevisePath_Execute_def split: sum.splits option.splits prod.splits if_splits)
qed

lemma deactivate_refused:
  assumes "inv w" "DeactivatePath_Execute U Background pid w = (Inl e, w')" "\<not> bad e"
    and "\<And>p ev w w' e. save_and_publish U Background (\<lambda>c'. repo_Save (Repo U) c' p) ev w = (Inl e, w') \<Longrightarrow> bad e"
  shows "view Background w' = view Background w"
proof -
  obtain r w1 where f: "repo_FindByID (Repo U) Background pid w = (r, w1)" by fastforce
  show ?thesis
    using assms(2-4) find_background [OF assms(1) f] f
    by (auto simp: DeactivatePath_Execute_def Let_def split: sum.splits option.splits prod.splits if_splits)
qed

lemma schedule_refused:
  assumes "inv w" "DefineCPTSchedule_Execute E U Background site tz cs w = (Inl e, w')" "\<not> bad e"
    and "\<And>s ev w w' e. save_and_publish U Background (\<lambda>c'. sched_Save (ScheduleRepo U) c' s) ev w = (Inl e, w')
      \<Longrightarrow> bad e"
  shows "view Background w' = view Background w"
proof -
  obtain r w1 where f: "sched_FindBySiteID (ScheduleRepo U) Background site w = (r, w1)" by fastforce
  obtain rv w2 where v: "check_cutoffs U Background {} cs w1 = (rv, w2)" by fastforce
  obtain now w3 where k: "Clock U w2 = (now, w3)" by fastforce
  note b = find_schedule_background [OF assms(1) f]
  have v2: "view Background w2 = view Background w"
    using quietD [OF check_cutoffs_quiet _ v] b by simp
  show ?thesis
    using assms(2-4) b v2 clockD(1) [OF k, of Background] f v k
    by (auto simp: DefineCPTSchedule_Execute_def validateEligiblePathIds_def
        split: sum.splits prod.splits if_splits)
qed

lemma serve_all_steps:
  assumes "inv w"
  shows "inv (serve_all E U rs w)
    \<and> cat_steps E sp ss emit (view Background w) (view Background (serve_all E U rs w))"
  using assms
proof (induction rs arbitrary: w)
  case (Cons r rs)
  have one: "inv (serve E U r w)"
    "cat_steps E sp ss emit (view Background w) (view Background (serve E U r w))"
    using serve_atomic [OF Cons.prems, of E r] by (auto simp: one_step_def)
  have eq: "serve_all E U (r # rs) w = serve_all E U rs (serve E U r w)"
    by (simp add: serve_all_def)
  show ?case unfolding eq using Cons.IH [OF one(1)] one(2) by (auto intro: rtranclp_trans)
qed (simp add: serve_all_def)

end

section \<open>One atomic scope around Save and Publish\<close>

text \<open>
  What a transactional unit of work gives: inside its scope nothing outside is touched, and in the
  end the scope's effect is there or it is not. A commit may report an error and still have happened.
\<close>

locale atomic_application =
  application repo srepo pub inv view sp ss emit U
  for repo :: "'w ProcessPathRepo" and srepo :: "'w CPTScheduleRepo" and pub :: "'w EventPublisher"
    and inv :: "'w \<Rightarrow> bool" and view :: "ctx \<Rightarrow> 'w \<Rightarrow> 'm catalogue"
    and sp :: "ProcessPath option \<Rightarrow> ProcessPath \<Rightarrow> ProcessPath"
    and ss :: "CPTSchedule option \<Rightarrow> CPTSchedule \<Rightarrow> CPTSchedule"
    and emit :: "DomainEvent \<Rightarrow> 'm list \<Rightarrow> bool" and U :: "'w Deps" +
  assumes save_isolated: "view Background (snd (repo_Save repo WithTx p w)) = view Background w"
    and save_schedule_isolated:
      "view Background (snd (sched_Save srepo WithTx s w)) = view Background w"
    and publish_isolated: "view Background (snd (pub WithTx ev w)) = view Background w"
    and uow_atomic:
      "UoW U = Some ex \<Longrightarrow> inv w \<Longrightarrow> (\<And>c w. inv w \<Longrightarrow> inv (snd (f c w))) \<Longrightarrow>
       (\<And>w. view Background (snd (f WithTx w)) = view Background w) \<Longrightarrow>
       ex Background f w = (r, w') \<Longrightarrow>
         view Background w' = view Background w
       \<or> (\<exists>w1 w2. inv w1 \<and> view WithTx w1 = view Background w \<and> f WithTx w1 = (Inr (), w2)
            \<and> view Background w' = view WithTx w2)"
    and uow_present: "UoW U \<noteq> None"
begin

lemma scope_cases:
  assumes "inv w" "\<And>c w. inv w \<Longrightarrow> inv (snd (f c w))"
    and "\<And>w. view Background (snd (f WithTx w)) = view Background w"
    and "atomically Background (UoW U) f w = (r, w')"
  shows "view Background w' = view Background w
       \<or> (\<exists>w1 w2. inv w1 \<and> view WithTx w1 = view Background w \<and> f WithTx w1 = (Inr (), w2)
            \<and> view Background w' = view WithTx w2)"
proof -
  obtain ex where ex: "UoW U = Some ex" using uow_present by auto
  then have "ex Background f w = (r, w')" using assms(4) by (simp add: atomically_def)
  from uow_atomic [OF ex assms(1-3) this] show ?thesis by blast
qed

lemma path_all_or_nothing:
  assumes "inv w" "save_and_publish U Background (\<lambda>c'. repo_Save (Repo U) c' p) ev w = (r, w')"
  shows "view Background w' = view Background w
    \<or> published emit ev (put_path sp p (view Background w)) (view Background w')"
proof -
  have iso: "view Background (snd (io_bind (repo_Save (Repo U) WithTx p)
      (\<lambda>_. Publisher U WithTx ev) w)) = view Background w" for w
    using save_isolated [of p w] publish_isolated [of ev]
    by (auto simp: io_bind_def deps split: prod.splits sum.splits)
  have "published emit ev (put_path sp p (view WithTx w1)) (view WithTx w2)"
    if w1: "inv w1" and f1: "io_bind (repo_Save (Repo U) WithTx p) (\<lambda>_. Publisher U WithTx ev) w1 = (Inr (), w2)"
    for w1 w2
  proof -
    obtain x w3 where s: "repo_Save repo WithTx p w1 = (Inr x, w3)" and q: "pub WithTx ev w3 = (Inr (), w2)"
      using f1 by (auto simp: io_bind_eq_Inr deps)
    have "inv w3" using path_inv(2) [OF w1, of WithTx p] s by simp
    then show ?thesis using publish [OF _ q] save_path [OF w1 s] by simp
  qed
  then show ?thesis
    using scope_cases [OF assms(1) body_inv(1) iso assms(2) [unfolded save_and_publish_def]]
    by metis
qed

lemma schedule_all_or_nothing:
  assumes "inv w" "save_and_publish U Background (\<lambda>c'. sched_Save (ScheduleRepo U) c' s) ev w = (r, w')"
  shows "view Background w' = view Background w
    \<or> published emit ev (put_schedule ss s (view Background w)) (view Background w')"
proof -
  have iso: "view Background (snd (io_bind (sched_Save (ScheduleRepo U) WithTx s)
      (\<lambda>_. Publisher U WithTx ev) w)) = view Background w" for w
    using save_schedule_isolated [of s w] publish_isolated [of ev]
    by (auto simp: io_bind_def deps split: prod.splits sum.splits)
  have "published emit ev (put_schedule ss s (view WithTx w1)) (view WithTx w2)"
    if w1: "inv w1" and f1: "io_bind (sched_Save (ScheduleRepo U) WithTx s) (\<lambda>_. Publisher U WithTx ev) w1 = (Inr (), w2)"
    for w1 w2
  proof -
    obtain x w3 where t: "sched_Save srepo WithTx s w1 = (Inr x, w3)" and q: "pub WithTx ev w3 = (Inr (), w2)"
      using f1 by (auto simp: io_bind_eq_Inr deps)
    have "inv w3" using schedule_inv(2) [OF w1, of WithTx s] t by simp
    then show ?thesis using publish [OF _ q] save_schedule [OF w1 t] by simp
  qed
  then show ?thesis
    using scope_cases [OF assms(1) body_inv(2) iso assms(2) [unfolded save_and_publish_def]]
    by metis
qed

end

sublocale atomic_application \<subseteq> stepwise_application
  by unfold_locales (fact path_all_or_nothing schedule_all_or_nothing)+

section \<open>What every request keeps\<close>

text \<open>
  A property of the state between two requests: every port keeps it outside a scope, and a whole
  Save-then-Publish scope does.
\<close>

locale between_requests =
  fixes U :: "'w Deps" and J :: "'w \<Rightarrow> bool"
  assumes reads: "J w \<Longrightarrow> J (snd (repo_FindByID (Repo U) Background i w))"
      "J w \<Longrightarrow> J (snd (repo_ListActive (Repo U) Background w))"
      "J w \<Longrightarrow> J (snd (repo_ListAll (Repo U) Background w))"
      "J w \<Longrightarrow> J (snd (sched_FindBySiteID (ScheduleRepo U) Background site w))"
    and clock: "J w \<Longrightarrow> J (snd (Clock U w))"
    and counts: "J w \<Longrightarrow> J (recordAccepted U Background w)" "J w \<Longrightarrow> J (recordRejected U Background w)"
    and scopes:
      "J w \<Longrightarrow> J (snd (save_and_publish U Background (\<lambda>c. repo_Save (Repo U) c p) ev w))"
      "J w \<Longrightarrow> J (snd (save_and_publish U Background (\<lambda>c. sched_Save (ScheduleRepo U) c s) ev w))"
begin

lemma kept:
  "repo_FindByID (Repo U) Background i w = (r, w') \<Longrightarrow> J w \<Longrightarrow> J w'"
  "sched_FindBySiteID (ScheduleRepo U) Background site w = (rs, w') \<Longrightarrow> J w \<Longrightarrow> J w'"
  "Clock U w = (now, w') \<Longrightarrow> J w \<Longrightarrow> J w'"
  "save_and_publish U Background (\<lambda>c. repo_Save (Repo U) c p) ev w = (ru, w') \<Longrightarrow> J w \<Longrightarrow> J w'"
  "save_and_publish U Background (\<lambda>c. sched_Save (ScheduleRepo U) c s) ev w = (ru, w') \<Longrightarrow> J w \<Longrightarrow> J w'"
  using reads(1) [of w i] reads(4) [of w site] clock [of w] scopes(1) [of w p ev] scopes(2) [of w s ev]
  by auto

lemma check_ids_kept: "J w \<Longrightarrow> J (snd (check_ids U Background checked is w))"
  by (induction "is" arbitrary: checked w)
    (auto split: prod.splits sum.splits option.splits dest: kept(1))

lemma check_cutoffs_kept: "J w \<Longrightarrow> J (snd (check_cutoffs U Background checked cs w))"
proof (induction cs arbitrary: checked w)
  case (Cons x xs)
  show ?case
    unfolding check_cutoffs.simps
    by (rule io_bind_keeps [where P = J]) (auto intro: check_ids_kept Cons)
qed simp

lemma define_kept: "J w \<Longrightarrow> J (snd (DefinePath_Execute E U Background pid pr d cs ro ct el w))"
  by (auto simp: DefinePath_Execute_def split: prod.splits sum.splits option.splits
      intro!: counts dest: kept(1,3,4))

lemma revise_kept: "J w \<Longrightarrow> J (snd (RevisePath_Execute E U Background pid pr cs ct el w))"
  by (auto simp: RevisePath_Execute_def split: prod.splits sum.splits option.splits
      dest: kept(1,3,4))

lemma deactivate_kept: "J w \<Longrightarrow> J (snd (DeactivatePath_Execute U Background pid w))"
  by (auto simp: DeactivatePath_Execute_def Let_def split: prod.splits sum.splits option.splits
      intro!: scopes dest: kept(1,3))

lemma schedule_kept:
  assumes "J w"
  shows "J (snd (DefineCPTSchedule_Execute E U Background site tz cs w))"
proof -
  obtain r1 w1 where f: "sched_FindBySiteID (ScheduleRepo U) Background site w = (r1, w1)" by fastforce
  obtain r2 w2 where v: "check_cutoffs U Background {} cs w1 = (r2, w2)" by fastforce
  obtain now w3 where c: "Clock U w2 = (now, w3)" by fastforce
  have J1: "J w1" using kept(2) [OF f assms] .
  have J2: "J w2" using check_cutoffs_kept [OF J1, of "{}" cs] by (simp add: v)
  have J3: "J w3" using kept(3) [OF c J2] .
  then have "J (snd (save_and_publish U Background (\<lambda>c'. sched_Save (ScheduleRepo U) c' s)
      (CPTScheduleChanged (ToSnapshot s now)) w3))" for s
    by (rule scopes(2))
  then show ?thesis
    using J1 J2 J3
    by (auto simp: DefineCPTSchedule_Execute_def validateEligiblePathIds_def f v c case_prod_beta
        split: sum.splits)
qed

lemma reads_kept:
  "J w \<Longrightarrow> J (snd (GetPath_Execute U Background pid w))"
  "J w \<Longrightarrow> J (snd (ListPaths_Execute U Background activeOnly w))"
  "J w \<Longrightarrow> J (snd (GetCPTSchedule_Execute U Background site w))"
  using reads
  by (auto simp: GetPath_Execute_def ListPaths_Execute_def GetCPTSchedule_Execute_def
      split: prod.splits sum.splits option.splits dest: kept(1,2))

end

end
