(* ===== verification/CatalogueHistory.thy ===== *)
theory CatalogueHistory
  imports Catalogue
begin

text \<open>
  What every history of the catalogue keeps, for any storage that keeps the fields a reader of the
  events relies on: paths never disappear or change identity, a deactivated path is final, every
  path a stored schedule names exists, and the stored paths are what the events announce.
\<close>

section \<open>What a consumer learns from the events\<close>

type_synonym digest = "string \<times> Capability list \<times> Status"

definition path_digest :: "ProcessPath \<Rightarrow> digest" where
  "path_digest p = (matchPrefix p, requiredCapabilities p, status p)"

text \<open>A consumer's cache: an upsert on created and updated, a status change on deactivated.\<close>

fun learn :: "DomainEvent \<Rightarrow> (PathId \<Rightarrow> digest option) \<Rightarrow> PathId \<Rightarrow> digest option" where
  "learn (ProcessPathCreated p) m =
     m(ev_pathId p \<mapsto> (ev_matchPrefix p, ev_requiredCapabilities p, StatusActive))"
| "learn (ProcessPathUpdated p) m =
     m(ev_pathId p \<mapsto> (ev_matchPrefix p, ev_requiredCapabilities p, StatusActive))"
| "learn (ProcessPathDeactivated i t) m =
     (case m i of None \<Rightarrow> m | Some (pr, cs, st) \<Rightarrow> m(i \<mapsto> (pr, cs, StatusDeactivated)))"
| "learn (CPTScheduleChanged s) m = m"

definition learned :: "DomainEvent list \<Rightarrow> PathId \<Rightarrow> digest option" where
  "learned evs = fold learn evs Map.empty"

lemma learned_snoc [simp]: "learned (evs @ [ev]) = learn ev (learned evs)"
  by (simp add: learned_def)

section \<open>Invariants\<close>

definition empty_catalogue :: "'m catalogue" where
  "empty_catalogue = \<lparr>cat_paths = Map.empty, cat_schedules = Map.empty, cat_msgs = []\<rparr>"

definition keyed :: "'m catalogue \<Rightarrow> bool" where
  "keyed C \<longleftrightarrow> (\<forall>i p. cat_paths C i = Some p \<longrightarrow> pp_id p = i \<and> i \<noteq> ''''
      \<and> (IsActive p \<or> status p = StatusDeactivated))
    \<and> (\<forall>site s. cat_schedules C site = Some s \<longrightarrow> cs_siteId s = site)"

definition refs_exist :: "'m catalogue \<Rightarrow> bool" where
  "refs_exist C \<longleftrightarrow> (\<forall>site s x. cat_schedules C site = Some s \<longrightarrow> x \<in> set (cs_cutoffs s) \<longrightarrow>
      set (eligiblePathIds x) \<subseteq> dom (cat_paths C))"

definition told :: "(DomainEvent \<Rightarrow> 'm list \<Rightarrow> bool) \<Rightarrow> 'm catalogue \<Rightarrow> DomainEvent list \<Rightarrow> bool" where
  "told emit C evs \<longleftrightarrow> (\<exists>mss. list_all2 emit evs mss \<and> cat_msgs C = concat mss)
     \<and> (\<forall>i. map_option path_digest (cat_paths C i) = learned evs i)"

lemma catalogue_put [simp]:
  "cat_paths (put_msgs ms C) = cat_paths C" "cat_schedules (put_msgs ms C) = cat_schedules C"
  "cat_msgs (put_msgs ms C) = cat_msgs C @ ms"
  "cat_schedules (put_path sp p C) = cat_schedules C" "cat_msgs (put_path sp p C) = cat_msgs C"
  "cat_paths (put_schedule ss s C) = cat_paths C" "cat_msgs (put_schedule ss s C) = cat_msgs C"
  by (simp_all add: put_msgs_def put_path_def put_schedule_def)

lemma put_path_paths:
  "cat_paths (put_path sp p C) = (cat_paths C)(pp_id p \<mapsto> sp (cat_paths C (pp_id p)) p)"
  by (simp add: put_path_def)

lemma put_schedule_schedules:
  "cat_schedules (put_schedule ss s C)
     = (cat_schedules C)(cs_siteId s \<mapsto> ss (cat_schedules C (cs_siteId s)) s)"
  by (simp add: put_schedule_def)

lemma published_fields:
  assumes "published emit ev C C'"
  shows "cat_paths C' = cat_paths C" "cat_schedules C' = cat_schedules C"
  using assms by (auto simp: published_def)

lemma published_refs: "published emit ev C C' \<Longrightarrow> refs_exist C' = refs_exist C"
  by (simp add: refs_exist_def published_fields)

lemma published_keyed: "published emit ev C C' \<Longrightarrow> keyed C' = keyed C"
  by (simp add: keyed_def published_fields)

lemma published_told:
  assumes "published emit ev C C'" "cat_msgs C = cat_msgs C0" "told emit C0 evs"
    and "\<And>i. map_option path_digest (cat_paths C i) = learned (evs @ [ev]) i"
  shows "told emit C' (evs @ [ev])"
proof -
  obtain ms mss where "emit ev ms" "C' = put_msgs ms C" "list_all2 emit evs mss"
    "cat_msgs C0 = concat mss"
    using assms by (auto simp: published_def told_def)
  then show ?thesis
    using assms(2,4) unfolding told_def by (auto intro!: exI [of _ "mss @ [ms]"] list_all2_appendI)
qed

lemma eligible_in_dom:
  "eligible_in C cs \<Longrightarrow> x \<in> set cs \<Longrightarrow> set (eligiblePathIds x) \<subseteq> dom (cat_paths C)"
  by (fastforce simp: eligible_in_def list_all_iff active_in_def split: option.splits)

locale storage =
  fixes sp :: "ProcessPath option \<Rightarrow> ProcessPath \<Rightarrow> ProcessPath"
    and ss :: "CPTSchedule option \<Rightarrow> CPTSchedule \<Rightarrow> CPTSchedule"
  assumes sp_fields: "pp_id (sp old p) = pp_id p" "path_digest (sp old p) = path_digest p"
    and sp_identity: "same_identity q p \<Longrightarrow> same_identity q (sp (Some q) p)"
    and ss_fields: "cs_siteId (ss olds s) = cs_siteId s"
      "set (cs_cutoffs (ss olds s)) \<subseteq> set (cs_cutoffs s)"
begin

lemma sp_status: "status (sp old p) = status p"
    "matchPrefix (sp old p) = matchPrefix p" "requiredCapabilities (sp old p) = requiredCapabilities p"
  using sp_fields(2) [of old p] by (simp_all add: path_digest_def)

lemma sp_active: "IsActive (sp old p) = IsActive p"
  by (simp add: IsActive_def sp_status)

lemmas stored = put_path_paths put_schedule_schedules sp_fields sp_status sp_active ss_fields

lemma keyed_put_path:
  "keyed C \<Longrightarrow> pp_id p \<noteq> '''' \<Longrightarrow> IsActive p \<or> status p = StatusDeactivated \<Longrightarrow>
   keyed (put_path sp p C)"
  by (auto simp: keyed_def stored)

lemma keyed_put_schedule: "keyed C \<Longrightarrow> keyed (put_schedule ss s C)"
  by (auto simp: keyed_def stored)

lemma keyedD: "keyed C \<Longrightarrow> cat_paths C i = Some p \<Longrightarrow>
    pp_id p = i \<and> i \<noteq> '''' \<and> (IsActive p \<or> status p = StatusDeactivated)"
  by (simp add: keyed_def)

lemma step_keyed:
  assumes "cat_step E sp ss emit C C'" "keyed C"
  shows "keyed C'"
  using assms(1)
proof (cases rule: cat_step.cases)
  case (step_define pid prefix dir caps role ct elig now p)
  have "pp_id p \<noteq> ''''" "IsActive p"
    using step_define(2) by (auto simp: Define_Inr_iff IsActive_def)
  then show ?thesis
    using assms(2) by (auto simp: published_keyed [OF step_define(3)] intro!: keyed_put_path)
next
  case (step_revise pid p prefix caps ct elig now q)
  then show ?thesis
    using Revise_frame [OF step_revise(2)] keyedD [OF assms(2) step_revise(1)] assms(2)
    by (auto simp: published_keyed [OF step_revise(3)] IsActive_def intro!: keyed_put_path)
next
  case (step_deactivate pid p q now)
  then show ?thesis
    using keyedD [OF assms(2) step_deactivate(1)] assms(2)
    by (auto simp: published_keyed [OF step_deactivate(4)] intro!: keyed_put_path)
next
  case (step_new_schedule site cs tz now s)
  then show ?thesis
    using assms(2) by (simp add: published_keyed [OF step_new_schedule(4)] keyed_put_schedule)
next
  case (step_revised_schedule site s0 cs tz now s)
  then show ?thesis
    using assms(2) by (simp add: published_keyed [OF step_revised_schedule(4)] keyed_put_schedule)
qed

lemma refs_put_path: "refs_exist C \<Longrightarrow> refs_exist (put_path sp p C)"
  by (fastforce simp: refs_exist_def stored)

lemma refs_put_schedule:
  assumes "refs_exist C" "eligible_in C (cs_cutoffs s)"
  shows "refs_exist (put_schedule ss s C)"
proof -
  have "set (eligiblePathIds x) \<subseteq> dom (cat_paths C)" if "x \<in> set (cs_cutoffs (ss old s))" for x old
    using that ss_fields(2) eligible_in_dom [OF assms(2)] by blast
  then show ?thesis using assms(1) by (auto simp: refs_exist_def stored)
qed

lemma step_refs:
  assumes "cat_step E sp ss emit C C'" "refs_exist C"
  shows "refs_exist C'"
  using assms(1)
proof (cases rule: cat_step.cases)
  case (step_define pid prefix dir caps role ct elig now p)
  then show ?thesis using assms(2) by (simp add: published_refs [OF step_define(3)] refs_put_path)
next
  case (step_revise pid p prefix caps ct elig now q)
  then show ?thesis using assms(2) by (simp add: published_refs [OF step_revise(3)] refs_put_path)
next
  case (step_deactivate pid p q now)
  then show ?thesis using assms(2) by (simp add: published_refs [OF step_deactivate(4)] refs_put_path)
next
  case (step_new_schedule site cs tz now s)
  then have "cs_cutoffs s = cs" by (auto simp: cpt_Define_Inr_iff)
  then show ?thesis using assms(2) step_new_schedule(2)
    by (simp add: published_refs [OF step_new_schedule(4)] refs_put_schedule)
next
  case (step_revised_schedule site s0 cs tz now s)
  then show ?thesis
    using assms(2) cpt_Revise_frame [OF step_revised_schedule(3)]
    by (simp add: published_refs [OF step_revised_schedule(4)] refs_put_schedule)
qed

lemma step_path:
  assumes "cat_step E sp ss emit C C'" "keyed C" "cat_paths C i = Some p"
  shows "\<exists>q. cat_paths C' i = Some q \<and> same_identity p q
    \<and> (status p = StatusDeactivated \<longrightarrow> q = p)"
  using assms(1)
proof (cases rule: cat_step.cases)
  case (step_define pid prefix dir caps role ct elig now r)
  have "pp_id r = pid" using step_define(2) by (auto simp: Define_Inr_iff)
  then show ?thesis
    using assms(3) step_define(1) by (auto simp: published_fields [OF step_define(3)] stored)
next
  case (step_revise pid r prefix caps ct elig now q)
  note fr = Revise_frame [OF step_revise(2)] keyedD [OF assms(2) step_revise(1)]
  then have "same_identity r (sp (Some r) q)"
    by (intro sp_identity) (auto simp: same_identity_def)
  moreover have "status r \<noteq> StatusDeactivated"
    using step_revise(2) by (auto simp: Revise_Inr_iff)
  ultimately show ?thesis
    using assms(3) step_revise(1) fr
    by (auto simp: published_fields [OF step_revise(3)] stored)
next
  case (step_deactivate pid r q now)
  note fr = keyedD [OF assms(2) step_deactivate(1)]
  have "same_identity r (sp (Some r) q)"
    using step_deactivate by (intro sp_identity) (auto simp: same_identity_def)
  then show ?thesis
    using assms(3) step_deactivate(1,2,3) fr
    by (auto simp: published_fields [OF step_deactivate(4)] stored IsActive_def)
next
  case (step_new_schedule site cs tz now s)
  then show ?thesis using assms(3) by (simp add: published_fields [OF step_new_schedule(4)])
next
  case (step_revised_schedule site s0 cs tz now s)
  then show ?thesis using assms(3) by (simp add: published_fields [OF step_revised_schedule(4)])
qed

lemma step_told:
  assumes "cat_step E sp ss emit C C'" "keyed C" and t: "told emit C evs"
  shows "\<exists>ev. told emit C' (evs @ [ev])"
proof -
  have l: "map_option path_digest (cat_paths C i) = learned evs i" for i
    using t by (simp add: told_def)
  show ?thesis
    using assms(1)
  proof (cases rule: cat_step.cases)
    case (step_define pid prefix dir caps role ct elig now p)
    have "path_digest p = (prefix, caps, StatusActive)" "pp_id p = pid" "matchPrefix p = prefix"
      "requiredCapabilities p = caps"
      using step_define(2) by (auto simp: path_digest_def Define_Inr_iff)
    then have "told emit C' (evs @ [ProcessPathCreated (path_payload p now)])"
      using l by (intro published_told [OF step_define(3) _ t]) (auto simp: stored path_payload_def)
    then show ?thesis ..
  next
    case (step_revise pid r prefix caps ct elig now q)
    note fr = Revise_frame [OF step_revise(2)] keyedD [OF assms(2) step_revise(1)]
    have "status r \<noteq> StatusDeactivated" using step_revise(2) by (auto simp: Revise_Inr_iff)
    then have "path_digest q = (matchPrefix q, requiredCapabilities q, StatusActive)"
      using fr by (auto simp: path_digest_def IsActive_def)
    then have "told emit C' (evs @ [ProcessPathUpdated (path_payload q now)])"
      using l by (intro published_told [OF step_revise(3) _ t]) (auto simp: stored path_payload_def)
    then show ?thesis ..
  next
    case (step_deactivate pid r q now)
    note fr = keyedD [OF assms(2) step_deactivate(1)]
    have "learned evs pid = Some (path_digest r)" using l [of pid] step_deactivate(1) by simp
    then have "told emit C' (evs @ [ProcessPathDeactivated (pp_id q) now])"
      using step_deactivate(2,3) fr l by (intro published_told [OF step_deactivate(4) _ t])
        (auto simp: stored path_digest_def Deactivate_def IsActive_def split: if_splits)
    then show ?thesis ..
  next
    case (step_new_schedule site cs tz now s)
    have "told emit C' (evs @ [CPTScheduleChanged (ToSnapshot s now)])"
      using l by (intro published_told [OF step_new_schedule(4) _ t]) auto
    then show ?thesis ..
  next
    case (step_revised_schedule site s0 cs tz now s)
    have "told emit C' (evs @ [CPTScheduleChanged (ToSnapshot s now)])"
      using l by (intro published_told [OF step_revised_schedule(4) _ t]) auto
    then show ?thesis ..
  qed
qed

lemma steps_keyed: "cat_steps E sp ss emit C C' \<Longrightarrow> keyed C \<Longrightarrow> keyed C'"
  by (induction rule: rtranclp_induct) (auto intro: step_keyed)

lemma steps_refs:
  "cat_steps E sp ss emit C C' \<Longrightarrow> refs_exist C \<Longrightarrow> refs_exist C'"
  by (induction rule: rtranclp_induct) (auto intro: step_refs)

lemma steps_path:
  assumes "cat_steps E sp ss emit C C'" "keyed C" "cat_paths C i = Some p"
  shows "\<exists>q. cat_paths C' i = Some q \<and> same_identity p q
    \<and> (status p = StatusDeactivated \<longrightarrow> q = p)"
  using assms
proof (induction rule: rtranclp_induct)
  case (step C1 C2)
  then obtain q1 where q1: "cat_paths C1 i = Some q1" "same_identity p q1"
    "status p = StatusDeactivated \<longrightarrow> q1 = p" by blast
  obtain q2 where "cat_paths C2 i = Some q2" "same_identity q1 q2"
    "status q1 = StatusDeactivated \<longrightarrow> q2 = q1"
    using step_path [OF step(2) steps_keyed [OF step(1) step.prems(1)] q1(1)] by blast
  then show ?case using q1 same_identity_trans by blast
qed auto

lemma steps_told:
  assumes "cat_steps E sp ss emit C C'" "keyed C" "told emit C evs"
  shows "\<exists>evs'. told emit C' (evs @ evs')"
  using assms
proof (induction rule: rtranclp_induct)
  case base
  then show ?case by (intro exI [of _ "[]"]) simp
next
  case (step C1 C2)
  then obtain evs' where "told emit C1 (evs @ evs')" by blast
  then obtain ev where "told emit C2 ((evs @ evs') @ [ev])"
    using step_told [OF step(2) steps_keyed [OF step(1) step.prems(1)]] by blast
  then show ?case by (intro exI [of _ "evs' @ [ev]"]) simp
qed

end

lemma empty_catalogue_ok:
  "keyed empty_catalogue" "refs_exist empty_catalogue" "told emit empty_catalogue []"
  by (simp_all add: keyed_def refs_exist_def told_def learned_def empty_catalogue_def)

end
