(* ===== verification/Memory.thy ===== *)
theory Memory
  imports CatalogueHistory "HOL-Library.AList" "HOL-Library.Multiset"
begin

text \<open>
  The process without \<open>DATABASE_URL\<close>: the in-memory repositories
  (\<open>internal/adapters/outbound/memory\<close>), the log publisher (\<open>events/log_publisher.go\<close>), the
  paths-defined counter (\<open>telemetry/metrics.go\<close>) and no unit of work. A Go map is an association
  list with distinct keys; the order a \<open>range\<close> visits it in is the parameter \<open>order\<close>.
\<close>

record mem =
  mem_paths :: "(PathId \<times> ProcessPath) list"
  mem_schedules :: "(SiteId \<times> CPTSchedule) list"
  mem_log :: "(string \<times> DomainEvent) list"
  mem_counter :: "string \<Rightarrow> nat"
  mem_ticks :: nat

definition mem_init :: mem where
  "mem_init = \<lparr>mem_paths = [], mem_schedules = [], mem_log = [], mem_counter = (\<lambda>_. 0), mem_ticks = 0\<rparr>"

type_synonym range_order = "(PathId \<times> ProcessPath) list \<Rightarrow> (PathId \<times> ProcessPath) list"

section \<open>Repositories\<close>

definition mem_Save :: "ctx \<Rightarrow> ProcessPath \<Rightarrow> (mem, unit) io" where
  "mem_Save c p w = (Inr (), w\<lparr>mem_paths := AList.update (pp_id p) p (mem_paths w)\<rparr>)"

definition mem_FindByID :: "ctx \<Rightarrow> PathId \<Rightarrow> (mem, ProcessPath option) io" where
  "mem_FindByID c i w = (Inr (map_of (mem_paths w) i), w)"

definition mem_ListActive :: "range_order \<Rightarrow> ctx \<Rightarrow> (mem, ProcessPath list) io" where
  "mem_ListActive order c w = (Inr (filter IsActive (map snd (order (mem_paths w)))), w)"

definition mem_ListAll :: "range_order \<Rightarrow> ctx \<Rightarrow> (mem, ProcessPath list) io" where
  "mem_ListAll order c w = (Inr (map snd (order (mem_paths w))), w)"

definition mem_sched_Save :: "ctx \<Rightarrow> CPTSchedule \<Rightarrow> (mem, unit) io" where
  "mem_sched_Save c s w = (Inr (), w\<lparr>mem_schedules := AList.update (cs_siteId s) s (mem_schedules w)\<rparr>)"

definition mem_FindBySiteID :: "ctx \<Rightarrow> SiteId \<Rightarrow> (mem, CPTSchedule option) io" where
  "mem_FindBySiteID c site w = (Inr (map_of (mem_schedules w) site), w)"

definition mem_repo :: "range_order \<Rightarrow> mem ProcessPathRepo" where
  "mem_repo order = \<lparr>repo_Save = mem_Save, repo_FindByID = mem_FindByID,
     repo_ListActive = mem_ListActive order, repo_ListAll = mem_ListAll order\<rparr>"

definition mem_schedule_repo :: "mem CPTScheduleRepo" where
  "mem_schedule_repo = \<lparr>sched_Save = mem_sched_Save, sched_FindBySiteID = mem_FindBySiteID\<rparr>"

section \<open>Publisher, counter, clock\<close>

text \<open>\<open>json.Marshal\<close> of the four event structs (strings, booleans, integers, slices) cannot fail.\<close>

definition LogPublisher_Publish :: "mem EventPublisher" where
  "LogPublisher_Publish c ev w = (Inr (), w\<lparr>mem_log := mem_log w @ [(EventName ev, ev)]\<rparr>)"

definition metrics_record :: "string \<Rightarrow> mem \<Rightarrow> mem" where
  "metrics_record outcome w = w\<lparr>mem_counter := (mem_counter w)(outcome := mem_counter w outcome + 1)\<rparr>"

definition mem_metrics :: "mem PathMetrics" where
  "mem_metrics = \<lparr>PathDefinitionAccepted = (\<lambda>_. metrics_record ''accepted''),
     PathDefinitionRejected = (\<lambda>_. metrics_record ''rejected'')\<rparr>"

definition mem_clock :: "(nat \<Rightarrow> time) \<Rightarrow> mem Clock" where
  "mem_clock now w = (now (mem_ticks w), w\<lparr>mem_ticks := mem_ticks w + 1\<rparr>)"

definition mem_deps :: "range_order \<Rightarrow> (nat \<Rightarrow> time) \<Rightarrow> mem Deps" where
  "mem_deps order now = \<lparr>Repo = mem_repo order, ScheduleRepo = mem_schedule_repo,
     Publisher = LogPublisher_Publish, Clock = mem_clock now, UoW = None, Metrics = Some mem_metrics\<rparr>"

section \<open>What the in-memory process implements\<close>

definition mem_view :: "ctx \<Rightarrow> mem \<Rightarrow> (string \<times> DomainEvent) catalogue" where
  "mem_view c w = \<lparr>cat_paths = map_of (mem_paths w), cat_schedules = map_of (mem_schedules w),
     cat_msgs = mem_log w\<rparr>"

definition mem_distinct :: "mem \<Rightarrow> bool" where
  "mem_distinct w \<longleftrightarrow> distinct (map fst (mem_paths w)) \<and> distinct (map fst (mem_schedules w))"

definition log_line :: "DomainEvent \<Rightarrow> (string \<times> DomainEvent) list \<Rightarrow> bool" where
  "log_line ev ms \<longleftrightarrow> ms = [(EventName ev, ev)]"

definition keep_new :: "'a option \<Rightarrow> 'a \<Rightarrow> 'a" where
  "keep_new old x = x"

lemmas mem_defs = mem_Save_def mem_FindByID_def mem_ListActive_def mem_ListAll_def
  mem_sched_Save_def mem_FindBySiteID_def mem_repo_def mem_schedule_repo_def
  LogPublisher_Publish_def metrics_record_def mem_metrics_def mem_clock_def mem_deps_def

lemmas mem_catalogue_defs = mem_view_def log_line_def keep_new_def put_path_def put_schedule_def
  put_msgs_def published_def update_conv mem_distinct_def distinct_update

lemma mem_deps_sel [simp]:
  "Repo (mem_deps order now) = mem_repo order" "ScheduleRepo (mem_deps order now) = mem_schedule_repo"
  "Publisher (mem_deps order now) = LogPublisher_Publish" "UoW (mem_deps order now) = None"
  by (simp_all add: mem_deps_def)

interpretation mem_app: application "mem_repo order" mem_schedule_repo LogPublisher_Publish
    mem_distinct mem_view keep_new keep_new log_line "mem_deps order now"
  by unfold_locales (auto simp: mem_defs mem_catalogue_defs recordAccepted_def recordRejected_def)

lemma mem_save_and_publish_path:
  "save_and_publish (mem_deps order now) c (\<lambda>c'. repo_Save (Repo (mem_deps order now)) c' p) ev w
   = (r, w') \<Longrightarrow> published log_line ev (put_path keep_new p (mem_view c w)) (mem_view c w')"
  by (auto simp: save_and_publish_def atomically_def io_bind_def mem_defs mem_catalogue_defs)

lemma mem_save_and_publish_schedule:
  "save_and_publish (mem_deps order now) c (\<lambda>c'. sched_Save (ScheduleRepo (mem_deps order now)) c' s)
     ev w = (r, w') \<Longrightarrow>
   published log_line ev (put_schedule keep_new s (mem_view c w)) (mem_view c w')"
  by (auto simp: save_and_publish_def atomically_def io_bind_def mem_defs mem_catalogue_defs)

interpretation mem_step: stepwise_application "mem_repo order" mem_schedule_repo
    LogPublisher_Publish mem_distinct mem_view keep_new keep_new log_line "mem_deps order now"
  by unfold_locales (auto simp: mem_save_and_publish_path mem_save_and_publish_schedule)

interpretation mem_storage: storage keep_new keep_new
  by unfold_locales (auto simp: keep_new_def)

lemma mem_view_init [simp]: "mem_view c mem_init = empty_catalogue"
  by (simp add: mem_view_def mem_init_def empty_catalogue_def)

lemma mem_distinct_init [simp]: "mem_distinct mem_init"
  by (simp add: mem_distinct_def mem_init_def)

lemma mem_lists:
  assumes "\<And>xs. mset (order xs) = mset xs"
  shows "\<exists>ps. mem_ListAll order c w = (Inr ps, w) \<and> mset ps = mset (map snd (mem_paths w))"
    and "\<exists>ps. mem_ListActive order c w = (Inr ps, w)
      \<and> mset ps = mset (filter IsActive (map snd (mem_paths w)))"
  using assms by (auto simp: mem_ListAll_def mem_ListActive_def mset_map mset_filter)

end
