(* ===== verification/Sql.thy ===== *)
theory Sql
  imports UseCases
begin

text \<open>
  The database as the adapters see it through \<open>pgx\<close>: statements against a committed state, one
  transaction at a time (\<open>WithTx\<close>), and failures. \<open>pgx\<close> and Postgres are not under \<open>src/\<close>; what is
  modelled of them is their documented behaviour: a statement outside a transaction is a
  transaction of its own, an error inside a transaction aborts it (every later statement fails and
  \<open>Commit\<close> rolls back), and a call may fail for a reason the code cannot see. The fault oracle says
  which call does, and whether a failing commit took effect nevertheless. There is one session:
  no other one writes between \<open>Begin\<close> and \<open>Commit\<close>.
\<close>

datatype fault = Refused err | Ambiguous err

type_synonym faults = "nat \<Rightarrow> fault option"

record 'db pg =
  committed :: 'db
  open_tx :: "('db \<times> bool) option"
  calls :: nat
  ids :: nat
  ticks :: nat
  counter :: "string \<Rightarrow> nat"

type_synonym ('db, 'a) stmt = "'db \<Rightarrow> err + ('a \<times> 'db)"

definition tick :: "'db pg \<Rightarrow> 'db pg" where
  "tick w = w\<lparr>calls := Suc (calls w)\<rparr>"

definition ErrTxClosed :: err where
  "ErrTxClosed = PlainErr ''tx is closed''"

definition ErrTxAborted :: err where
  "ErrTxAborted = PlainErr ''current transaction is aborted, commands ignored until end of transaction block''"

definition ErrTxCommitRollback :: err where
  "ErrTxCommitRollback = PlainErr ''commit unexpectedly resulted in rollback''"

section \<open>Statements\<close>

text \<open>\<open>querierFrom(ctx, pool).Exec\<close> and \<open>QueryRow\<close>.\<close>

definition sql_exec :: "faults \<Rightarrow> ctx \<Rightarrow> ('db, 'a) stmt \<Rightarrow> ('db pg, 'a) io" where
  "sql_exec F c st w =
     (case c of
        Background \<Rightarrow>
          (case F (calls w) of
             Some (Refused e) \<Rightarrow> (Inl e, tick w)
           | f \<Rightarrow>
             (case st (committed w) of
                Inl e \<Rightarrow> (Inl e, tick w)
              | Inr (a, db) \<Rightarrow>
                  ((case f of Some (Ambiguous e) \<Rightarrow> Inl e | _ \<Rightarrow> Inr a), (tick w)\<lparr>committed := db\<rparr>)))
      | WithTx \<Rightarrow>
          (case open_tx w of
             None \<Rightarrow> (Inl ErrTxClosed, tick w)
           | Some (db, True) \<Rightarrow> (Inl ErrTxAborted, tick w)
           | Some (db, False) \<Rightarrow>
             (case F (calls w) of
                Some (Refused e) \<Rightarrow> (Inl e, (tick w)\<lparr>open_tx := Some (db, True)\<rparr>)
              | Some (Ambiguous e) \<Rightarrow> (Inl e, (tick w)\<lparr>open_tx := Some (db, True)\<rparr>)
              | None \<Rightarrow>
                (case st db of
                   Inl e \<Rightarrow> (Inl e, (tick w)\<lparr>open_tx := Some (db, True)\<rparr>)
                 | Inr (a, db') \<Rightarrow> (Inr a, (tick w)\<lparr>open_tx := Some (db', False)\<rparr>)))))"

section \<open>Transactions\<close>

definition pool_Begin :: "faults \<Rightarrow> ('db pg, unit) io" where
  "pool_Begin F w =
     (case F (calls w) of
        Some (Refused e) \<Rightarrow> (Inl e, tick w)
      | Some (Ambiguous e) \<Rightarrow> (Inl e, tick w)
      | None \<Rightarrow> (Inr (), (tick w)\<lparr>open_tx := Some (committed w, False)\<rparr>))"

definition tx_Commit :: "faults \<Rightarrow> ('db pg, unit) io" where
  "tx_Commit F w =
     (case open_tx w of
        None \<Rightarrow> (Inl ErrTxClosed, tick w)
      | Some (db, True) \<Rightarrow> (Inl ErrTxCommitRollback, (tick w)\<lparr>open_tx := None\<rparr>)
      | Some (db, False) \<Rightarrow>
          (case F (calls w) of
             Some (Refused e) \<Rightarrow> (Inl e, (tick w)\<lparr>open_tx := None\<rparr>)
           | Some (Ambiguous e) \<Rightarrow> (Inl e, (tick w)\<lparr>committed := db, open_tx := None\<rparr>)
           | None \<Rightarrow> (Inr (), (tick w)\<lparr>committed := db, open_tx := None\<rparr>)))"

definition tx_Rollback :: "faults \<Rightarrow> ('db pg, unit) io" where
  "tx_Rollback F w =
     (case open_tx w of
        None \<Rightarrow> (Inl ErrTxClosed, tick w)
      | Some _ \<Rightarrow>
          (case F (calls w) of
             Some (Refused e) \<Rightarrow> (Inl e, (tick w)\<lparr>open_tx := None\<rparr>)
           | Some (Ambiguous e) \<Rightarrow> (Inl e, (tick w)\<lparr>open_tx := None\<rparr>)
           | None \<Rightarrow> (Inr (), (tick w)\<lparr>open_tx := None\<rparr>)))"

lemmas sql_defs = sql_exec_def pool_Begin_def tx_Commit_def tx_Rollback_def tick_def

section \<open>The state a context sees\<close>

definition seen :: "ctx \<Rightarrow> 'db pg \<Rightarrow> 'db" where
  "seen c w = (case c of Background \<Rightarrow> committed w
     | WithTx \<Rightarrow> (case open_tx w of None \<Rightarrow> committed w | Some (db, _) \<Rightarrow> db))"

lemma tick_sel [simp]:
  "committed (tick w) = committed w" "open_tx (tick w) = open_tx w" "ids (tick w) = ids w"
  "ticks (tick w) = ticks w" "counter (tick w) = counter w" "calls (tick w) = Suc (calls w)"
  by (simp_all add: tick_def)

lemma seen_tick [simp]: "seen c (tick w) = seen c w"
  by (simp add: seen_def split: ctx.splits option.splits)

lemma sql_exec_Inr:
  assumes "sql_exec F c st w = (Inr a, w')"
  shows "\<exists>db. st (seen c w) = Inr (a, db) \<and> seen c w' = db"
  using assms by (auto simp: sql_exec_def seen_def split: ctx.splits option.splits fault.splits
      sum.splits prod.splits bool.splits)

lemma sql_exec_Inl_db:
  assumes "sql_exec F c st w = (Inl e, w')"
  shows "seen c w' = seen c w \<or> (\<exists>a. st (seen c w) = Inr (a, seen c w'))"
  using assms by (auto simp: sql_exec_def seen_def split: ctx.splits option.splits fault.splits
      sum.splits prod.splits bool.splits)

lemma sql_exec_tx_committed: "committed (snd (sql_exec F WithTx st w)) = committed w"
  by (auto simp: sql_exec_def split: option.splits fault.splits sum.splits prod.splits bool.splits)

lemma sql_exec_frame:
  "ids (snd (sql_exec F c st w)) = ids w" "ticks (snd (sql_exec F c st w)) = ticks w"
  "counter (snd (sql_exec F c st w)) = counter w" "calls (snd (sql_exec F c st w)) = Suc (calls w)"
  by (auto simp: sql_exec_def split: ctx.splits option.splits fault.splits sum.splits prod.splits
      bool.splits)

text \<open>A property of the database that a statement keeps is kept of both states by running it.\<close>

definition both :: "('db \<Rightarrow> bool) \<Rightarrow> 'db pg \<Rightarrow> bool" where
  "both P w \<longleftrightarrow> P (committed w) \<and> (\<forall>db b. open_tx w = Some (db, b) \<longrightarrow> P db)"

lemma both_tick [simp]: "both P (tick w) = both P w"
  by (simp add: both_def)

lemma sql_exec_both:
  assumes "both P w" "\<And>db. P db \<Longrightarrow> Q db" "\<And>db a db'. P db \<Longrightarrow> st db = Inr (a, db') \<Longrightarrow> Q db'"
  shows "both Q (snd (sql_exec F c st w))"
  using assms by (fastforce simp: sql_exec_def both_def split: ctx.splits option.splits fault.splits
      sum.splits prod.splits bool.splits)

lemma tx_both:
  "both P w \<Longrightarrow> both P (snd (pool_Begin F w))"
  "both P w \<Longrightarrow> both P (snd (tx_Commit F w))"
  "both P w \<Longrightarrow> both P (snd (tx_Rollback F w))"
  by (auto simp: pool_Begin_def tx_Commit_def tx_Rollback_def both_def
      split: option.splits fault.splits prod.splits bool.splits)

lemma pool_Begin_Inr:
  "pool_Begin F w = (Inr u, w') \<Longrightarrow> w' = (tick w)\<lparr>open_tx := Some (committed w, False)\<rparr>"
  by (auto simp: pool_Begin_def split: option.splits fault.splits)

lemma tx_Commit_cases:
  assumes "tx_Commit F w = (r, w')"
  shows "committed w' = committed w \<and> (\<exists>e. r = Inl e)
    \<or> committed w' = seen WithTx w \<and> open_tx w \<noteq> None"
  using assms by (auto simp: tx_Commit_def seen_def split: option.splits fault.splits prod.splits
      bool.splits)

lemma tx_committed:
  "committed (snd (pool_Begin F w)) = committed w" "committed (snd (tx_Rollback F w)) = committed w"
  by (auto simp: pool_Begin_def tx_Rollback_def split: option.splits fault.splits prod.splits)

section \<open>Tables\<close>

text \<open>
  A table is its list of rows. \<open>upsert key conflict new\<close> is \<open>INSERT ... ON CONFLICT (key) DO UPDATE\<close>,
  where \<open>conflict old new\<close> is the updated row.
\<close>

fun upsert :: "('r \<Rightarrow> 'k) \<Rightarrow> ('r \<Rightarrow> 'r \<Rightarrow> 'r) \<Rightarrow> 'r \<Rightarrow> 'r list \<Rightarrow> 'r list" where
  "upsert key conflict new [] = [new]"
| "upsert key conflict new (r # rs) =
     (if key r = key new then conflict r new # rs else r # upsert key conflict new rs)"

definition select :: "('r \<Rightarrow> 'k) \<Rightarrow> 'k \<Rightarrow> 'r list \<Rightarrow> 'r option" where
  "select key k rs = find (\<lambda>r. key r = k) rs"

text \<open>\<open>INSERT ... ON CONFLICT (key) DO NOTHING\<close>, with the number of affected rows.\<close>

definition insert_ignore :: "('r \<Rightarrow> 'k) \<Rightarrow> 'r \<Rightarrow> 'r list \<Rightarrow> nat \<times> 'r list" where
  "insert_ignore key new rs = (if select key (key new) rs = None then (1, rs @ [new]) else (0, rs))"

lemma select_Nil [simp]: "select key k [] = None"
  by (simp add: select_def)

lemma select_upsert:
  assumes "\<And>a b. key (conflict a b) = key a"
  shows "select key k (upsert key conflict new rs) =
    (if k = key new then Some (case select key k rs of None \<Rightarrow> new | Some r \<Rightarrow> conflict r new)
     else select key k rs)"
  using assms by (induction rs) (auto simp: select_def)

lemma select_append: "select key k (rs @ [r]) =
    (case select key k rs of None \<Rightarrow> (if key r = k then Some r else None) | Some x \<Rightarrow> Some x)"
  by (induction rs) (auto simp: select_def)

lemma select_Some_key: "select key k rs = Some r \<Longrightarrow> key r = k \<and> r \<in> set rs"
  by (auto simp: select_def find_Some_iff)

lemma select_None_iff: "select key k rs = None \<longleftrightarrow> k \<notin> key ` set rs"
  by (auto simp: select_def find_None_iff)

lemma set_upsert:
  "r \<in> set (upsert key conflict new rs) \<Longrightarrow> r \<in> set rs \<or> r = new \<or> (\<exists>a \<in> set rs. r = conflict a new)"
  by (induction rs) (auto split: if_splits)

lemma upsert_keys_distinct:
  assumes "\<And>a b. key (conflict a b) = key a"
  shows "distinct (map key rs) \<Longrightarrow> distinct (map key (upsert key conflict new rs))
    \<and> set (map key (upsert key conflict new rs)) = insert (key new) (set (map key rs))"
  using assms by (induction rs) auto

end
