(* ===== verification/GoText.thy ===== *)
theory GoText
  imports Prelude
begin

text \<open>
  The text the adapters read and write through Go's standard library: decimal numbers,
  \<open>time.Duration\<close> as text (\<open>Duration.String\<close>, \<open>time.ParseDuration\<close>), and JSON values with the
  way \<open>encoding/json\<close> writes a struct field (its \<open>omitempty\<close> option).
\<close>

section \<open>Decimal\<close>

definition digit_char :: "nat \<Rightarrow> char" where
  "digit_char n = char_of (48 + n)"

lemma digit_char_simps [simp]:
  "digit_char 0 = CHR ''0''" "digit_char (Suc 0) = CHR ''1''" "digit_char 1 = CHR ''1''"
  "digit_char 2 = CHR ''2''" "digit_char 3 = CHR ''3''" "digit_char 4 = CHR ''4''"
  "digit_char 5 = CHR ''5''" "digit_char 6 = CHR ''6''" "digit_char 7 = CHR ''7''"
  "digit_char 8 = CHR ''8''" "digit_char 9 = CHR ''9''"
  by code_simp+

fun dec :: "nat \<Rightarrow> string" where
  "dec n = (if n < 10 then [digit_char n] else dec (n div 10) @ [digit_char (n mod 10)])"

declare dec.simps [simp del]

section \<open>Durations\<close>

text \<open>
  \<open>fmtFrac v prec\<close>: the fraction of \<open>v / 10 ^ prec\<close> without trailing zeros (with its leading dot,
  or nothing) and the whole part.
\<close>

fun fmtFrac_go :: "nat \<Rightarrow> bool \<Rightarrow> nat \<Rightarrow> string \<Rightarrow> string \<times> nat" where
  "fmtFrac_go 0 printing v acc = (if printing then CHR ''.'' # acc else acc, v)"
| "fmtFrac_go (Suc n) printing v acc =
     (let d = v mod 10; pr = (printing \<or> d \<noteq> 0)
      in fmtFrac_go n pr (v div 10) (if pr then digit_char d # acc else acc))"

lemma fmtFrac_go_numeral [simp]:
  "fmtFrac_go (numeral k) printing v acc =
     (let d = v mod 10; pr = (printing \<or> d \<noteq> 0)
      in fmtFrac_go (pred_numeral k) pr (v div 10) (if pr then digit_char d # acc else acc))"
  by (subst numeral_eq_Suc) (rule fmtFrac_go.simps(2))

definition fmtFrac :: "nat \<Rightarrow> nat \<Rightarrow> string \<times> nat" where
  "fmtFrac v prec = fmtFrac_go prec False v []"

definition micro_sign :: string where
  "micro_sign = [char_of (0xC2::nat), char_of (0xB5::nat)]"

text \<open>\<open>Duration.String\<close>, on the magnitude \<open>u\<close>; the most negative duration negates to itself.\<close>

definition abs_duration_string :: "nat \<Rightarrow> string" where
  "abs_duration_string u =
     (if u = 0 then ''0s''
      else if u < 1000 then dec u @ ''ns''
      else if u < 1000000 then (case fmtFrac u 3 of (f, v) \<Rightarrow> dec v @ f @ micro_sign @ ''s'')
      else if u < 1000000000 then (case fmtFrac u 6 of (f, v) \<Rightarrow> dec v @ f @ ''ms'')
      else (case fmtFrac u 9 of (f, v) \<Rightarrow>
        (let secs = dec (v mod 60) @ f @ ''s''; m = v div 60 in
         if m = 0 then secs
         else (let mins = dec (m mod 60) @ ''m'' @ secs; h = m div 60 in
               if h = 0 then mins else dec h @ ''h'' @ mins))))"

definition Duration_String :: "duration \<Rightarrow> string" where
  "Duration_String d =
     (if sint d < 0 then CHR ''-'' # abs_duration_string (unat (- d))
      else abs_duration_string (unat d))"

lemmas duration_text = Duration_String_def abs_duration_string_def fmtFrac_def dec.simps
  micro_sign_def Let_def

section \<open>Parsing durations\<close>

text \<open>
  \<open>time.ParseDuration\<close>. Its one floating-point step, the nanoseconds of a fraction
  \<open>uint64(float64(f) * (float64(unit) / scale))\<close>, is the parameter \<open>frac f unit scale\<close>.
\<close>

definition is_digit :: "char \<Rightarrow> bool" where
  "is_digit c \<longleftrightarrow> CHR ''0'' \<le> c \<and> c \<le> CHR ''9''"

definition digit_val :: "char \<Rightarrow> nat" where
  "digit_val c = char_code c - 48"

text \<open>\<open>leadingInt\<close>: \<open>None\<close> on overflow.\<close>

fun leadingInt_go :: "nat \<Rightarrow> string \<Rightarrow> (nat \<times> string) option" where
  "leadingInt_go x [] = Some (x, [])"
| "leadingInt_go x (c # cs) =
     (if \<not> is_digit c then Some (x, c # cs)
      else if x > 2 ^ 63 div 10 then None
      else (let x' = x * 10 + digit_val c in if x' > 2 ^ 63 then None else leadingInt_go x' cs))"

definition leadingInt :: "string \<Rightarrow> (nat \<times> string) option" where
  "leadingInt s = leadingInt_go 0 s"

text \<open>\<open>leadingFraction\<close>: digits that no longer fit are dropped.\<close>

fun leadingFraction_go :: "nat \<Rightarrow> nat \<Rightarrow> bool \<Rightarrow> string \<Rightarrow> nat \<times> nat \<times> string" where
  "leadingFraction_go x scale overflow [] = (x, scale, [])"
| "leadingFraction_go x scale overflow (c # cs) =
     (if \<not> is_digit c then (x, scale, c # cs)
      else if overflow then leadingFraction_go x scale True cs
      else if x > (2 ^ 63 - 1) div 10 then leadingFraction_go x scale True cs
      else (let y = x * 10 + digit_val c in
            if y > 2 ^ 63 then leadingFraction_go x scale True cs
            else leadingFraction_go y (scale * 10) False cs))"

definition leadingFraction :: "string \<Rightarrow> nat \<times> nat \<times> string" where
  "leadingFraction s = leadingFraction_go 0 1 False s"

definition duration_unit :: "string \<Rightarrow> nat option" where
  "duration_unit u =
     (if u = ''ns'' then Some 1
      else if u = micro_sign @ ''s'' \<or> u = [char_of (0xCE::nat), char_of (0xBC::nat)] @ ''s'' \<or> u = ''us''
      then Some 1000
      else if u = ''ms'' then Some 1000000
      else if u = ''s'' then Some 1000000000
      else if u = ''m'' then Some 60000000000
      else if u = ''h'' then Some 3600000000000
      else None)"

definition unit_char :: "char \<Rightarrow> bool" where
  "unit_char c \<longleftrightarrow> \<not> (c = CHR ''.'' \<or> is_digit c)"

text \<open>The number of one round: whole part, fraction, its scale, and the rest of the text.\<close>

definition fraction_of :: "string \<Rightarrow> nat \<times> nat \<times> string \<times> bool" where
  "fraction_of s1 =
     (if s1 \<noteq> [] \<and> hd s1 = CHR ''.''
      then (case leadingFraction (tl s1) of (f, scale, s2) \<Rightarrow> (f, scale, s2, length s2 \<noteq> length (tl s1)))
      else (0, 1, s1, False))"

definition parse_number :: "string \<Rightarrow> (nat \<times> nat \<times> nat \<times> string) option" where
  "parse_number s =
     (if \<not> (s \<noteq> [] \<and> (hd s = CHR ''.'' \<or> is_digit (hd s))) then None
      else case leadingInt s of
        None \<Rightarrow> None
      | Some (v, s1) \<Rightarrow>
          (case fraction_of s1 of (f, scale, s2, post) \<Rightarrow>
             if length s1 = length s \<and> \<not> post then None else Some (v, f, scale, s2)))"

definition in_unit :: "(nat \<Rightarrow> nat \<Rightarrow> nat \<Rightarrow> nat) \<Rightarrow> nat \<Rightarrow> nat \<Rightarrow> nat \<Rightarrow> nat \<Rightarrow> nat option" where
  "in_unit frac v f scale unit =
     (if v > 2 ^ 63 div unit then None
      else if f > 0 then (if v * unit + frac f unit scale > 2 ^ 63 then None
                          else Some (v * unit + frac f unit scale))
      else Some (v * unit))"

text \<open>One round of the loop: a number and its unit.\<close>

definition parse_component :: "(nat \<Rightarrow> nat \<Rightarrow> nat \<Rightarrow> nat) \<Rightarrow> string \<Rightarrow> (nat \<times> string) option" where
  "parse_component frac s =
     (case parse_number s of
        None \<Rightarrow> None
      | Some (v, f, scale, s2) \<Rightarrow>
          (case duration_unit (takeWhile unit_char s2) of
             None \<Rightarrow> None
           | Some unit \<Rightarrow> map_option (\<lambda>n. (n, dropWhile unit_char s2)) (in_unit frac v f scale unit)))"

text \<open>
  The sum is a \<open>uint64\<close>. Every round consumes text, so as many rounds as there are
  characters are enough.
\<close>

fun parse_components :: "(nat \<Rightarrow> nat \<Rightarrow> nat \<Rightarrow> nat) \<Rightarrow> nat \<Rightarrow> nat \<Rightarrow> string \<Rightarrow> nat option" where
  "parse_components frac fuel d [] = Some d"
| "parse_components frac 0 d (c # cs) = None"
| "parse_components frac (Suc fuel) d (c # cs) =
     (case parse_component frac (c # cs) of
        None \<Rightarrow> None
      | Some (v, rest) \<Rightarrow>
          if (d + v) mod 2 ^ 64 > 2 ^ 63 then None
          else parse_components frac fuel ((d + v) mod 2 ^ 64) rest)"

definition ParseDuration :: "(nat \<Rightarrow> nat \<Rightarrow> nat \<Rightarrow> nat) \<Rightarrow> string \<Rightarrow> duration option" where
  "ParseDuration frac s =
     (let neg = (s \<noteq> [] \<and> hd s = CHR ''-'');
          s1 = (if s \<noteq> [] \<and> (hd s = CHR ''-'' \<or> hd s = CHR ''+'') then tl s else s)
      in if s1 = ''0'' then Some 0
         else if s1 = [] then None
         else case parse_components frac (length s1) 0 s1 of
                None \<Rightarrow> None
              | Some d \<Rightarrow> if neg then Some (- (of_nat d))
                          else if d > 2 ^ 63 - 1 then None else Some (of_nat d))"

lemma leadingInt_shorter: "leadingInt_go x t = Some (y, r) \<Longrightarrow> length r \<le> length t"
proof (induction t arbitrary: x)
  case (Cons c cs)
  then show ?case
    by (cases "is_digit c") (fastforce simp: Let_def simp del: power_numeral split: if_splits)+
qed simp

lemma leadingFraction_shorter:
  "length (snd (snd (leadingFraction_go x sc ov t))) \<le> length t"
proof (induction t arbitrary: x sc ov)
  case (Cons c cs)
  have le: "length (snd (snd (leadingFraction_go x sc ov cs))) \<le> Suc (length cs)" for x sc ov
    using Cons le_SucI by blast
  show ?case by (auto simp: Let_def le simp del: power_numeral)
qed simp

lemma parse_number_shorter:
  "parse_number s = Some (v, f, sc, s2) \<Longrightarrow> length s2 \<le> length s"
proof -
  assume a: "parse_number s = Some (v, f, sc, s2)"
  then obtain s1 post where l: "leadingInt s = Some (v, s1)" "fraction_of s1 = (f, sc, s2, post)"
    by (auto simp: parse_number_def split: if_splits option.splits prod.splits)
  have "length s2 \<le> length s1"
  proof (cases "s1 \<noteq> [] \<and> hd s1 = CHR ''.''")
    case True
    then show ?thesis using l(2) leadingFraction_shorter [of 0 1 False "tl s1"]
      by (auto simp: fraction_of_def leadingFraction_def split: prod.splits)
  qed (use l(2) in \<open>auto simp: fraction_of_def\<close>)
  then show ?thesis using leadingInt_shorter [of 0 s v s1] l(1) by (simp add: leadingInt_def)
qed

lemma parse_component_shorter:
  assumes "parse_component frac s = Some (v, rest)"
  shows "length rest < length s"
proof -
  obtain w f sc s2 where n: "parse_number s = Some (w, f, sc, s2)" "rest = dropWhile unit_char s2"
    "duration_unit (takeWhile unit_char s2) \<noteq> None"
    using assms by (auto simp: parse_component_def split: option.splits)
  have "takeWhile unit_char s2 \<noteq> []"
    using n(3) by (auto simp: duration_unit_def micro_sign_def)
  then have "length rest < length s2"
    using n(2) by (cases s2) (auto simp: le_imp_less_Suc length_dropWhile_le split: if_splits)
  then show ?thesis using parse_number_shorter [OF n(1)] by simp
qed

text \<open>The bound on the rounds never decides: more fuel gives the same result.\<close>

lemma parse_components_fuel:
  "length s \<le> n \<Longrightarrow> parse_components frac n d s = parse_components frac (length s) d s"
proof (induction "length s" arbitrary: s n d rule: less_induct)
  case less
  show ?case
  proof (cases s)
    case (Cons c cs)
    obtain m where m: "n = Suc m" using less.prems Cons by (cases n) auto
    have "parse_components frac m d' rest = parse_components frac (length cs) d' rest"
      if "parse_component frac (c # cs) = Some (v, rest)" for v rest d'
    proof -
      have r: "length rest < length s" using parse_component_shorter [OF that] Cons by simp
      then have "length rest \<le> m" "length rest \<le> length cs" using less.prems m Cons by auto
      then show ?thesis using less.hyps [OF r] by metis
    qed
    then show ?thesis by (auto simp: Cons m simp del: power_numeral split: option.splits)
  qed simp
qed

section \<open>JSON values\<close>

text \<open>\<open>JFrac\<close> is the literal of a number that is not an integer.\<close>

datatype json = JNull | JBool bool | JInt int | JFrac string | JStr string
  | JArr "json list" | JObj "(string \<times> json) list"

text \<open>A struct field with and without \<open>omitempty\<close>.\<close>

definition field :: "string \<Rightarrow> json \<Rightarrow> (string \<times> json) list" where
  "field name v = [(name, v)]"

definition omit_string :: "string \<Rightarrow> string \<Rightarrow> (string \<times> json) list" where
  "omit_string name v = (if v = '''' then [] else [(name, JStr v)])"

definition omit_bool :: "string \<Rightarrow> bool \<Rightarrow> (string \<times> json) list" where
  "omit_bool name b = (if b then [(name, JBool b)] else [])"

definition omit_strings :: "string \<Rightarrow> string list \<Rightarrow> (string \<times> json) list" where
  "omit_strings name vs = (if vs = [] then [] else [(name, JArr (map JStr vs))])"

definition omit_int :: "string \<Rightarrow> int option \<Rightarrow> (string \<times> json) list" where
  "omit_int name v = (case v of None \<Rightarrow> [] | Some n \<Rightarrow> [(name, JInt n)])"

definition omit_ptr :: "string \<Rightarrow> ('a \<Rightarrow> json) \<Rightarrow> 'a option \<Rightarrow> (string \<times> json) list" where
  "omit_ptr name f v = (case v of None \<Rightarrow> [] | Some x \<Rightarrow> [(name, f x)])"

definition JStrs :: "string list \<Rightarrow> json" where
  "JStrs vs = JArr (map JStr vs)"

lemmas json_fields = field_def omit_string_def omit_bool_def omit_strings_def omit_int_def
  omit_ptr_def JStrs_def

end
