(* ===== verification/Kafka.thy ===== *)
theory Kafka
  imports Events GoText
begin

text \<open>
  The wire form of the events: \<open>internal/adapters/kafka/cloudevents\<close> and
  \<open>internal/adapters/outbound/kafka\<close>. The CloudEvents SDK is a parameter (\<open>sdk\<close>); what the code
  relies on is \<open>sdk_ok\<close>. The Kafka writer is a parameter of the publishers, a function over the
  state of whatever is behind it.
\<close>

section \<open>CloudEvents (cloudevents.go, types.go)\<close>

record cloud_event =
  ce_specversion :: string
  ce_id :: string
  ce_source :: string
  ce_type :: string
  ce_subject :: string
  ce_time :: time
  ce_dataschema :: string
  ce_datacontenttype :: string
  ce_data :: json

record sdk =
  SetData :: "cloud_event \<Rightarrow> string \<Rightarrow> json \<Rightarrow> err + cloud_event"
  Validate :: "cloud_event \<Rightarrow> err option"
  MarshalJSON :: "cloud_event \<Rightarrow> err + string"
  UnmarshalJSON :: "string \<Rightarrow> err + cloud_event"

definition ce_Repo :: string where "ce_Repo = ''process-path-management''"
definition ce_Subdomain :: string where "ce_Subdomain = ''wes''"
definition ce_Context :: string where "ce_Context = ''process-path-management''"
definition ce_Source :: string where "ce_Source = ''/warehouse/'' @ ce_Repo"
definition SpecVersion :: string where "SpecVersion = ''1.0''"
definition DataContentType :: string where "DataContentType = ''application/json''"
definition MediaType :: string where "MediaType = ''application/cloudevents+json; charset=UTF-8''"
definition StreamEvents :: string where "StreamEvents = ''events''"
definition StreamAnalytics :: string where "StreamAnalytics = ''analytics''"

definition EntityProcessPath :: string where "EntityProcessPath = ''processpath''"
definition EntityCPTSchedule :: string where "EntityCPTSchedule = ''cptschedule''"

definition TypeProcessPathCreated :: string where
  "TypeProcessPathCreated = ''com.warehouse.wes.process-path-management.processpath.ProcessPathCreated''"
definition TypeProcessPathUpdated :: string where
  "TypeProcessPathUpdated = ''com.warehouse.wes.process-path-management.processpath.ProcessPathUpdated''"
definition TypeProcessPathDeactivated :: string where
  "TypeProcessPathDeactivated = ''com.warehouse.wes.process-path-management.processpath.ProcessPathDeactivated''"
definition TypeCPTScheduleChanged :: string where
  "TypeCPTScheduleChanged = ''com.warehouse.wes.process-path-management.cptschedule.CPTScheduleChanged''"

lemmas type_defs = TypeProcessPathCreated_def TypeProcessPathUpdated_def
  TypeProcessPathDeactivated_def TypeCPTScheduleChanged_def

definition ErrNotCloudEvent :: err where
  "ErrNotCloudEvent = PlainErr ''cloudevents: message is not a valid CloudEvents 1.0 event''"

definition ce_Type :: "string \<Rightarrow> string \<Rightarrow> string" where
  "ce_Type entity eventName =
     ''com.warehouse.'' @ ce_Subdomain @ ''.'' @ ce_Context @ ''.'' @ entity @ ''.'' @ eventName"

definition DataSchema :: "string \<Rightarrow> string \<Rightarrow> nat \<Rightarrow> string" where
  "DataSchema stream eventName version =
     ''urn:warehouse:'' @ ce_Repo @ '':'' @ stream @ '':'' @ eventName @ '':v'' @ dec version"

record Spec =
  spec_ID :: string
  spec_Entity :: string
  spec_EventName :: string
  spec_Subject :: string
  spec_Time :: time
  spec_Stream :: string
  spec_Version :: nat
  spec_Data :: json

definition ce_New :: "sdk \<Rightarrow> Spec \<Rightarrow> err + string" where
  "ce_New S s =
     (if spec_Subject s = '''' then
        Inl (PlainErr (''cloudevents: '' @ spec_EventName s @ '': empty subject''))
      else
        let version = (if spec_Version s < 1 then 1 else spec_Version s);
            e = \<lparr>ce_specversion = SpecVersion, ce_id = spec_ID s, ce_source = ce_Source,
                 ce_type = ce_Type (spec_Entity s) (spec_EventName s), ce_subject = spec_Subject s,
                 ce_time = spec_Time s,
                 ce_dataschema = DataSchema (spec_Stream s) (spec_EventName s) version,
                 ce_datacontenttype = '''', ce_data = JNull\<rparr>
        in case SetData S e DataContentType (spec_Data s) of
             Inl er \<Rightarrow> Inl (WrapErr ''cloudevents: set data'' er)
           | Inr e' \<Rightarrow>
               (case Validate S e' of
                  Some er \<Rightarrow> Inl (WrapErr ''cloudevents: invalid event'' er)
                | None \<Rightarrow> MarshalJSON S e'))"

text \<open>\<open>text_of\<close> is the text of the underlying error in the \<open>%v\<close> position.\<close>

definition ce_Decode :: "(err \<Rightarrow> string) \<Rightarrow> sdk \<Rightarrow> string \<Rightarrow> err + cloud_event" where
  "ce_Decode text_of S v =
     (case UnmarshalJSON S v of
        Inl er \<Rightarrow> Inl (SuffixErr ErrNotCloudEvent (text_of er))
      | Inr e \<Rightarrow>
          if ce_specversion e \<noteq> SpecVersion then
            Inl (SuffixErr ErrNotCloudEvent (''specversion '' @ ce_specversion e))
          else (case Validate S e of
                  Some er \<Rightarrow> Inl (SuffixErr ErrNotCloudEvent (text_of er))
                | None \<Rightarrow> Inr e))"

text \<open>The SDK's documented behaviour, as far as the code needs it.\<close>

definition ce_required :: "cloud_event \<Rightarrow> bool" where
  "ce_required e \<longleftrightarrow> ce_id e \<noteq> '''' \<and> ce_source e \<noteq> '''' \<and> ce_type e \<noteq> '''' \<and> ce_specversion e = SpecVersion"

definition sdk_ok :: "sdk \<Rightarrow> bool" where
  "sdk_ok S \<longleftrightarrow>
     (\<forall>e ct d. SetData S e ct d = Inr (e\<lparr>ce_datacontenttype := ct, ce_data := d\<rparr>))
   \<and> (\<forall>e. ce_required e \<longrightarrow> Validate S e = None)
   \<and> (\<forall>e v. MarshalJSON S e = Inr v \<longrightarrow> UnmarshalJSON S v = Inr e)"

section \<open>Payloads (publisher.go)\<close>

record EligibilityData =
  ed_maxUnits :: "int option"
  ed_required :: "string list"
  ed_excluded :: "string list"
  ed_nonSortable :: bool

record ProcessPathData =
  pd_pathId :: string
  pd_matchPrefix :: string
  pd_direct :: bool
  pd_requiredCapabilities :: "string list"
  pd_role :: string
  pd_cycleTimeP95 :: string
  pd_eligibility :: "EligibilityData option"

record CutoffData =
  kd_cptId :: string
  kd_localTime :: string
  kd_daysOfWeek :: "string list"
  kd_shipMethod :: string
  kd_eligiblePathIds :: "string list"

record CPTScheduleData =
  sd_siteId :: string
  sd_timezone :: string
  sd_cutoffs :: "CutoffData list"

definition EligibilityData_json :: "EligibilityData \<Rightarrow> json" where
  "EligibilityData_json d = JObj (omit_int ''max_units_per_line'' (ed_maxUnits d)
     @ omit_strings ''required_product_attributes'' (ed_required d)
     @ omit_strings ''excluded_product_attributes'' (ed_excluded d)
     @ omit_bool ''non_sortable'' (ed_nonSortable d))"

definition ProcessPathData_json :: "ProcessPathData \<Rightarrow> json" where
  "ProcessPathData_json d = JObj (field ''path_id'' (JStr (pd_pathId d))
     @ omit_string ''match_prefix'' (pd_matchPrefix d)
     @ omit_bool ''direct'' (pd_direct d)
     @ omit_strings ''required_capabilities'' (pd_requiredCapabilities d)
     @ omit_string ''destination_location_role'' (pd_role d)
     @ omit_string ''cycle_time_p95'' (pd_cycleTimeP95 d)
     @ omit_ptr ''eligibility'' EligibilityData_json (pd_eligibility d))"

definition CutoffData_json :: "CutoffData \<Rightarrow> json" where
  "CutoffData_json d = JObj (field ''cpt_id'' (JStr (kd_cptId d))
     @ field ''local_time'' (JStr (kd_localTime d))
     @ field ''days_of_week'' (JStrs (kd_daysOfWeek d))
     @ field ''ship_method'' (JStr (kd_shipMethod d))
     @ field ''eligible_path_ids'' (JStrs (kd_eligiblePathIds d)))"

definition CPTScheduleData_json :: "CPTScheduleData \<Rightarrow> json" where
  "CPTScheduleData_json d = JObj (field ''site_id'' (JStr (sd_siteId d))
     @ field ''timezone'' (JStr (sd_timezone d))
     @ field ''cutoffs'' (JArr (map CutoffData_json (sd_cutoffs d))))"

definition eligibilityToData :: "Eligibility \<Rightarrow> EligibilityData" where
  "eligibilityToData e = \<lparr>ed_maxUnits = maxUnitsPerLine e, ed_required = requiredProductAttributes e,
     ed_excluded = excludedProductAttributes e, ed_nonSortable = nonSortable e\<rparr>"

definition cutoffsToData :: "CutoffSnapshot list \<Rightarrow> CutoffData list" where
  "cutoffsToData cs = map (\<lambda>c. \<lparr>kd_cptId = sn_cptId c, kd_localTime = sn_localTime c,
     kd_daysOfWeek = sn_daysOfWeek c, kd_shipMethod = sn_shipMethod c,
     kd_eligiblePathIds = sn_eligiblePathIds c\<rparr>) cs"

record mapped =
  m_entity :: string
  m_name :: string
  m_key :: string
  m_data :: json

text \<open>The two identical struct literals of the created and the updated case.\<close>

definition path_data :: "PathPayload \<Rightarrow> ProcessPathData" where
  "path_data e = \<lparr>pd_pathId = ev_pathId e, pd_matchPrefix = ev_matchPrefix e,
     pd_direct = ev_direct e, pd_requiredCapabilities = ev_requiredCapabilities e,
     pd_role = ev_destinationLocationRole e, pd_cycleTimeP95 = Duration_String (ev_cycleTimeP95 e),
     pd_eligibility = Some (eligibilityToData (ev_eligibility e))\<rparr>"

text \<open>The \<open>default\<close> case (an event type of another package) has no value in \<open>DomainEvent\<close>.\<close>

fun mapEvent :: "DomainEvent \<Rightarrow> err + mapped" where
  "mapEvent (ProcessPathCreated e) = Inr \<lparr>m_entity = EntityProcessPath,
     m_name = ''ProcessPathCreated'', m_key = ev_pathId e, m_data = ProcessPathData_json (path_data e)\<rparr>"
| "mapEvent (ProcessPathUpdated e) = Inr \<lparr>m_entity = EntityProcessPath,
     m_name = ''ProcessPathUpdated'', m_key = ev_pathId e, m_data = ProcessPathData_json (path_data e)\<rparr>"
| "mapEvent (ProcessPathDeactivated i t) = Inr \<lparr>m_entity = EntityProcessPath,
     m_name = ''ProcessPathDeactivated'', m_key = i,
     m_data = ProcessPathData_json \<lparr>pd_pathId = i, pd_matchPrefix = '''', pd_direct = False,
       pd_requiredCapabilities = [], pd_role = '''', pd_cycleTimeP95 = '''', pd_eligibility = None\<rparr>\<rparr>"
| "mapEvent (CPTScheduleChanged s) = Inr \<lparr>m_entity = EntityCPTSchedule,
     m_name = ''CPTScheduleChanged'', m_key = sn_siteId s,
     m_data = CPTScheduleData_json \<lparr>sd_siteId = sn_siteId s, sd_timezone = sn_timezone s,
       sd_cutoffs = cutoffsToData (sn_cutoffs s)\<rparr>\<rparr>"

section \<open>Encoders\<close>

definition Topic :: string where
  "Topic = ''warehouse.process-path-management.events''"

definition AnalyticsTopic :: string where
  "AnalyticsTopic = ''warehouse.process-path-management.analytics''"

record Encoded =
  enc_Topic :: string
  enc_EventId :: string
  enc_EventType :: string
  enc_Key :: string
  enc_Value :: string

type_synonym Encoder = "DomainEvent \<Rightarrow> string \<Rightarrow> err + Encoded"

definition encodeFor :: "sdk \<Rightarrow> DomainEvent \<Rightarrow> string \<Rightarrow> string \<Rightarrow> string \<Rightarrow> err + Encoded" where
  "encodeFor S ev eventId topic stream =
     (case mapEvent ev of
        Inl e \<Rightarrow> Inl e
      | Inr m \<Rightarrow>
          (case ce_New S \<lparr>spec_ID = eventId, spec_Entity = m_entity m, spec_EventName = m_name m,
                  spec_Subject = m_key m, spec_Time = OccurredAt ev, spec_Stream = stream,
                  spec_Version = 1, spec_Data = m_data m\<rparr> of
             Inl e \<Rightarrow> Inl (WrapErr (''kafka: encode '' @ m_name m) e)
           | Inr v \<Rightarrow> Inr \<lparr>enc_Topic = topic, enc_EventId = eventId,
               enc_EventType = ce_Type (m_entity m) (m_name m), enc_Key = m_key m, enc_Value = v\<rparr>))"

definition Encode :: "sdk \<Rightarrow> Encoder" where
  "Encode S ev eventId = encodeFor S ev eventId Topic StreamEvents"

definition AnalyticsEncoder_Encode :: "sdk \<Rightarrow> Encoder" where
  "AnalyticsEncoder_Encode S ev eventId = encodeFor S ev eventId AnalyticsTopic StreamAnalytics"

section \<open>Publishers\<close>

record kafka_message =
  msg_Topic :: string
  msg_Key :: string
  msg_Value :: string
  msg_Headers :: "(string \<times> string) list"

definition ContentTypeHeader :: "string \<times> string" where
  "ContentTypeHeader = (''content-type'', MediaType)"

type_synonym 'w Writer = "kafka_message \<Rightarrow> ('w, unit) io"
type_synonym 'w IdSource = "'w \<Rightarrow> string \<times> 'w"

definition Publisher_Send :: "'w Writer \<Rightarrow> Encoded \<Rightarrow> ('w, unit) io" where
  "Publisher_Send write enc = (\<lambda>w.
     case write \<lparr>msg_Topic = enc_Topic enc, msg_Key = enc_Key enc, msg_Value = enc_Value enc,
                  msg_Headers = [ContentTypeHeader]\<rparr> w of
       (Inl e, w') \<Rightarrow> (Inl (WrapErr (''kafka: publish '' @ enc_EventType enc) e), w')
     | (Inr _, w') \<Rightarrow> (Inr (), w'))"

definition Publisher_Publish :: "sdk \<Rightarrow> 'w IdSource \<Rightarrow> 'w Writer \<Rightarrow> DomainEvent \<Rightarrow> ('w, unit) io" where
  "Publisher_Publish S newId write ev = (\<lambda>w.
     case newId w of (i, w1) \<Rightarrow>
       (case Encode S ev i of
          Inl e \<Rightarrow> (Inl e, w1)
        | Inr enc \<Rightarrow> Publisher_Send write enc w1))"

text \<open>The analytics writer is pinned to its topic, so the message itself carries none.\<close>

definition AnalyticsPublisher_Publish ::
    "sdk \<Rightarrow> 'w IdSource \<Rightarrow> 'w Writer \<Rightarrow> DomainEvent \<Rightarrow> ('w, unit) io" where
  "AnalyticsPublisher_Publish S newId write ev = (\<lambda>w.
     case newId w of (i, w1) \<Rightarrow>
       (case AnalyticsEncoder_Encode S ev i of
          Inl e \<Rightarrow> (Inl e, w1)
        | Inr enc \<Rightarrow>
            (case write \<lparr>msg_Topic = '''', msg_Key = enc_Key enc, msg_Value = enc_Value enc,
                          msg_Headers = [ContentTypeHeader]\<rparr> w1 of
               (Inl e, w') \<Rightarrow>
                 (Inl (WrapErr (''kafka: publish '' @ enc_EventType enc @ '' analytics event'') e), w')
             | (Inr _, w') \<Rightarrow> (Inr (), w'))))"

fun FanOutPublisher_Publish :: "(DomainEvent \<Rightarrow> ('w, unit) io) list \<Rightarrow> DomainEvent \<Rightarrow> ('w, unit) io" where
  "FanOutPublisher_Publish [] ev = (\<lambda>w. (Inr (), w))"
| "FanOutPublisher_Publish (p # ps) ev = io_bind (p ev) (\<lambda>_. FanOutPublisher_Publish ps ev)"

section \<open>Writers (writer_config.go)\<close>

text \<open>
  How the \<open>kafka.Writer\<close> of each publisher is configured. The integration writer has no topic of its
  own: the topic travels with the message.
\<close>

datatype required_acks = RequireNone | RequireOne | RequireAll
datatype balancer = HashBalancer | LeastBytes

record writer_config =
  wc_Addr :: "string list"
  wc_Topic :: string
  wc_BatchTimeout :: duration
  wc_RequiredAcks :: required_acks
  wc_Balancer :: balancer
  wc_AllowAutoTopicCreation :: bool

definition syncWriterBatchTimeout :: duration where
  "syncWriterBatchTimeout = 10 * 1000000"

definition syncWriterRequiredAcks :: required_acks where
  "syncWriterRequiredAcks = RequireAll"

definition NewPublisher :: "string list \<Rightarrow> writer_config" where
  "NewPublisher brokers = \<lparr>wc_Addr = brokers, wc_Topic = '''', wc_BatchTimeout = syncWriterBatchTimeout,
     wc_RequiredAcks = syncWriterRequiredAcks, wc_Balancer = HashBalancer, wc_AllowAutoTopicCreation = True\<rparr>"

definition NewAnalyticsDirectPublisher :: "string list \<Rightarrow> writer_config" where
  "NewAnalyticsDirectPublisher brokers = \<lparr>wc_Addr = brokers, wc_Topic = AnalyticsTopic,
     wc_BatchTimeout = syncWriterBatchTimeout, wc_RequiredAcks = syncWriterRequiredAcks,
     wc_Balancer = HashBalancer, wc_AllowAutoTopicCreation = True\<rparr>"

text \<open>Only a writer of the library is closed; a test double has nothing to close.\<close>

definition Publisher_Close :: "('w, unit) io option \<Rightarrow> ('w, unit) io" where
  "Publisher_Close close = (case close of Some c \<Rightarrow> c | None \<Rightarrow> io_return ())"

section \<open>What the encoders promise\<close>

definition event_key :: "DomainEvent \<Rightarrow> string" where
  "event_key ev = (case ev of ProcessPathCreated e \<Rightarrow> ev_pathId e | ProcessPathUpdated e \<Rightarrow> ev_pathId e
     | ProcessPathDeactivated i t \<Rightarrow> i | CPTScheduleChanged s \<Rightarrow> sn_siteId s)"

text \<open>The published catalogue: which literal type string stands for which event.\<close>

fun contract_type :: "DomainEvent \<Rightarrow> string" where
  "contract_type (ProcessPathCreated _) = TypeProcessPathCreated"
| "contract_type (ProcessPathUpdated _) = TypeProcessPathUpdated"
| "contract_type (ProcessPathDeactivated _ _) = TypeProcessPathDeactivated"
| "contract_type (CPTScheduleChanged _) = TypeCPTScheduleChanged"

lemma mapEvent_Inr:
  "\<exists>m. mapEvent ev = Inr m \<and> m_key m = event_key ev \<and> m_name m = EventName ev
     \<and> ce_Type (m_entity m) (m_name m) = contract_type ev"
  by (cases ev) (simp_all add: event_key_def ce_Type_def type_defs EntityProcessPath_def
      EntityCPTSchedule_def ce_Subdomain_def ce_Context_def)

definition wire_event :: "DomainEvent \<Rightarrow> string \<Rightarrow> string \<Rightarrow> cloud_event" where
  "wire_event ev eventId stream = \<lparr>ce_specversion = SpecVersion, ce_id = eventId, ce_source = ce_Source,
     ce_type = contract_type ev, ce_subject = event_key ev, ce_time = OccurredAt ev,
     ce_dataschema = DataSchema stream (EventName ev) 1, ce_datacontenttype = DataContentType,
     ce_data = m_data (projr (mapEvent ev))\<rparr>"

lemma contract_type_nonempty [simp]: "contract_type ev \<noteq> ''''"
  by (cases ev) (simp_all add: type_defs)

lemma wire_event_required: "eventId \<noteq> '''' \<Longrightarrow> ce_required (wire_event ev eventId stream)"
  by (simp add: ce_required_def wire_event_def ce_Source_def)

lemma encodeFor_eq:
  assumes "sdk_ok S" "eventId \<noteq> ''''"
  shows "encodeFor S ev eventId topic stream =
    (if event_key ev = '''' then
       Inl (WrapErr (''kafka: encode '' @ EventName ev)
             (PlainErr (''cloudevents: '' @ EventName ev @ '': empty subject'')))
     else case MarshalJSON S (wire_event ev eventId stream) of
            Inl e \<Rightarrow> Inl (WrapErr (''kafka: encode '' @ EventName ev) e)
          | Inr v \<Rightarrow> Inr \<lparr>enc_Topic = topic, enc_EventId = eventId, enc_EventType = contract_type ev,
              enc_Key = event_key ev, enc_Value = v\<rparr>)"
proof -
  obtain m where m: "mapEvent ev = Inr m" "m_key m = event_key ev" "m_name m = EventName ev"
    "ce_Type (m_entity m) (EventName ev) = contract_type ev"
    using mapEvent_Inr [of ev] by auto
  let ?e = "wire_event ev eventId stream"
  have "Validate S ?e = None"
    using assms wire_event_required by (simp add: sdk_ok_def)
  moreover have "SetData S (?e\<lparr>ce_datacontenttype := '''', ce_data := JNull\<rparr>) DataContentType (m_data m)
      = Inr ?e"
    using assms by (simp add: sdk_ok_def wire_event_def m)
  ultimately show ?thesis
    by (simp add: encodeFor_def m ce_New_def Let_def wire_event_def split: sum.splits)
qed

lemma encodeFor_decodes:
  assumes "sdk_ok S" "eventId \<noteq> ''''" "encodeFor S ev eventId topic stream = Inr enc"
  shows "ce_Decode text_of S (enc_Value enc) = Inr (wire_event ev eventId stream)"
proof -
  have "MarshalJSON S (wire_event ev eventId stream) = Inr (enc_Value enc)"
    using assms by (auto simp: encodeFor_eq split: if_splits sum.splits)
  then have "UnmarshalJSON S (enc_Value enc) = Inr (wire_event ev eventId stream)"
    using assms(1) by (simp add: sdk_ok_def)
  moreover have "Validate S (wire_event ev eventId stream) = None"
    using assms wire_event_required by (simp add: sdk_ok_def)
  ultimately show ?thesis by (simp add: ce_Decode_def) (simp add: wire_event_def)
qed

lemma FanOut_append:
  "FanOutPublisher_Publish (ps @ qs) ev =
     io_bind (FanOutPublisher_Publish ps ev) (\<lambda>_. FanOutPublisher_Publish qs ev)"
  by (induction ps) (auto simp: io_bind_def split: prod.splits sum.splits intro!: ext)

end
