(* ===== verification/Postgres.thy ===== *)
theory Postgres
  imports Sql Kafka CatalogueHistory
begin

text \<open>
  The Postgres adapters of the catalogue: the column conversions and statements of
  \<open>process_path_repo.go\<close> and \<open>cpt_schedule_repo.go\<close>, the transactional outbox
  (\<open>outbox_publisher.go\<close>) and the unit of work (\<open>unit_of_work.go\<close>), over the tables that
  \<open>migrations/\<close> create, with their \<open>CHECK\<close>, primary and foreign key constraints.
\<close>

section \<open>Tables\<close>

record Interval =
  iv_Microseconds :: "64 word"
  iv_Days :: "32 word"
  iv_Months :: "32 word"
  iv_Valid :: bool

record eligibilityRow =
  er_maxUnits :: "int option"
  er_required :: "string list"
  er_excluded :: "string list"
  er_nonSortable :: bool

record path_row =
  pr_id :: string
  pr_match_prefix :: string
  pr_direct :: bool
  pr_required_capabilities :: "string list"
  pr_role :: "string option"
  pr_cycle_time :: Interval
  pr_eligibility :: eligibilityRow
  pr_status :: string
  pr_created_at :: time
  pr_updated_at :: time

record schedule_row =
  sr_site_id :: string
  sr_timezone :: string
  sr_created_at :: time
  sr_updated_at :: time

record cutoff_row =
  kr_site_id :: string
  kr_cpt_id :: string
  kr_local_time :: string
  kr_days :: "string list"
  kr_ship_method :: string
  kr_path_ids :: "string list"

record outbox_row =
  ob_id :: nat
  ob_event_id :: string
  ob_event_type :: string
  ob_aggregate_id :: string
  ob_payload :: string
  ob_occurred_at :: time
  ob_topic :: string
  ob_published_at :: "time option"
  ob_attempts :: nat
  ob_last_error :: "err option"

record idem_row =
  ik_key :: string
  ik_method :: string
  ik_path :: string
  ik_request_hash :: string
  ik_outcome :: "(int \<times> string \<times> (string \<times> string) list) option"

record oltp =
  t_paths :: "path_row list"
  t_schedules :: "schedule_row list"
  t_cutoffs :: "cutoff_row list"
  t_outbox :: "outbox_row list"
  t_idempotency :: "idem_row list"

definition empty_oltp :: oltp where
  "empty_oltp = \<lparr>t_paths = [], t_schedules = [], t_cutoffs = [], t_outbox = [], t_idempotency = []\<rparr>"

text \<open>
  The surroundings of the adapters: the host and database of \<open>ext\<close>, the faults, the clock, the
  UUID source, the text a \<open>JSONB\<close> column gives back, and the CloudEvents SDK with its encoders.
\<close>

record pg_env =
  v_ext :: ext
  v_faults :: faults
  v_now :: "nat \<Rightarrow> time"
  v_id :: "nat \<Rightarrow> string"
  v_jsonb :: "string \<Rightarrow> string"
  v_encoders :: "Encoder list"

section \<open>Columns (process_path_repo.go)\<close>

definition destinationLocationRoleToColumn :: "DestinationLocationRole \<Rightarrow> string option" where
  "destinationLocationRoleToColumn role = (if role = DestinationLocationRoleUnset then None else Some role)"

definition destinationLocationRoleFromColumn :: "string option \<Rightarrow> DestinationLocationRole" where
  "destinationLocationRoleFromColumn v = (case v of None \<Rightarrow> DestinationLocationRoleUnset | Some r \<Rightarrow> r)"

definition durationToInterval :: "duration \<Rightarrow> Interval" where
  "durationToInterval d = \<lparr>iv_Microseconds = go_div d 1000, iv_Days = 0, iv_Months = 0, iv_Valid = True\<rparr>"

definition intervalToDuration :: "Interval \<Rightarrow> duration" where
  "intervalToDuration iv =
     (if \<not> iv_Valid iv then 0
      else iv_Microseconds iv * 1000
           + scast (iv_Days iv) * 24 * 3600000000000
           + scast (iv_Months iv) * 30 * 24 * 3600000000000)"

definition eligibilityToRow :: "Eligibility \<Rightarrow> eligibilityRow" where
  "eligibilityToRow e = \<lparr>er_maxUnits = maxUnitsPerLine e, er_required = requiredProductAttributes e,
     er_excluded = excludedProductAttributes e, er_nonSortable = nonSortable e\<rparr>"

definition eligibility_toDomain :: "eligibilityRow \<Rightarrow> Eligibility" where
  "eligibility_toDomain r = NewEligibility (er_maxUnits r) (er_required r) (er_excluded r) (er_nonSortable r)"

lemma destinationLocationRole_roundtrip [simp]:
  "destinationLocationRoleFromColumn (destinationLocationRoleToColumn r) = r"
  by (simp add: destinationLocationRoleFromColumn_def destinationLocationRoleToColumn_def)

lemma eligibility_roundtrip [simp]: "eligibility_toDomain (eligibilityToRow e) = e"
  by (simp add: eligibility_toDomain_def eligibilityToRow_def NewEligibility_def)

lemma sint_bounds64: "- (2 ^ 63) \<le> sint (d :: 64 word)" "sint (d :: 64 word) < 2 ^ 63"
  using sint_greater_eq [of d] sint_less [of d] by simp_all

lemma sint_word_of_int64: "- (2 ^ 63) \<le> k \<Longrightarrow> k < 2 ^ 63 \<Longrightarrow> sint (word_of_int k :: 64 word) = k"
  by (simp add: sint_sbintrunc' signed_take_bit_int_eq_self)

lemma stored_cycle:
  "sint (intervalToDuration (durationToInterval d)) = (sint d sdiv 1000) * 1000"
proof -
  have b: "- (2 ^ 63) \<le> (sint d sdiv 1000) * 1000" "(sint d sdiv 1000) * 1000 < 2 ^ 63"
    using sint_bounds64 [of d]
    by (auto simp: signed_divide_int_def sgn_if abs_if; linarith)+
  have "intervalToDuration (durationToInterval d) = word_of_int ((sint d sdiv 1000) * 1000)"
    by (simp add: intervalToDuration_def durationToInterval_def go_div_def wi_hom_mult [symmetric])
  then show ?thesis using sint_word_of_int64 [OF b] by simp
qed
section \<open>process_path_repo.go\<close>

definition path_to_row :: "ProcessPath \<Rightarrow> path_row" where
  "path_to_row p = \<lparr>pr_id = pp_id p, pr_match_prefix = matchPrefix p, pr_direct = direct p,
     pr_required_capabilities = requiredCapabilities p,
     pr_role = destinationLocationRoleToColumn (destinationLocationRole p),
     pr_cycle_time = durationToInterval (cycleTimeP95 p),
     pr_eligibility = eligibilityToRow (eligibility p), pr_status = status p,
     pr_created_at = createdAt p, pr_updated_at = updatedAt p\<rparr>"

text \<open>A \<open>TIMESTAMPTZ\<close> column rounds what it is given.\<close>

definition stored_times :: "ext \<Rightarrow> path_row \<Rightarrow> path_row" where
  "stored_times E r = r\<lparr>pr_created_at := stored_time E (pr_created_at r),
     pr_updated_at := stored_time E (pr_updated_at r)\<rparr>"

definition path_conflict :: "path_row \<Rightarrow> path_row \<Rightarrow> path_row" where
  "path_conflict old new = old\<lparr>pr_match_prefix := pr_match_prefix new,
     pr_required_capabilities := pr_required_capabilities new, pr_cycle_time := pr_cycle_time new,
     pr_eligibility := pr_eligibility new, pr_status := pr_status new,
     pr_updated_at := pr_updated_at new\<rparr>"

definition path_check :: "path_row \<Rightarrow> bool" where
  "path_check r \<longleftrightarrow> (pr_status r = ''ACTIVE'' \<or> pr_status r = ''DEACTIVATED'')
     \<and> (case pr_role r of None \<Rightarrow> True | Some x \<Rightarrow> x \<in> {''Drop'', ''WorkCenter'', ''Shipping''})"

definition save_path_stmt :: "ext \<Rightarrow> path_row \<Rightarrow> (oltp, unit) stmt" where
  "save_path_stmt E r db =
     (if \<not> path_check r then Inl (PlainErr ''violates check constraint'')
      else Inr ((), db\<lparr>t_paths := upsert pr_id path_conflict (stored_times E r) (t_paths db)\<rparr>))"

definition scanProcessPath :: "path_row \<Rightarrow> ProcessPath" where
  "scanProcessPath r = Rehydrate (pr_id r) (pr_match_prefix r) (pr_direct r)
     (pr_required_capabilities r) (destinationLocationRoleFromColumn (pr_role r))
     (intervalToDuration (pr_cycle_time r)) (eligibility_toDomain (pr_eligibility r))
     (pr_status r) (pr_created_at r) (pr_updated_at r)"

definition pg_Save :: "pg_env \<Rightarrow> ctx \<Rightarrow> ProcessPath \<Rightarrow> (oltp pg, unit) io" where
  "pg_Save V c p = sql_exec (v_faults V) c (save_path_stmt (v_ext V) (path_to_row p))"

definition pg_FindByID :: "pg_env \<Rightarrow> ctx \<Rightarrow> PathId \<Rightarrow> (oltp pg, ProcessPath option) io" where
  "pg_FindByID V c i = sql_exec (v_faults V) c
     (\<lambda>db. Inr (map_option scanProcessPath (select pr_id i (t_paths db)), db))"

text \<open>\<open>ORDER BY id\<close> sorts by the collation of the database.\<close>

definition pg_list :: "pg_env \<Rightarrow> ctx \<Rightarrow> (path_row \<Rightarrow> bool) \<Rightarrow> (oltp pg, ProcessPath list) io" where
  "pg_list V c cond = sql_exec (v_faults V) c
     (\<lambda>db. Inr (map scanProcessPath
        (sort_key (\<lambda>r. collation_key (v_ext V) (pr_id r)) (filter cond (t_paths db))), db))"

definition pg_ListActive :: "pg_env \<Rightarrow> ctx \<Rightarrow> (oltp pg, ProcessPath list) io" where
  "pg_ListActive V c = pg_list V c (\<lambda>r. pr_status r = ''ACTIVE'')"

definition pg_ListAll :: "pg_env \<Rightarrow> ctx \<Rightarrow> (oltp pg, ProcessPath list) io" where
  "pg_ListAll V c = pg_list V c (\<lambda>_. True)"

definition pg_repo :: "pg_env \<Rightarrow> oltp pg ProcessPathRepo" where
  "pg_repo V = \<lparr>repo_Save = pg_Save V, repo_FindByID = pg_FindByID V,
     repo_ListActive = pg_ListActive V, repo_ListAll = pg_ListAll V\<rparr>"

section \<open>cpt_schedule_repo.go\<close>

definition schedule_conflict :: "schedule_row \<Rightarrow> schedule_row \<Rightarrow> schedule_row" where
  "schedule_conflict old new = old\<lparr>sr_timezone := sr_timezone new, sr_updated_at := sr_updated_at new\<rparr>"

definition save_schedule_stmt :: "ext \<Rightarrow> CPTSchedule \<Rightarrow> (oltp, unit) stmt" where
  "save_schedule_stmt E s db = Inr ((), db\<lparr>t_schedules :=
     upsert sr_site_id schedule_conflict
       \<lparr>sr_site_id = cs_siteId s, sr_timezone = cs_timezone s,
        sr_created_at = stored_time E (cs_createdAt s), sr_updated_at = stored_time E (cs_updatedAt s)\<rparr>
       (t_schedules db)\<rparr>)"

definition delete_cutoffs_stmt :: "SiteId \<Rightarrow> (oltp, unit) stmt" where
  "delete_cutoffs_stmt site db =
     Inr ((), db\<lparr>t_cutoffs := filter (\<lambda>r. kr_site_id r \<noteq> site) (t_cutoffs db)\<rparr>)"

definition cutoff_to_row :: "SiteId \<Rightarrow> Cutoff \<Rightarrow> cutoff_row" where
  "cutoff_to_row site c = \<lparr>kr_site_id = site, kr_cpt_id = cptId c, kr_local_time = localTime c,
     kr_days = daysOfWeek c, kr_ship_method = shipMethod c, kr_path_ids = eligiblePathIds c\<rparr>"

definition insert_cutoff_stmt :: "cutoff_row \<Rightarrow> (oltp, unit) stmt" where
  "insert_cutoff_stmt r db =
     (if select (\<lambda>r. (kr_site_id r, kr_cpt_id r)) (kr_site_id r, kr_cpt_id r) (t_cutoffs db) \<noteq> None
      then Inl (PlainErr ''duplicate key value violates unique constraint'')
      else if select sr_site_id (kr_site_id r) (t_schedules db) = None
      then Inl (PlainErr ''violates foreign key constraint'')
      else Inr ((), db\<lparr>t_cutoffs := t_cutoffs db @ [r]\<rparr>))"

fun insert_cutoffs :: "pg_env \<Rightarrow> ctx \<Rightarrow> cutoff_row list \<Rightarrow> (oltp pg, unit) io" where
  "insert_cutoffs V c [] = (\<lambda>w. (Inr (), w))"
| "insert_cutoffs V c (r # rs) =
     io_bind (sql_exec (v_faults V) c (insert_cutoff_stmt r)) (\<lambda>_. insert_cutoffs V c rs)"

definition pg_sched_Save :: "pg_env \<Rightarrow> ctx \<Rightarrow> CPTSchedule \<Rightarrow> (oltp pg, unit) io" where
  "pg_sched_Save V c s =
     io_bind (sql_exec (v_faults V) c (save_schedule_stmt (v_ext V) s)) (\<lambda>_.
     io_bind (sql_exec (v_faults V) c (delete_cutoffs_stmt (cs_siteId s))) (\<lambda>_.
     insert_cutoffs V c (map (cutoff_to_row (cs_siteId s)) (cs_cutoffs s))))"

fun scan_cutoffs :: "cutoff_row list \<Rightarrow> err + Cutoff list" where
  "scan_cutoffs [] = Inr []"
| "scan_cutoffs (r # rs) =
     (case NewCutoff (kr_cpt_id r) (kr_local_time r) (kr_days r) (kr_ship_method r) (kr_path_ids r) of
        Inl e \<Rightarrow> Inl e
      | Inr c \<Rightarrow> (case scan_cutoffs rs of Inl e \<Rightarrow> Inl e | Inr cs \<Rightarrow> Inr (c # cs)))"

definition cutoffs_query :: "ext \<Rightarrow> SiteId \<Rightarrow> oltp \<Rightarrow> cutoff_row list" where
  "cutoffs_query E site db =
     sort_key (\<lambda>r. collation_key E (kr_cpt_id r)) (filter (\<lambda>r. kr_site_id r = site) (t_cutoffs db))"

definition pg_FindBySiteID :: "pg_env \<Rightarrow> ctx \<Rightarrow> SiteId \<Rightarrow> (oltp pg, CPTSchedule option) io" where
  "pg_FindBySiteID V c site =
     io_bind (sql_exec (v_faults V) c (\<lambda>db. Inr (select sr_site_id site (t_schedules db), db))) (\<lambda>row.
       case row of
         None \<Rightarrow> io_return None
       | Some r \<Rightarrow>
           io_bind (sql_exec (v_faults V) c (\<lambda>db. Inr (cutoffs_query (v_ext V) site db, db))) (\<lambda>rows.
             case scan_cutoffs rows of
               Inl e \<Rightarrow> io_fail e
             | Inr cs \<Rightarrow> io_return (Some
                 (cpt_Rehydrate site (sr_timezone r) cs (sr_created_at r) (sr_updated_at r)))))"

definition pg_schedule_repo :: "pg_env \<Rightarrow> oltp pg CPTScheduleRepo" where
  "pg_schedule_repo V = \<lparr>sched_Save = pg_sched_Save V, sched_FindBySiteID = pg_FindBySiteID V\<rparr>"

section \<open>outbox_publisher.go\<close>

text \<open>\<open>BIGSERIAL\<close>: a strictly increasing sequence with gaps, here the number of calls so far.\<close>

definition enqueue_stmt :: "ext \<Rightarrow> nat \<Rightarrow> (string \<Rightarrow> string) \<Rightarrow> Encoded \<Rightarrow> time \<Rightarrow> (oltp, unit) stmt" where
  "enqueue_stmt E serial jsonb enc at db = Inr ((), db\<lparr>t_outbox := snd (insert_ignore
     (\<lambda>r. (ob_event_id r, ob_topic r))
     \<lparr>ob_id = serial, ob_event_id = enc_EventId enc, ob_event_type = enc_EventType enc,
      ob_aggregate_id = enc_Key enc, ob_payload = jsonb (enc_Value enc),
      ob_occurred_at = stored_time E at, ob_topic = enc_Topic enc, ob_published_at = None,
      ob_attempts = 0, ob_last_error = None\<rparr>
     (t_outbox db))\<rparr>)"

definition enqueue :: "pg_env \<Rightarrow> ctx \<Rightarrow> Encoded \<Rightarrow> time \<Rightarrow> (oltp pg, unit) io" where
  "enqueue V c enc at = (\<lambda>w.
     case sql_exec (v_faults V) c (enqueue_stmt (v_ext V) (calls w) (v_jsonb V) enc at) w of
       (Inl e, w') \<Rightarrow> (Inl (WrapErr (''postgres: enqueue outbox event '' @ enc_EventType enc
                              @ '' for '' @ enc_Topic enc) e), w')
     | (Inr _, w') \<Rightarrow> (Inr (), w'))"

fun enqueue_all :: "pg_env \<Rightarrow> ctx \<Rightarrow> DomainEvent \<Rightarrow> string \<Rightarrow> Encoder list \<Rightarrow> (oltp pg, unit) io" where
  "enqueue_all V c ev eventId [] = (\<lambda>w. (Inr (), w))"
| "enqueue_all V c ev eventId (enc # encs) =
     (case enc ev eventId of
        Inl e \<Rightarrow> io_fail e
      | Inr encoded \<Rightarrow>
          io_bind (enqueue V c encoded (OccurredAt ev)) (\<lambda>_. enqueue_all V c ev eventId encs))"

definition OutboxPublisher_Publish :: "pg_env \<Rightarrow> oltp pg EventPublisher" where
  "OutboxPublisher_Publish V c ev = (\<lambda>w.
     enqueue_all V c ev (v_id V (ids w)) (v_encoders V) (w\<lparr>ids := Suc (ids w)\<rparr>))"

text \<open>What a stored row will be sent as.\<close>

definition row_encoded :: "outbox_row \<Rightarrow> Encoded" where
  "row_encoded r = \<lparr>enc_Topic = ob_topic r, enc_EventId = ob_event_id r, enc_EventType = ob_event_type r,
     enc_Key = ob_aggregate_id r, enc_Value = ob_payload r\<rparr>"

definition outbox_key :: "outbox_row \<Rightarrow> string \<times> string" where
  "outbox_key r = (ob_event_id r, ob_topic r)"

section \<open>unit_of_work.go\<close>

definition rollback_joined :: "pg_env \<Rightarrow> err \<Rightarrow> (oltp pg, unit) io" where
  "rollback_joined V e = (\<lambda>w.
     case tx_Rollback (v_faults V) w of
       (Inl rb, w') \<Rightarrow>
         if errors_Is rb ErrTxClosed then (Inl e, w')
         else (Inl (JoinErr e (WrapErr ''postgres: rollback unit of work'' rb)), w')
     | (Inr _, w') \<Rightarrow> (Inl e, w'))"

definition UnitOfWork_Execute :: "pg_env \<Rightarrow> oltp pg UnitOfWork" where
  "UnitOfWork_Execute V c fn =
     (case c of
        WithTx \<Rightarrow> fn WithTx
      | Background \<Rightarrow> (\<lambda>w.
          case pool_Begin (v_faults V) w of
            (Inl e, w1) \<Rightarrow> (Inl (WrapErr ''postgres: begin unit of work'' e), w1)
          | (Inr _, w1) \<Rightarrow>
              (case fn WithTx w1 of
                 (Inl e, w2) \<Rightarrow> rollback_joined V e w2
               | (Inr _, w2) \<Rightarrow>
                   (case tx_Commit (v_faults V) w2 of
                      (Inl e, w3) \<Rightarrow> rollback_joined V (WrapErr ''postgres: commit unit of work'' e) w3
                    | (Inr _, w3) \<Rightarrow> (Inr (), w3)))))"

section \<open>The composition root's wiring\<close>

definition pg_clock :: "pg_env \<Rightarrow> oltp pg Clock" where
  "pg_clock V w = (v_now V (ticks w), w\<lparr>ticks := Suc (ticks w)\<rparr>)"

definition pg_count :: "string \<Rightarrow> 'db pg \<Rightarrow> 'db pg" where
  "pg_count outcome w = w\<lparr>counter := (counter w)(outcome := counter w outcome + 1)\<rparr>"

definition pg_metrics :: "oltp pg PathMetrics" where
  "pg_metrics = \<lparr>PathDefinitionAccepted = (\<lambda>_. pg_count ''accepted''),
     PathDefinitionRejected = (\<lambda>_. pg_count ''rejected'')\<rparr>"

definition pg_deps :: "pg_env \<Rightarrow> oltp pg Deps" where
  "pg_deps V = \<lparr>Repo = pg_repo V, ScheduleRepo = pg_schedule_repo V,
     Publisher = OutboxPublisher_Publish V, Clock = pg_clock V, UoW = Some (UnitOfWork_Execute V),
     Metrics = Some pg_metrics\<rparr>"

definition pg_init :: "oltp pg" where
  "pg_init = \<lparr>committed = empty_oltp, open_tx = None, calls = 0, ids = 0, ticks = 0,
     counter = (\<lambda>_. 0)\<rparr>"

end
