(* ===== verification/PostgresRefine.thy ===== *)
theory PostgresRefine
  imports Postgres
begin

text \<open>
  The Postgres adapters implement the catalogue: \<open>pg_view\<close> is the abstraction function, \<open>pg_sp\<close> and
  \<open>pg_ss\<close> say what the tables keep of a saved aggregate, \<open>pg_inv\<close> is the invariant behind the
  outbox's \<open>ON CONFLICT (event_id, topic) DO NOTHING\<close> (it never drops a message, because every
  event id in the table was minted before). The locales of the application are interpreted here.
\<close>

section \<open>The abstraction\<close>

type_synonym outbox_msg = "string \<times> string \<times> string \<times> string \<times> string \<times> time"

definition outbox_msg :: "outbox_row \<Rightarrow> outbox_msg" where
  "outbox_msg r = (ob_topic r, ob_event_id r, ob_event_type r, ob_aggregate_id r, ob_payload r,
     ob_occurred_at r)"

definition cutoff_of_row :: "cutoff_row \<Rightarrow> Cutoff" where
  "cutoff_of_row r = \<lparr>cptId = kr_cpt_id r, localTime = kr_local_time r, daysOfWeek = kr_days r,
     shipMethod = kr_ship_method r, eligiblePathIds = kr_path_ids r\<rparr>"

definition schedule_of_row :: "ext \<Rightarrow> oltp \<Rightarrow> schedule_row \<Rightarrow> CPTSchedule" where
  "schedule_of_row E db r = cpt_Rehydrate (sr_site_id r) (sr_timezone r)
     (map cutoff_of_row (cutoffs_query E (sr_site_id r) db)) (sr_created_at r) (sr_updated_at r)"

definition oltp_view :: "ext \<Rightarrow> oltp \<Rightarrow> outbox_msg catalogue" where
  "oltp_view E db = \<lparr>cat_paths = (\<lambda>i. map_option scanProcessPath (select pr_id i (t_paths db))),
     cat_schedules = (\<lambda>site. map_option (schedule_of_row E db) (select sr_site_id site (t_schedules db))),
     cat_msgs = map outbox_msg (t_outbox db)\<rparr>"

definition pg_view :: "pg_env \<Rightarrow> ctx \<Rightarrow> oltp pg \<Rightarrow> outbox_msg catalogue" where
  "pg_view V c w = oltp_view (v_ext V) (seen c w)"

definition pg_sp :: "ext \<Rightarrow> ProcessPath option \<Rightarrow> ProcessPath \<Rightarrow> ProcessPath" where
  "pg_sp E old p = p\<lparr>cycleTimeP95 := intervalToDuration (durationToInterval (cycleTimeP95 p)),
     direct := (case old of None \<Rightarrow> direct p | Some q \<Rightarrow> direct q),
     destinationLocationRole := (case old of None \<Rightarrow> destinationLocationRole p
                                 | Some q \<Rightarrow> destinationLocationRole q),
     createdAt := (case old of None \<Rightarrow> stored_time E (createdAt p) | Some q \<Rightarrow> createdAt q),
     updatedAt := stored_time E (updatedAt p)\<rparr>"

definition pg_ss :: "ext \<Rightarrow> CPTSchedule option \<Rightarrow> CPTSchedule \<Rightarrow> CPTSchedule" where
  "pg_ss E old s = s\<lparr>cs_cutoffs := sort_key (\<lambda>c. collation_key E (cptId c)) (cs_cutoffs s),
     cs_createdAt := (case old of None \<Rightarrow> stored_time E (cs_createdAt s) | Some q \<Rightarrow> cs_createdAt q),
     cs_updatedAt := stored_time E (cs_updatedAt s)\<rparr>"

definition encoded_msg :: "pg_env \<Rightarrow> DomainEvent \<Rightarrow> Encoded \<Rightarrow> outbox_msg" where
  "encoded_msg V ev x = (enc_Topic x, enc_EventId x, enc_EventType x, enc_Key x,
     v_jsonb V (enc_Value x), stored_time (v_ext V) (OccurredAt ev))"

text \<open>One message per encoder, all with one event id.\<close>

definition outbox_emit :: "pg_env \<Rightarrow> DomainEvent \<Rightarrow> outbox_msg list \<Rightarrow> bool" where
  "outbox_emit V ev ms \<longleftrightarrow> (\<exists>i. list_all2 (\<lambda>enc m. \<exists>x. enc ev i = Inr x \<and> enc_EventId x = i
     \<and> m = encoded_msg V ev x) (v_encoders V) ms)"

definition encoders_ok :: "Encoder list \<Rightarrow> string list \<Rightarrow> bool" where
  "encoders_ok encs topics \<longleftrightarrow> distinct topics \<and> list_all2 (\<lambda>enc t. \<forall>ev i x. enc ev i = Inr x \<longrightarrow>
     enc_EventId x = i \<and> enc_Topic x = t) encs topics"

definition ids_used :: "pg_env \<Rightarrow> nat \<Rightarrow> oltp \<Rightarrow> bool" where
  "ids_used V n db \<longleftrightarrow> (\<forall>r \<in> set (t_outbox db). \<exists>k < n. ob_event_id r = v_id V k)"

text \<open>
  What the statements keep of the outbox: event ids were minted before, serials increase in the
  order of insertion and are below the next one, the unique key holds, and since the rows
  satisfied \<open>Q\<close> only unpublished ones were appended.
\<close>

definition serials_ok :: "nat \<Rightarrow> oltp \<Rightarrow> bool" where
  "serials_ok n db \<longleftrightarrow> sorted_wrt (<) (map ob_id (t_outbox db)) \<and> (\<forall>r \<in> set (t_outbox db). ob_id r < n)
     \<and> distinct (map outbox_key (t_outbox db))"

definition appended :: "(outbox_row list \<Rightarrow> bool) \<Rightarrow> oltp \<Rightarrow> bool" where
  "appended Q db \<longleftrightarrow> (\<exists>base rows. t_outbox db = base @ rows \<and> Q base
     \<and> (\<forall>r \<in> set rows. ob_published_at r = None))"

lemma appended_self: "Q (t_outbox db) \<Longrightarrow> appended Q db"
  unfolding appended_def by (intro exI [of _ "t_outbox db"] exI [of _ "[]"]) simp

lemma appended_append:
  assumes "appended Q db" "ob_published_at r = None"
  shows "appended Q (db\<lparr>t_outbox := t_outbox db @ [r]\<rparr>)"
proof -
  obtain base rows where "t_outbox db = base @ rows" "Q base" "\<forall>r \<in> set rows. ob_published_at r = None"
    using assms(1) by (auto simp: appended_def)
  then show ?thesis using assms(2)
    unfolding appended_def by (intro exI [of _ base] exI [of _ "rows @ [r]"]) auto
qed

definition outbox_ok :: "pg_env \<Rightarrow> (outbox_row list \<Rightarrow> bool) \<Rightarrow> nat \<Rightarrow> nat \<Rightarrow> oltp \<Rightarrow> bool" where
  "outbox_ok V Q n k db \<longleftrightarrow> ids_used V n db \<and> serials_ok k db \<and> appended Q db"

definition pg_keeps :: "pg_env \<Rightarrow> (outbox_row list \<Rightarrow> bool) \<Rightarrow> oltp pg \<Rightarrow> bool" where
  "pg_keeps V Q w \<longleftrightarrow> inj (v_id V) \<and> (\<exists>topics. encoders_ok (v_encoders V) topics)
     \<and> both (outbox_ok V Q (ids w) (calls w)) w"

abbreviation pg_inv :: "pg_env \<Rightarrow> oltp pg \<Rightarrow> bool" where
  "pg_inv V \<equiv> pg_keeps V (\<lambda>_. True)"

lemma outbox_ok_cong: "t_outbox db' = t_outbox db \<Longrightarrow> outbox_ok V Q n k db' = outbox_ok V Q n k db"
  by (simp add: outbox_ok_def ids_used_def serials_ok_def appended_def)

lemma outbox_ok_mono: "outbox_ok V Q n k db \<Longrightarrow> n \<le> n' \<Longrightarrow> k \<le> k' \<Longrightarrow> outbox_ok V Q n' k' db"
  by (force simp: outbox_ok_def ids_used_def serials_ok_def)

lemma outbox_ok_append:
  assumes "outbox_ok V Q n k db" "ob_id r = k" "ob_published_at r = None" "j < n"
    "ob_event_id r = v_id V j" "outbox_key r \<notin> outbox_key ` set (t_outbox db)"
  shows "outbox_ok V Q n (Suc k) (db\<lparr>t_outbox := t_outbox db @ [r]\<rparr>)"
proof -
  have "serials_ok (Suc k) (db\<lparr>t_outbox := t_outbox db @ [r]\<rparr>)"
    using assms by (force simp: outbox_ok_def serials_ok_def sorted_wrt_append)
  moreover have "appended Q (db\<lparr>t_outbox := t_outbox db @ [r]\<rparr>)"
    using assms by (auto simp: outbox_ok_def intro: appended_append)
  ultimately show ?thesis using assms by (auto simp: outbox_ok_def ids_used_def)
qed

lemma both_mono: "both P w \<Longrightarrow> (\<And>db. P db \<Longrightarrow> Q db) \<Longrightarrow> both Q w"
  by (auto simp: both_def)

section \<open>Paths\<close>

lemma oltp_view_sel [simp]:
  "cat_paths (oltp_view E db) i = map_option scanProcessPath (select pr_id i (t_paths db))"
  "cat_schedules (oltp_view E db) site
     = map_option (schedule_of_row E db) (select sr_site_id site (t_schedules db))"
  "cat_msgs (oltp_view E db) = map outbox_msg (t_outbox db)"
  by (simp_all add: oltp_view_def)

lemma scan_saved:
  "scanProcessPath (stored_times E (path_to_row p)) = pg_sp E None p"
  by (simp add: scanProcessPath_def stored_times_def path_to_row_def pg_sp_def Rehydrate_def)

lemma scan_conflict:
  "pr_id r = pp_id p \<Longrightarrow> scanProcessPath (path_conflict r (stored_times E (path_to_row p)))
     = pg_sp E (Some (scanProcessPath r)) p"
  by (simp add: scanProcessPath_def stored_times_def path_to_row_def pg_sp_def Rehydrate_def
      path_conflict_def)

lemma path_keys [simp]: "pr_id (path_conflict a b) = pr_id a" "pr_id (stored_times E r) = pr_id r"
    "pr_id (path_to_row p) = pp_id p"
  by (simp_all add: path_conflict_def stored_times_def path_to_row_def)

lemma select_upsert_path:
  "select pr_id i (upsert pr_id path_conflict new rs) =
    (if i = pr_id new then Some (case select pr_id i rs of None \<Rightarrow> new | Some r \<Rightarrow> path_conflict r new)
     else select pr_id i rs)"
  by (induction rs) (auto simp: select_def path_conflict_def)

lemma catalogue_eqI:
  "cat_paths C = cat_paths C' \<Longrightarrow> cat_schedules C = cat_schedules C' \<Longrightarrow> cat_msgs C = cat_msgs C'
   \<Longrightarrow> C = (C' :: 'm catalogue)"
  by simp

lemma view_save_path:
  assumes "save_path_stmt E (path_to_row p) db = Inr (u, db')"
  shows "oltp_view E db' = put_path (pg_sp E) p (oltp_view E db)"
proof -
  have db': "db' = db\<lparr>t_paths := upsert pr_id path_conflict (stored_times E (path_to_row p)) (t_paths db)\<rparr>"
    using assms by (auto simp: save_path_stmt_def split: if_splits)
  show ?thesis
  proof (rule catalogue_eqI)
    show "cat_paths (oltp_view E db') = cat_paths (put_path (pg_sp E) p (oltp_view E db))"
    proof
      fix i
      show "cat_paths (oltp_view E db') i = cat_paths (put_path (pg_sp E) p (oltp_view E db)) i"
        using select_Some_key [of pr_id i "t_paths db"]
        by (cases "select pr_id i (t_paths db)")
          (auto simp: db' put_path_paths select_upsert_path scan_saved scan_conflict)
    qed
    show "cat_schedules (oltp_view E db') = cat_schedules (put_path (pg_sp E) p (oltp_view E db))"
      by (rule ext) (simp add: db' schedule_of_row_def [abs_def] cutoffs_query_def)
  qed (simp add: db')
qed

lemma pg_find_path:
  assumes "pg_FindByID V c i w = (Inr r, w')"
  shows "r = cat_paths (pg_view V c w) i \<and> pg_view V c w' = pg_view V c w"
  using sql_exec_Inr [OF assms [unfolded pg_FindByID_def]] by (auto simp: pg_view_def)

lemma read_keeps:
  assumes "sql_exec F c (\<lambda>db. Inr (f db, db)) w = (r, w')"
  shows "seen c w' = seen c w"
proof (cases r)
  case (Inl e)
  then show ?thesis using sql_exec_Inl_db [OF assms [unfolded Inl]] by auto
next
  case (Inr a)
  then show ?thesis using sql_exec_Inr [OF assms [unfolded Inr]] by auto
qed

lemma pg_save_path:
  assumes "pg_Save V c p w = (Inr u, w')"
  shows "pg_view V c w' = put_path (pg_sp (v_ext V)) p (pg_view V c w)"
  using sql_exec_Inr [OF assms [unfolded pg_Save_def]] by (auto simp: pg_view_def view_save_path)

section \<open>Schedules\<close>

lemma cutoff_row_roundtrip [simp]: "cutoff_of_row (cutoff_to_row site c) = c"
  by (simp add: cutoff_of_row_def cutoff_to_row_def)

lemma scan_cutoffs_Inr: "scan_cutoffs rs = Inr cs \<Longrightarrow> cs = map cutoff_of_row rs"
  by (induction rs arbitrary: cs)
    (auto simp: cutoff_of_row_def NewCutoff_Inr_iff split: sum.splits)

lemma sql_exec_InrD:
  "sql_exec F c st w = (Inr a, w') \<Longrightarrow> st (seen c w) = Inr (a, seen c w')"
  using sql_exec_Inr by metis

lemma insert_cutoffs_Inr:
  assumes "insert_cutoffs V c rs w = (Inr u, w')"
  shows "seen c w' = (seen c w)\<lparr>t_cutoffs := t_cutoffs (seen c w) @ rs\<rparr>"
  using assms
proof (induction rs arbitrary: w)
  case (Cons r rs)
  obtain v w1 where a: "sql_exec (v_faults V) c (insert_cutoff_stmt r) w = (Inr v, w1)"
    and b: "insert_cutoffs V c rs w1 = (Inr u, w')"
    using Cons.prems by (auto simp: io_bind_eq_Inr)
  have "seen c w1 = (seen c w)\<lparr>t_cutoffs := t_cutoffs (seen c w) @ [r]\<rparr>"
    using sql_exec_InrD [OF a] by (auto simp: insert_cutoff_stmt_def split: if_splits)
  then show ?case using Cons.IH [OF b] by simp
qed simp

lemma filter_sort_key: "filter P (sort_key f xs) = sort_key f (filter P xs)"
  by (rule filter_sort)

lemma sort_key_map: "sort_key f (map g xs) = map g (sort_key (\<lambda>x. f (g x)) xs)"
proof -
  have ins: "insort_key f (g x) (map g ys) = map g (insort_key (\<lambda>x. f (g x)) x ys)" for x ys
    by (induction ys) auto
  show ?thesis by (induction xs) (auto simp: ins comp_def)
qed

lemma cutoffs_of_saved:
  assumes "t_cutoffs db' = filter (\<lambda>r. kr_site_id r \<noteq> site) rs @ map (cutoff_to_row site) cs"
  shows "map cutoff_of_row (cutoffs_query E site db') = sort_key (\<lambda>c. collation_key E (cptId c)) cs"
    and "site' \<noteq> site \<Longrightarrow> cutoffs_query E site' db'
      = sort_key (\<lambda>r. collation_key E (kr_cpt_id r)) (filter (\<lambda>r. kr_site_id r = site') rs)"
proof -
  have f: "filter (\<lambda>r. kr_site_id r = site) (t_cutoffs db') = map (cutoff_to_row site) cs"
    by (simp add: assms filter_map comp_def cutoff_to_row_def)
  have k: "kr_cpt_id (cutoff_to_row site c) = cptId c" for c
    by (simp add: cutoff_to_row_def)
  show "map cutoff_of_row (cutoffs_query E site db') = sort_key (\<lambda>c. collation_key E (cptId c)) cs"
    by (simp add: cutoffs_query_def f sort_key_map k comp_def map_idI)
  show "site' \<noteq> site \<Longrightarrow> cutoffs_query E site' db'
      = sort_key (\<lambda>r. collation_key E (kr_cpt_id r)) (filter (\<lambda>r. kr_site_id r = site') rs)"
    by (simp add: cutoffs_query_def assms filter_map comp_def cutoff_to_row_def)
      (metis (mono_tags, lifting) filter_cong)
qed

definition saved_schedule_row :: "ext \<Rightarrow> CPTSchedule \<Rightarrow> schedule_row" where
  "saved_schedule_row E s = \<lparr>sr_site_id = cs_siteId s, sr_timezone = cs_timezone s,
     sr_created_at = stored_time E (cs_createdAt s), sr_updated_at = stored_time E (cs_updatedAt s)\<rparr>"

lemma schedule_keys [simp]: "sr_site_id (schedule_conflict a b) = sr_site_id a"
    "sr_timezone (schedule_conflict a b) = sr_timezone b"
    "sr_created_at (schedule_conflict a b) = sr_created_at a"
    "sr_updated_at (schedule_conflict a b) = sr_updated_at b"
    "sr_site_id (saved_schedule_row E s) = cs_siteId s"
    "sr_timezone (saved_schedule_row E s) = cs_timezone s"
    "sr_created_at (saved_schedule_row E s) = stored_time E (cs_createdAt s)"
    "sr_updated_at (saved_schedule_row E s) = stored_time E (cs_updatedAt s)"
  by (simp_all add: schedule_conflict_def saved_schedule_row_def)

lemma select_upsert_schedule:
  "select sr_site_id i (upsert sr_site_id schedule_conflict new rs) =
    (if i = sr_site_id new
     then Some (case select sr_site_id i rs of None \<Rightarrow> new | Some r \<Rightarrow> schedule_conflict r new)
     else select sr_site_id i rs)"
  by (induction rs) (auto simp: select_def schedule_conflict_def)

lemma pg_save_schedule:
  assumes "pg_sched_Save V c s w = (Inr u, w')"
  shows "pg_view V c w' = put_schedule (pg_ss (v_ext V)) s (pg_view V c w)"
proof -
  let ?E = "v_ext V" and ?site = "cs_siteId s" and ?db = "seen c w"
  obtain w1 w2 where a: "sql_exec (v_faults V) c (save_schedule_stmt ?E s) w = (Inr (), w1)"
    and b: "sql_exec (v_faults V) c (delete_cutoffs_stmt ?site) w1 = (Inr (), w2)"
    and d: "insert_cutoffs V c (map (cutoff_to_row ?site) (cs_cutoffs s)) w2 = (Inr u, w')"
    using assms by (auto simp: pg_sched_Save_def io_bind_eq_Inr)
  let ?db' = "seen c w'"
  have db': "?db' = ?db\<lparr>t_schedules := upsert sr_site_id schedule_conflict
       (saved_schedule_row ?E s) (t_schedules ?db),
     t_cutoffs := filter (\<lambda>r. kr_site_id r \<noteq> ?site) (t_cutoffs ?db)
       @ map (cutoff_to_row ?site) (cs_cutoffs s)\<rparr>"
    using sql_exec_InrD [OF a, symmetric] sql_exec_InrD [OF b, symmetric] insert_cutoffs_Inr [OF d]
    by (simp add: save_schedule_stmt_def delete_cutoffs_stmt_def saved_schedule_row_def)
  have tc: "t_cutoffs ?db' = filter (\<lambda>r. kr_site_id r \<noteq> ?site) (t_cutoffs ?db)
       @ map (cutoff_to_row ?site) (cs_cutoffs s)"
    and ts: "t_schedules ?db' = upsert sr_site_id schedule_conflict (saved_schedule_row ?E s)
       (t_schedules ?db)" by (simp_all add: db')
  note q = cutoffs_of_saved [where E = ?E, OF tc]
  have "cat_schedules (oltp_view ?E ?db') site
      = cat_schedules (put_schedule (pg_ss ?E) s (oltp_view ?E ?db)) site" for site
  proof (cases "site = ?site")
    case True
    then show ?thesis using select_Some_key [of sr_site_id ?site "t_schedules ?db"]
      by (cases "select sr_site_id ?site (t_schedules ?db)")
        (auto simp: put_schedule_schedules ts select_upsert_schedule schedule_of_row_def q(1)
          cpt_Rehydrate_def pg_ss_def)
  next
    case False
    then show ?thesis using select_Some_key [of sr_site_id site "t_schedules ?db"]
      by (cases "select sr_site_id site (t_schedules ?db)")
        (auto simp: put_schedule_schedules ts select_upsert_schedule schedule_of_row_def
          cutoffs_query_def [of ?E _ ?db] q(2))
  qed
  then have "oltp_view ?E ?db' = put_schedule (pg_ss ?E) s (oltp_view ?E ?db)"
    by (intro catalogue_eqI) (auto simp: fun_eq_iff db')
  then show ?thesis by (simp add: pg_view_def)
qed

lemma pg_FindBySiteID_seen:
  assumes "pg_FindBySiteID V c site w = (r, w')"
  shows "seen c w' = seen c w"
proof -
  let ?P = "\<lambda>x. seen c x = seen c w"
  have "?P (snd (pg_FindBySiteID V c site w))"
    unfolding pg_FindBySiteID_def
    by (rule io_bind_keeps [where P = ?P])
      (auto simp: read_keeps [OF prod.collapse [symmetric]] split: option.splits sum.splits
        intro!: io_bind_keeps [where P = ?P])
  then show ?thesis using assms by simp
qed

lemma pg_find_schedule:
  assumes "pg_FindBySiteID V c site w = (Inr r, w')"
  shows "r = cat_schedules (pg_view V c w) site \<and> pg_view V c w' = pg_view V c w"
proof -
  obtain row w1 where a: "sql_exec (v_faults V) c
      (\<lambda>db. Inr (select sr_site_id site (t_schedules db), db)) w = (Inr row, w1)"
    using assms by (auto simp: pg_FindBySiteID_def io_bind_eq_Inr)
  have row: "row = select sr_site_id site (t_schedules (seen c w))" "seen c w1 = seen c w"
    using sql_exec_InrD [OF a] by auto
  have "r = cat_schedules (pg_view V c w) site"
  proof (cases row)
    case None
    then show ?thesis
      using assms a row by (simp add: pg_FindBySiteID_def io_bind_def pg_view_def)
  next
    case (Some x)
    then obtain rows w2 where b: "sql_exec (v_faults V) c
        (\<lambda>db. Inr (cutoffs_query (v_ext V) site db, db)) w1 = (Inr rows, w2)"
      and k: "(case scan_cutoffs rows of Inl e \<Rightarrow> io_fail e | Inr cs \<Rightarrow> io_return (Some
                (cpt_Rehydrate site (sr_timezone x) cs (sr_created_at x) (sr_updated_at x)))) w2
              = (Inr r, w')"
      using assms a by (auto simp: pg_FindBySiteID_def io_bind_eq_Inr)
    obtain cs where cs: "scan_cutoffs rows = Inr cs"
      and r: "r = Some (cpt_Rehydrate site (sr_timezone x) cs (sr_created_at x) (sr_updated_at x))"
      using k by (cases "scan_cutoffs rows") auto
    have "rows = cutoffs_query (v_ext V) site (seen c w)"
      using sql_exec_InrD [OF b] row(2) by auto
    moreover have "sr_site_id x = site"
      using row(1) Some select_Some_key by metis
    ultimately show ?thesis
      using r scan_cutoffs_Inr [OF cs] row(1) [symmetric] Some
      by (simp add: pg_view_def schedule_of_row_def)
  qed
  then show ?thesis using pg_FindBySiteID_seen [OF assms] by (simp add: pg_view_def)
qed

section \<open>Outbox\<close>

lemma enqueue_Inr:
  assumes "enqueue V c x at w = (Inr u, w')"
    and "\<And>r. r \<in> set (t_outbox (seen c w)) \<Longrightarrow> ob_event_id r = enc_EventId x \<Longrightarrow>
      ob_topic r \<noteq> enc_Topic x"
  shows "\<exists>r. seen c w' = (seen c w)\<lparr>t_outbox := t_outbox (seen c w) @ [r]\<rparr>
    \<and> outbox_msg r = (enc_Topic x, enc_EventId x, enc_EventType x, enc_Key x,
         v_jsonb V (enc_Value x), stored_time (v_ext V) at)"
proof -
  obtain v where e: "sql_exec (v_faults V) c
      (enqueue_stmt (v_ext V) (calls w) (v_jsonb V) x at) w = (Inr v, w')"
    using assms(1) by (auto simp: enqueue_def split: prod.splits sum.splits)
  have "select (\<lambda>r. (ob_event_id r, ob_topic r)) (enc_EventId x, enc_Topic x)
      (t_outbox (seen c w)) = None"
    using assms(2) by (force simp: select_None_iff)
  then show ?thesis
    using sql_exec_InrD [OF e, symmetric]
    by (auto simp: enqueue_stmt_def insert_ignore_def outbox_msg_def)
qed

lemma enqueue_all_Inr:
  assumes "enqueue_all V c ev i encs w = (Inr u, w')"
    and "list_all2 (\<lambda>enc t. \<forall>ev i x. enc ev i = Inr x \<longrightarrow> enc_EventId x = i \<and> enc_Topic x = t) encs topics"
    and "distinct topics"
    and "\<And>r. r \<in> set (t_outbox (seen c w)) \<Longrightarrow> ob_event_id r = i \<Longrightarrow> ob_topic r \<notin> set topics"
  shows "\<exists>rows. seen c w' = (seen c w)\<lparr>t_outbox := t_outbox (seen c w) @ rows\<rparr>
    \<and> list_all2 (\<lambda>enc r. \<exists>x. enc ev i = Inr x \<and> enc_EventId x = i
        \<and> outbox_msg r = encoded_msg V ev x) encs rows"
  using assms
proof (induction encs arbitrary: w topics)
  case Nil
  then show ?case by (intro exI [of _ "[]"]) simp
next
  case (Cons enc encs)
  obtain t ts where ts: "topics = t # ts" using Cons.prems(2) by (cases topics) auto
  obtain x w1 where x: "enc ev i = Inr x"
    and q: "enqueue V c x (OccurredAt ev) w = (Inr (), w1)"
    and k: "enqueue_all V c ev i encs w1 = (Inr u, w')"
    using Cons.prems(1) by (auto simp: io_bind_eq_Inr split: sum.splits)
  have xi: "enc_EventId x = i" "enc_Topic x = t" using Cons.prems(2) ts x by auto
  obtain r where r: "seen c w1 = (seen c w)\<lparr>t_outbox := t_outbox (seen c w) @ [r]\<rparr>"
    and m: "outbox_msg r = encoded_msg V ev x"
    using enqueue_Inr [OF q] Cons.prems(4) ts xi unfolding encoded_msg_def by auto
  have rt: "ob_topic r = t" using m xi by (simp add: outbox_msg_def encoded_msg_def)
  obtain rows where rows: "seen c w' = (seen c w1)\<lparr>t_outbox := t_outbox (seen c w1) @ rows\<rparr>"
    "list_all2 (\<lambda>enc r. \<exists>x. enc ev i = Inr x \<and> enc_EventId x = i
        \<and> outbox_msg r = encoded_msg V ev x) encs rows"
    using Cons.IH [OF k, of ts] Cons.prems(2,3,4) ts r rt by auto
  show ?case
    using rows r x xi m by (intro exI [of _ "r # rows"]) auto
qed

lemma view_outbox:
  "oltp_view E (db\<lparr>t_outbox := t_outbox db @ rows\<rparr>)
     = (oltp_view E db)\<lparr>cat_msgs := cat_msgs (oltp_view E db) @ map outbox_msg rows\<rparr>"
  by (simp add: oltp_view_def schedule_of_row_def [abs_def] cutoffs_query_def)

lemma pg_publish:
  assumes "pg_keeps V Q w" "OutboxPublisher_Publish V c ev w = (Inr u, w')"
  shows "published (outbox_emit V) ev (pg_view V c w) (pg_view V c w')"
proof -
  let ?i = "v_id V (ids w)" and ?w0 = "w\<lparr>ids := Suc (ids w)\<rparr>"
  obtain topics where tp: "encoders_ok (v_encoders V) topics" using assms(1) by (auto simp: pg_keeps_def)
  have s0: "seen c ?w0 = seen c w" by (simp add: seen_def split: ctx.splits option.splits)
  have "ids_used V (ids w) (seen c w)"
    using assms(1) by (auto simp: pg_keeps_def outbox_ok_def both_def seen_def split: ctx.splits option.splits)
  then have "ob_event_id r \<noteq> ?i" if "r \<in> set (t_outbox (seen c w))" for r
    using that assms(1) by (force simp: ids_used_def pg_keeps_def inj_def)
  then obtain rows where rows: "seen c w' = (seen c w)\<lparr>t_outbox := t_outbox (seen c w) @ rows\<rparr>"
    "list_all2 (\<lambda>enc r. \<exists>x. enc ev ?i = Inr x \<and> enc_EventId x = ?i
        \<and> outbox_msg r = encoded_msg V ev x) (v_encoders V) rows"
    using enqueue_all_Inr [of V c ev ?i "v_encoders V" ?w0 u w' topics] tp assms(2)
    by (auto simp: OutboxPublisher_Publish_def encoders_ok_def s0)
  have "outbox_emit V ev (map outbox_msg rows)"
    unfolding outbox_emit_def using rows(2) by (intro exI [of _ ?i]) (simp add: list_all2_map2)
  moreover have "pg_view V c w' = put_msgs (map outbox_msg rows) (pg_view V c w)"
    by (simp add: pg_view_def rows(1) view_outbox put_msgs_def)
  ultimately show ?thesis by (auto simp: published_def)
qed

section \<open>Invariant and frames\<close>

lemma pg_inv_exec:
  assumes "pg_keeps V Q w" "\<And>db a db'. st db = Inr (a, db') \<Longrightarrow> t_outbox db' = t_outbox db"
  shows "pg_keeps V Q (snd (sql_exec (v_faults V) c st w))"
proof -
  have m: "outbox_ok V Q (ids w) (Suc (calls w)) db'"
    if "outbox_ok V Q (ids w) (calls w) db" "t_outbox db' = t_outbox db" for db db'
    using outbox_ok_mono [OF that(1) order_refl, of "Suc (calls w)"] outbox_ok_cong [OF that(2)] by simp
  show ?thesis
    using assms sql_exec_both [of "outbox_ok V Q (ids w) (calls w)" w
        "outbox_ok V Q (ids w) (Suc (calls w))" st "v_faults V" c] m
    by (auto simp: pg_keeps_def sql_exec_frame)
qed

lemma pg_inv_read: "pg_keeps V Q w \<Longrightarrow> pg_keeps V Q (snd (sql_exec (v_faults V) c (\<lambda>db. Inr (f db, db)) w))"
  by (rule pg_inv_exec) auto

lemma pg_inv_path:
  "pg_keeps V Q w \<Longrightarrow> pg_keeps V Q (snd (pg_FindByID V c i w))"
  "pg_keeps V Q w \<Longrightarrow> pg_keeps V Q (snd (pg_Save V c p w))"
  "pg_keeps V Q w \<Longrightarrow> pg_keeps V Q (snd (pg_ListActive V c w))"
  "pg_keeps V Q w \<Longrightarrow> pg_keeps V Q (snd (pg_ListAll V c w))"
  unfolding pg_FindByID_def pg_Save_def pg_ListActive_def pg_ListAll_def pg_list_def
  by (rule pg_inv_read pg_inv_exec; auto simp: save_path_stmt_def split: if_splits)+

lemma pg_inv_insert_cutoffs: "pg_keeps V Q w \<Longrightarrow> pg_keeps V Q (snd (insert_cutoffs V c rs w))"
proof (induction rs arbitrary: w)
  case (Cons r rs)
  show ?case
    unfolding insert_cutoffs.simps
    by (rule io_bind_keeps [where P = "pg_keeps V Q"])
      (auto intro!: pg_inv_exec Cons simp: insert_cutoff_stmt_def split: if_splits)
qed simp

lemma pg_inv_schedule:
  "pg_keeps V Q w \<Longrightarrow> pg_keeps V Q (snd (pg_FindBySiteID V c site w))"
  "pg_keeps V Q w \<Longrightarrow> pg_keeps V Q (snd (pg_sched_Save V c s w))"
proof -
  assume i: "pg_keeps V Q w"
  show "pg_keeps V Q (snd (pg_FindBySiteID V c site w))"
    unfolding pg_FindBySiteID_def
    by (rule io_bind_keeps [where P = "pg_keeps V Q", OF _ _ i])
      (auto intro!: pg_inv_read io_bind_keeps [where P = "pg_keeps V Q"] split: option.splits sum.splits)
  show "pg_keeps V Q (snd (pg_sched_Save V c s w))"
    unfolding pg_sched_Save_def
    by (intro io_bind_keeps [where P = "pg_keeps V Q"] pg_inv_insert_cutoffs i pg_inv_exec)
      (auto simp: save_schedule_stmt_def delete_cutoffs_stmt_def)
qed

definition fresh_inv :: "pg_env \<Rightarrow> (outbox_row list \<Rightarrow> bool) \<Rightarrow> nat \<Rightarrow> oltp pg \<Rightarrow> bool" where
  "fresh_inv V Q k w \<longleftrightarrow> pg_keeps V Q w \<and> k < ids w"

lemma enqueue_all_inv:
  assumes "fresh_inv V Q k w" "\<forall>enc \<in> set encs. \<forall>ev i x. enc ev i = Inr x \<longrightarrow> enc_EventId x = i"
  shows "fresh_inv V Q k (snd (enqueue_all V c ev (v_id V k) encs w))"
  using assms
proof (induction encs arbitrary: w)
  case (Cons enc encs)
  have one: "fresh_inv V Q k (snd (enqueue V c x at w))"
    if "fresh_inv V Q k w" "enc_EventId x = v_id V k" for x at w
  proof -
    let ?st = "enqueue_stmt (v_ext V) (calls w) (v_jsonb V) x at"
    let ?P = "outbox_ok V Q (ids w)"
    have "?P (Suc (calls w)) db'" if "?P (calls w) db" "?st db = Inr (a, db')" for db a db'
    proof -
      have "db' = db \<or> (\<exists>r. db' = db\<lparr>t_outbox := t_outbox db @ [r]\<rparr> \<and> ob_id r = calls w
          \<and> ob_published_at r = None \<and> ob_event_id r = v_id V k
          \<and> outbox_key r \<notin> outbox_key ` set (t_outbox db))"
        using that(2) \<open>enc_EventId x = v_id V k\<close>
        by (auto simp: enqueue_stmt_def insert_ignore_def outbox_key_def [abs_def] select_None_iff
            split: if_splits)
      then show ?thesis
        using that(1) \<open>fresh_inv V Q k w\<close> outbox_ok_append outbox_ok_mono [OF that(1) order_refl]
        by (auto simp: fresh_inv_def)
    qed
    then have "both (?P (Suc (calls w))) (snd (sql_exec (v_faults V) c ?st w))"
      using that
      by (intro sql_exec_both [where P = "?P (calls w)"])
        (auto simp: fresh_inv_def pg_keeps_def intro: outbox_ok_mono)
    then have "fresh_inv V Q k (snd (sql_exec (v_faults V) c ?st w))"
      using that(1) by (auto simp: fresh_inv_def pg_keeps_def sql_exec_frame)
    then show ?thesis by (auto simp: enqueue_def split: prod.splits sum.splits)
  qed
  show ?case
  proof (cases "enc ev (v_id V k)")
    case (Inr x)
    then have "enc_EventId x = v_id V k" using Cons.prems(2) by auto
    then show ?thesis
      unfolding enqueue_all.simps Inr sum.case
      by (intro io_bind_keeps [where P = "fresh_inv V Q k"] one Cons) (use Cons.prems in auto)
  qed (use Cons.prems in auto)
qed simp

lemma pg_inv_publish: "pg_keeps V Q w \<Longrightarrow> pg_keeps V Q (snd (OutboxPublisher_Publish V c ev w))"
proof -
  assume i: "pg_keeps V Q w"
  let ?w0 = "w\<lparr>ids := Suc (ids w)\<rparr>"
  have "fresh_inv V Q (ids w) ?w0"
    using i by (auto simp: fresh_inv_def pg_keeps_def both_def intro: outbox_ok_mono)
  moreover have "enc_EventId x = j" if "enc \<in> set (v_encoders V)" "enc e j = Inr x" for enc e j x
  proof -
    obtain topics where "encoders_ok (v_encoders V) topics" using i by (auto simp: pg_keeps_def)
    then show ?thesis using that
      by (fastforce simp: encoders_ok_def list_all2_conv_all_nth in_set_conv_nth)
  qed
  ultimately show ?thesis
    using enqueue_all_inv [of V Q "ids w" ?w0 "v_encoders V" c ev]
    by (auto simp: OutboxPublisher_Publish_def fresh_inv_def)
qed

lemma tx_frame:
  "ids (snd (pool_Begin F w)) = ids w" "ids (snd (tx_Commit F w)) = ids w"
  "ids (snd (tx_Rollback F w)) = ids w" "calls (snd (pool_Begin F w)) = Suc (calls w)"
  "calls (snd (tx_Commit F w)) = Suc (calls w)" "calls (snd (tx_Rollback F w)) = Suc (calls w)"
  by (auto simp: pool_Begin_def tx_Commit_def tx_Rollback_def
      split: option.splits fault.splits prod.splits bool.splits)

lemma rollback_frame [simp]:
  "committed (snd (tx_Rollback F v)) = committed v" "ids (snd (tx_Rollback F v)) = ids v"
  "calls v \<le> calls (snd (tx_Rollback F v))" "open_tx (snd (tx_Rollback F v)) = None"
  by (auto simp: tx_committed tx_frame) (auto simp: tx_Rollback_def split: option.splits fault.splits)

lemma pg_inv_tx:
  "pg_keeps V Q w \<Longrightarrow> pg_keeps V Q (snd (pool_Begin F w))"
  "pg_keeps V Q w \<Longrightarrow> pg_keeps V Q (snd (tx_Commit F w))"
  "pg_keeps V Q w \<Longrightarrow> pg_keeps V Q (snd (tx_Rollback F w))"
  using tx_both [of "outbox_ok V Q (ids w) (Suc (calls w))" w F]
    both_mono [of "outbox_ok V Q (ids w) (calls w)" w "outbox_ok V Q (ids w) (Suc (calls w))"]
  by (auto simp: pg_keeps_def tx_frame outbox_ok_mono)

lemma rollback_joined_snd: "snd (rollback_joined V e w) = snd (tx_Rollback (v_faults V) w)"
    "\<exists>e'. fst (rollback_joined V e w) = Inl e'"
  by (auto simp: rollback_joined_def split: prod.splits sum.splits)

lemma pg_inv_uow:
  assumes i: "pg_keeps V Q w" and f: "\<And>c w. pg_keeps V Q w \<Longrightarrow> pg_keeps V Q (snd (fn c w))"
  shows "pg_keeps V Q (snd (UnitOfWork_Execute V c fn w))"
proof (cases c)
  case Background
  obtain r w1 where b: "pool_Begin (v_faults V) w = (r, w1)" by fastforce
  obtain r2 w2 where g: "fn WithTx w1 = (r2, w2)" by fastforce
  obtain r3 w3 where k: "tx_Commit (v_faults V) w2 = (r3, w3)" by fastforce
  have "pg_keeps V Q w1" using pg_inv_tx(1) [OF i] b by (metis snd_conv)
  moreover from this have "pg_keeps V Q w2" using f [of w1 WithTx] g by simp
  moreover from this have "pg_keeps V Q w3" using pg_inv_tx(2) k by (metis snd_conv)
  ultimately show ?thesis
    using b g k pg_inv_tx(3)
    by (auto simp: UnitOfWork_Execute_def Background rollback_joined_snd split: sum.splits)
qed (use i f in \<open>simp add: UnitOfWork_Execute_def\<close>)

lemma uow_background_cases:
  assumes "UnitOfWork_Execute V Background fn w = (r, w')"
  obtains w1 where "r \<noteq> Inr ()" "committed w' = committed w1" "w1 = w"
  | w1 e w2 where "pool_Begin (v_faults V) w = (Inr (), w1)" "fn WithTx w1 = (Inl e, w2)"
      "committed w' = committed w2" "r \<noteq> Inr ()"
  | w1 w2 where "pool_Begin (v_faults V) w = (Inr (), w1)" "fn WithTx w1 = (Inr (), w2)"
      "committed w' = committed w2 \<and> r \<noteq> Inr () \<or> committed w' = seen WithTx w2"
proof -
  obtain r1 w1 where b: "pool_Begin (v_faults V) w = (r1, w1)" by fastforce
  obtain r2 w2 where g: "fn WithTx w1 = (r2, w2)" by fastforce
  obtain r3 w3 where k: "tx_Commit (v_faults V) w2 = (r3, w3)" by fastforce
  note rb = rollback_joined_snd [of V]
  show ?thesis
  proof (cases r1)
    case (Inl e)
    then show ?thesis
      using assms b that(1) [OF _ _ refl] tx_committed(1) [of "v_faults V" w]
      by (auto simp: UnitOfWork_Execute_def)
  next
    case r1: (Inr u)
    show ?thesis
    proof (cases r2)
      case (Inl e)
      then have "rollback_joined V e w2 = (r, w')"
        using assms b g r1 by (simp add: UnitOfWork_Execute_def)
      then have "committed w' = committed w2" "r \<noteq> Inr ()"
        using rb(1) [of e w2] rb(2) [of e w2] tx_committed(2) [of "v_faults V" w2] by auto
      then show ?thesis using that(2) b g r1 Inl by auto
    next
      case r2: (Inr u2)
      show ?thesis
      proof (cases r3)
        case (Inl e)
        then have "rollback_joined V (WrapErr ''postgres: commit unit of work'' e) w3 = (r, w')"
          using assms b g k r1 r2 by (simp add: UnitOfWork_Execute_def)
        then have "committed w' = committed w3" "r \<noteq> Inr ()"
          using rb [of "WrapErr ''postgres: commit unit of work'' e" w3]
            tx_committed(2) [of "v_faults V" w3] by auto
        then show ?thesis using that(3) b g r1 r2 tx_Commit_cases [OF k] by auto
      next
        case (Inr u3)
        then have "r = Inr ()" "w' = w3" using assms b g k r1 r2 by (simp_all add: UnitOfWork_Execute_def)
        then show ?thesis using that(3) b g r1 r2 tx_Commit_cases [OF k] Inr by auto
      qed
    qed
  qed
qed

lemma pg_uow_ok:
  assumes i: "pg_keeps V Q w" and f: "\<And>c w. pg_keeps V Q w \<Longrightarrow> pg_keeps V Q (snd (fn c w))"
    and run: "UnitOfWork_Execute V c fn w = (Inr u, w')"
  shows "\<exists>c1 w1 w2. pg_keeps V Q w1 \<and> pg_view V c1 w1 = pg_view V c w \<and> fn c1 w1 = (Inr (), w2)
    \<and> pg_view V c w' = pg_view V c1 w2"
proof (cases c)
  case WithTx
  then show ?thesis using i run by (intro exI [of _ WithTx]) (auto simp: UnitOfWork_Execute_def)
next
  case Background
  show ?thesis
    using run [unfolded Background]
  proof (cases rule: uow_background_cases)
    case (3 w1 w2)
    have "pg_keeps V Q w1" using pg_inv_tx(1) [OF i] 3(1) by (metis snd_conv)
    moreover have "pg_view V WithTx w1 = pg_view V Background w"
      using pool_Begin_Inr [OF 3(1)] by (simp add: pg_view_def seen_def)
    moreover have "pg_view V Background w' = pg_view V WithTx w2"
      using 3(3) by (simp add: pg_view_def seen_def)
    ultimately show ?thesis using 3(2) Background by blast
  qed simp_all
qed

lemma pg_uow_atomic:
  assumes i: "pg_keeps V Q w" and f: "\<And>c w. pg_keeps V Q w \<Longrightarrow> pg_keeps V Q (snd (fn c w))"
    and iso: "\<And>w. pg_view V Background (snd (fn WithTx w)) = pg_view V Background w"
    and run: "UnitOfWork_Execute V Background fn w = (r, w')"
  shows "pg_view V Background w' = pg_view V Background w
    \<or> (\<exists>w1 w2. pg_keeps V Q w1 \<and> pg_view V WithTx w1 = pg_view V Background w
        \<and> fn WithTx w1 = (Inr (), w2) \<and> pg_view V Background w' = pg_view V WithTx w2)"
  using run
proof (cases rule: uow_background_cases)
  case (1 w1)
  then show ?thesis by (simp add: pg_view_def seen_def)
next
  case (2 w1 e w2)
  have "pg_view V Background w1 = pg_view V Background w"
    using pool_Begin_Inr [OF 2(1)] by (simp add: pg_view_def seen_def)
  moreover have "pg_view V Background w2 = pg_view V Background w1"
    using iso [of w1] 2(2) by simp
  ultimately show ?thesis using 2(3) by (simp add: pg_view_def seen_def)
next
  case (3 w1 w2)
  have b: "pg_view V Background w1 = pg_view V Background w"
    "pg_view V WithTx w1 = pg_view V Background w"
    using pool_Begin_Inr [OF 3(1)] by (simp_all add: pg_view_def seen_def)
  have n: "pg_view V Background w2 = pg_view V Background w1" using iso [of w1] 3(2) by simp
  have iw: "pg_keeps V Q w1" using pg_inv_tx(1) [OF i] 3(1) by (metis snd_conv)
  show ?thesis
  proof (cases "committed w' = committed w2")
    case True
    then show ?thesis using b n by (simp add: pg_view_def seen_def)
  next
    case False
    then have "pg_view V Background w' = pg_view V WithTx w2"
      using 3(3) by (simp add: pg_view_def seen_def)
    then show ?thesis using b iw 3(2) by blast
  qed
qed

definition tx_isolated :: "(oltp pg, 'a) io \<Rightarrow> bool" where
  "tx_isolated m \<longleftrightarrow> (\<forall>w. committed (snd (m w)) = committed w)"

lemma tx_isolated_exec: "tx_isolated (sql_exec F WithTx st)"
  by (simp add: tx_isolated_def sql_exec_tx_committed)

lemma tx_isolated_bind: "tx_isolated m \<Longrightarrow> (\<And>a. tx_isolated (f a)) \<Longrightarrow> tx_isolated (io_bind m f)"
  unfolding tx_isolated_def io_bind_def
  by (auto split: prod.splits sum.splits) (metis snd_conv)+

lemma tx_isolated_fail: "tx_isolated (io_fail e)" "tx_isolated (Pair x)"
  by (simp_all add: tx_isolated_def)

lemma tx_isolated_insert: "tx_isolated (insert_cutoffs V WithTx rs)"
proof (induction rs)
  case (Cons r rs)
  then show ?case by (auto intro!: tx_isolated_bind tx_isolated_exec)
qed (simp add: tx_isolated_def)

lemma tx_isolated_enqueue: "tx_isolated (enqueue V WithTx x at)"
  unfolding tx_isolated_def enqueue_def
proof
  fix w
  show "committed (snd (case sql_exec (v_faults V) WithTx
      (enqueue_stmt (v_ext V) (calls w) (v_jsonb V) x at) w of
       (Inl e, w') \<Rightarrow> (Inl (WrapErr (''postgres: enqueue outbox event '' @ enc_EventType x
                              @ '' for '' @ enc_Topic x) e), w')
     | (Inr u, w') \<Rightarrow> (Inr (), w'))) = committed w"
    using sql_exec_tx_committed [of "v_faults V" "enqueue_stmt (v_ext V) (calls w) (v_jsonb V) x at" w]
    by (auto split: prod.splits sum.splits)
qed

lemma tx_isolated_enqueue_all: "tx_isolated (enqueue_all V WithTx ev i encs)"
proof (induction encs)
  case (Cons enc encs)
  then show ?case
    by (cases "enc ev i") (auto intro!: tx_isolated_bind tx_isolated_enqueue tx_isolated_fail)
qed (simp add: tx_isolated_def)

lemma isolated_view: "tx_isolated m \<Longrightarrow> pg_view V Background (snd (m w)) = pg_view V Background w"
  by (simp add: tx_isolated_def pg_view_def seen_def)

lemma pg_isolated:
  "tx_isolated (pg_Save V WithTx p)" "tx_isolated (pg_sched_Save V WithTx s)"
  "tx_isolated (OutboxPublisher_Publish V WithTx ev)"
  using tx_isolated_enqueue_all
  by (auto simp: pg_Save_def pg_sched_Save_def tx_isolated_exec OutboxPublisher_Publish_def
      intro!: tx_isolated_bind tx_isolated_insert) (auto simp: tx_isolated_def)

lemma read_seen: "seen c (snd (sql_exec F c (\<lambda>db. Inr (f db, db)) w)) = seen c w"
  using read_keeps by (metis prod.collapse)

lemma pg_read_view:
  "pg_view V c (snd (pg_FindByID V c i w)) = pg_view V c w"
  "pg_view V c (snd (pg_FindBySiteID V c site w)) = pg_view V c w"
  "pg_view V c (snd (pg_ListActive V c w)) = pg_view V c w"
  "pg_view V c (snd (pg_ListAll V c w)) = pg_view V c w"
  by (simp_all only: pg_view_def pg_FindByID_def pg_ListActive_def pg_ListAll_def pg_list_def
      read_seen pg_FindBySiteID_seen [OF prod.collapse [symmetric]])

section \<open>Interpretations\<close>

lemma pg_sel [simp]:
  "repo_FindByID (pg_repo V) = pg_FindByID V" "repo_Save (pg_repo V) = pg_Save V"
  "repo_ListActive (pg_repo V) = pg_ListActive V" "repo_ListAll (pg_repo V) = pg_ListAll V"
  "sched_FindBySiteID (pg_schedule_repo V) = pg_FindBySiteID V"
  "sched_Save (pg_schedule_repo V) = pg_sched_Save V"
  "Repo (pg_deps V) = pg_repo V" "ScheduleRepo (pg_deps V) = pg_schedule_repo V"
  "Publisher (pg_deps V) = OutboxPublisher_Publish V" "Clock (pg_deps V) = pg_clock V"
  "UoW (pg_deps V) = Some (UnitOfWork_Execute V)" "Metrics (pg_deps V) = Some pg_metrics"
  by (simp_all add: pg_repo_def pg_schedule_repo_def pg_deps_def)

lemma pg_view_frame:
  "committed w' = committed w \<Longrightarrow> open_tx w' = open_tx w \<Longrightarrow> pg_view V c w' = pg_view V c w"
  by (simp add: pg_view_def seen_def split: ctx.splits option.splits)

lemma pg_inv_frame:
  "committed w' = committed w \<Longrightarrow> open_tx w' = open_tx w \<Longrightarrow> ids w' = ids w \<Longrightarrow>
   calls w' = calls w \<Longrightarrow> pg_keeps V Q w \<Longrightarrow> pg_keeps V Q w'"
  by (simp add: pg_keeps_def both_def)

interpretation pg_app: application "pg_repo V" "pg_schedule_repo V" "OutboxPublisher_Publish V"
    "pg_keeps V Q" "pg_view V" "pg_sp (v_ext V)" "pg_ss (v_ext V)" "outbox_emit V" "pg_deps V"
proof (unfold_locales, goal_cases)
  case (1 w c pid r w')
  then show ?case using pg_find_path by simp
next
  case (2 w pid e w')
  then show ?case using pg_read_view(1) by (metis pg_sel(1) snd_conv)
next
  case (3 w)
  then show ?case by (simp add: pg_read_view)
next
  case (4 w)
  then show ?case by (simp add: pg_read_view)
next
  case (5 w c p u w')
  then show ?case using pg_save_path by simp
next
  case (10 w c site r w')
  then show ?case using pg_find_schedule by simp
next
  case (11 w site e w')
  then show ?case using pg_read_view(2) by (metis pg_sel(5) snd_conv)
next
  case (12 w c s u w')
  then show ?case using pg_save_schedule by simp
next
  case (15 w c ev u w')
  then show ?case by (rule pg_publish)
next
  case (16 w c ev)
  then show ?case by (rule pg_inv_publish)
next
  case (20 w now w' c)
  then show ?case
    by (auto simp: pg_clock_def intro: pg_view_frame elim!: pg_inv_frame [rotated 4])
next
  case (21 c c' w)
  then show ?case by (auto simp: recordAccepted_def pg_metrics_def pg_count_def intro: pg_view_frame)
next
  case (22 w c')
  then show ?case
    by (auto simp: recordAccepted_def pg_metrics_def pg_count_def elim!: pg_inv_frame [rotated 4])
next
  case (23 c c' w)
  then show ?case by (auto simp: recordRejected_def pg_metrics_def pg_count_def intro: pg_view_frame)
next
  case (24 w c')
  then show ?case
    by (auto simp: recordRejected_def pg_metrics_def pg_count_def elim!: pg_inv_frame [rotated 4])
next
  case (25 ex w f c u w')
  then show ?case using pg_uow_ok [of V Q w f c u w'] by simp
next
  case (26 ex w f c)
  then show ?case using pg_inv_uow [of V Q w f c] by simp
qed (simp_all add: pg_inv_path pg_inv_schedule)

interpretation pg_atomic: atomic_application "pg_repo V" "pg_schedule_repo V"
    "OutboxPublisher_Publish V" "pg_keeps V Q" "pg_view V" "pg_sp (v_ext V)" "pg_ss (v_ext V)"
    "outbox_emit V" "pg_deps V"
proof (unfold_locales, goal_cases)
  case (4 ex w f r w')
  then show ?case using pg_uow_atomic [of V Q w f r w'] by simp
qed (simp_all add: isolated_view pg_isolated)

interpretation pg_storage: storage "pg_sp E" "pg_ss E"
  by unfold_locales
    (auto simp: pg_sp_def pg_ss_def path_digest_def same_identity_def)

lemma pg_view_init [simp]: "pg_view V Background pg_init = empty_catalogue"
  by (simp add: pg_view_def seen_def pg_init_def empty_oltp_def oltp_view_def empty_catalogue_def)

text \<open>The encoders the composition root passes.\<close>

lemma production_encoders_ok:
  "encoders_ok [Encode S, AnalyticsEncoder_Encode S] [Topic, AnalyticsTopic]"
  by (auto simp: encoders_ok_def Encode_def AnalyticsEncoder_Encode_def encodeFor_def Topic_def
      AnalyticsTopic_def split: sum.splits)

lemma pg_inv_init:
  "inj (v_id V) \<Longrightarrow> v_encoders V = [Encode S, AnalyticsEncoder_Encode S] \<Longrightarrow> pg_inv V pg_init"
  using production_encoders_ok [of S]
  by (auto simp: pg_keeps_def pg_init_def both_def ids_used_def empty_oltp_def outbox_ok_def
      serials_ok_def appended_self)

end
