(* ===== verification/AppClaims.thy ===== *)
theory AppClaims
  imports DomainClaims Memory PostgresRefine
begin

text \<open>
  The properties of the use cases over their two sets of adapters, of the unit of work, the outbox
  and the event encoders, with their witnesses over a small concrete environment.
\<close>

section \<open>A concrete environment\<close>

definition demo_sdk :: sdk where
  "demo_sdk = \<lparr>SetData = (\<lambda>e ct d. Inr (e\<lparr>ce_datacontenttype := ct, ce_data := d\<rparr>)),
     Validate = (\<lambda>e. if ce_required e then None else Some (PlainErr ''missing attribute'')),
     MarshalJSON = (\<lambda>e. Inr (ce_id e @ ce_type e)), UnmarshalJSON = (\<lambda>v. Inl (PlainErr ''demo''))\<rparr>"

definition demo_id :: "nat \<Rightarrow> string" where
  "demo_id n = replicate (Suc n) (CHR ''u'')"

definition demo_env :: "faults \<Rightarrow> pg_env" where
  "demo_env F = \<lparr>v_ext = demo_ext, v_faults = F, v_now = (\<lambda>n. 1000 * int n), v_id = demo_id,
     v_jsonb = id, v_encoders = [Encode demo_sdk, AnalyticsEncoder_Encode demo_sdk]\<rparr>"

lemma demo_env_sel [simp]:
  "v_ext (demo_env F) = demo_ext" "v_faults (demo_env F) = F" "v_id (demo_env F) = demo_id"
  "v_jsonb (demo_env F) = id" "v_now (demo_env F) n = 1000 * int n"
  "v_encoders (demo_env F) = [Encode demo_sdk, AnalyticsEncoder_Encode demo_sdk]"
  by (simp_all add: demo_env_def)

lemma demo_id_inj: "inj demo_id"
  by (auto simp: inj_def demo_id_def dest: arg_cong [of _ _ length])

lemma demo_inv: "pg_inv (demo_env F) pg_init"
  by (rule pg_inv_init) (simp_all add: demo_id_inj)

definition define_pick_pack :: request where
  "define_pick_pack = DefineRequest ''pick-pack'' ''pp'' False [''pick''] ''Drop'' 7200000000000
     EligibilityZero"

text \<open>The third call of the process, the insert into the outbox, loses its connection.\<close>

definition third_call_fails :: faults where
  "third_call_fails n = (if n = 3 then Some (Refused (PlainErr ''conn closed'')) else None)"

definition no_faults :: faults where
  "no_faults n = None"

section \<open>The whole service\<close>






definition stored_pick_pack :: "oltp pg" where
  "stored_pick_pack = pg_init\<lparr>committed := empty_oltp\<lparr>t_paths := [path_to_row sample_path]\<rparr>\<rparr>"

lemma stored_view:
  "pg_view V Background stored_pick_pack = empty_catalogue\<lparr>cat_paths :=
     [''pick-pack'' \<mapsto> scanProcessPath (path_to_row sample_path)]\<rparr>"
  by (intro catalogue_eqI ext)
    (auto simp: pg_view_def seen_def stored_pick_pack_def empty_oltp_def select_def sample_path_def
      empty_catalogue_def path_to_row_def)

lemma stored_inv: "pg_inv (demo_env F) stored_pick_pack"
  using demo_inv [of F]
  by (auto simp: pg_keeps_def stored_pick_pack_def both_def pg_init_def outbox_ok_def ids_used_def
      serials_ok_def empty_oltp_def
      intro: appended_self)

lemma stored_keyed: "keyed (pg_view V Background stored_pick_pack)"
  by (auto simp: stored_view keyed_def empty_catalogue_def scanProcessPath_def path_to_row_def
      Rehydrate_def sample_path_def IsActive_def)


text \<open>
  C22. The in-memory process implements the same specification: any requests take it from the empty
  store through specified steps, with one log line per event, the logged events tell exactly the
  stored paths, and the keys of both maps stay distinct.
\<close>

theorem mem_requests_refine:
  "let w = serve_all E (mem_deps order now) rs mem_init
   in mem_distinct w
    \<and> cat_steps E keep_new keep_new log_line empty_catalogue (mem_view Background w)
    \<and> (\<exists>evs. told log_line (mem_view Background w) evs)"
proof -
  note s = mem_step.serve_all_steps [OF mem_distinct_init, of E order now rs, unfolded mem_view_init]
  obtain evs where "told log_line (mem_view Background (serve_all E (mem_deps order now) rs mem_init)) evs"
    using mem_storage.steps_told [OF conjunct2 [OF s] empty_catalogue_ok(1) empty_catalogue_ok(3)]
    by auto
  then show ?thesis using s by (auto simp: Let_def)
qed

section \<open>The use cases, result by result\<close>

text \<open>
  \<open>DefinePath\<close> over the in-memory adapters, every branch: a taken id is refused with
  \<open>ErrPathAlreadyExists\<close>, an invalid definition with the domain's error, both counted as rejected
  and nothing stored or logged; otherwise the new path is stored, its creation event logged with the
  same instant, and the attempt counted as accepted.
\<close>

lemma mem_define_path:
  "DefinePath_Execute E (mem_deps order now) c pid prefix dir caps role ct elig w =
    (case map_of (mem_paths w) pid of
       Some _ \<Rightarrow> (Inl (AppErr ErrPathAlreadyExists), metrics_record ''rejected'' w)
     | None \<Rightarrow>
        (let t = now (mem_ticks w); w1 = w\<lparr>mem_ticks := mem_ticks w + 1\<rparr> in
         case Define E pid prefix dir caps role ct elig t of
           Inl e \<Rightarrow> (Inl e, metrics_record ''rejected'' w1)
         | Inr p \<Rightarrow> (Inr p, metrics_record ''accepted'' (w1\<lparr>
             mem_paths := AList.update pid p (mem_paths w),
             mem_log := mem_log w @ [(''ProcessPathCreated'', ProcessPathCreated (path_payload p t))]\<rparr>))))"
  by (auto simp: DefinePath_Execute_def save_and_publish_def atomically_def io_bind_def mem_defs
      recordAccepted_def recordRejected_def Let_def Define_id split: option.splits sum.splits)

text \<open>
  C23. \<open>RevisePath\<close> over Postgres, success and failure: a success was applied to the stored active
  path and left exactly the revised path and one update event behind, or found nothing to change
  and left no trace; a failure left no trace either, unless a commit happened that reported an
  error, and then it left a whole step.
\<close>

lemma pg_revise_path:
  assumes "pg_inv V w"
  shows "case RevisePath_Execute (v_ext V) (pg_deps V) Background pid prefix caps ct elig w of
      (Inr q, w') \<Rightarrow> (\<exists>now p changed. cat_paths (pg_view V Background w) pid = Some p
        \<and> Revise (v_ext V) p prefix caps ct elig now = Inr (changed, q)
        \<and> (if changed
            then published (outbox_emit V) (ProcessPathUpdated (path_payload q now))
                   (put_path (pg_sp (v_ext V)) q (pg_view V Background w)) (pg_view V Background w')
            else pg_view V Background w' = pg_view V Background w))
    | (Inl e, w') \<Rightarrow> pg_view V Background w' = pg_view V Background w
        \<or> cat_step (v_ext V) (pg_sp (v_ext V)) (pg_ss (v_ext V)) (outbox_emit V)
            (pg_view V Background w) (pg_view V Background w')"
proof -
  obtain r w' where run: "RevisePath_Execute (v_ext V) (pg_deps V) Background pid prefix caps ct elig w
      = (r, w')" by fastforce
  show ?thesis
  proof (cases r)
    case (Inl e)
    then show ?thesis
      using pg_atomic.serve_atomic [OF assms, of "v_ext V" "ReviseRequest pid prefix caps ct elig"]
      by (simp add: run pg_atomic.one_step_def)
  next
    case (Inr q)
    show ?thesis
      using pg_app.revise_ok [OF assms run [unfolded Inr]] by (simp only: run Inr prod.case sum.case)
  qed
qed

lemma pg_revise_path_witness:
  "case RevisePath_Execute demo_ext (pg_deps (demo_env no_faults)) Background ''pick-pack'' ''pp''
       [''pick''] 7200000000000 EligibilityZero stored_pick_pack of
     (Inr q, w') \<Rightarrow> IsActive q
   | (Inl e, w') \<Rightarrow> True"
  using pg_revise_path [OF stored_inv [of no_faults], where pid = "''pick-pack''" and prefix = "''pp''"
      and caps = "[''pick'']" and ct = 7200000000000 and elig = EligibilityZero]
  by (auto simp: Revise_Inr_iff IsActive_def split: prod.splits sum.splits)



section \<open>Unit of work\<close>

text \<open>
  C4. \<open>UnitOfWork.Execute\<close>: inside a transaction it only joins (the function runs in the outer one and
  nothing is begun, committed or rolled back). Outside, a success means that the function succeeded
  in a transaction of its own, started from the committed state, and that exactly what it left
  there is committed; a failure leaves the committed state as it was, or a commit that reported an
  error had happened.
\<close>

lemma unit_of_work:
  assumes "tx_isolated (fn WithTx)"
  shows "UnitOfWork_Execute V WithTx fn = fn WithTx
    \<and> (case UnitOfWork_Execute V Background fn w of
         (Inr u, w') \<Rightarrow> (\<exists>w1 w2. pool_Begin (v_faults V) w = (Inr (), w1)
            \<and> fn WithTx w1 = (Inr (), w2) \<and> committed w' = seen WithTx w2)
       | (Inl e, w') \<Rightarrow> committed w' = committed w
           \<or> (\<exists>w1 w2. fn WithTx w1 = (Inr (), w2) \<and> committed w' = seen WithTx w2))"
proof -
  have iso: "committed w2 = committed w1" if "fn WithTx w1 = (r, w2)" for w1 w2 r
    using assms that by (auto simp: tx_isolated_def) (metis snd_conv)
  obtain r w' where run: "UnitOfWork_Execute V Background fn w = (r, w')" by fastforce
  have "case r of Inr u \<Rightarrow> (\<exists>w1 w2. pool_Begin (v_faults V) w = (Inr (), w1)
            \<and> fn WithTx w1 = (Inr (), w2) \<and> committed w' = seen WithTx w2)
       | Inl e \<Rightarrow> committed w' = committed w
           \<or> (\<exists>w1 w2. fn WithTx w1 = (Inr (), w2) \<and> committed w' = seen WithTx w2)"
    using run
  proof (cases rule: uow_background_cases)
    case (1 w1)
    then show ?thesis by (cases r) auto
  next
    case (2 w1 e w2)
    then show ?thesis using iso [OF 2(2)] pool_Begin_Inr [OF 2(1)] by (cases r) auto
  next
    case (3 w1 w2)
    then show ?thesis using iso [OF 3(2)] pool_Begin_Inr [OF 3(1)] by (cases r) auto
  qed
  then show ?thesis using run by (auto simp: UnitOfWork_Execute_def split: sum.splits)
qed

lemma unit_of_work_witness:
  "committed (snd (UnitOfWork_Execute (demo_env no_faults) Background
      (\<lambda>c. io_bind (pg_Save (demo_env no_faults) c sample_path) (\<lambda>_. io_fail (PlainErr ''no'')))
      pg_init)) = empty_oltp"
proof -
  have iso: "tx_isolated (io_bind (pg_Save (demo_env no_faults) WithTx sample_path)
      (\<lambda>_. io_fail (PlainErr ''no'')))"
    by (intro tx_isolated_bind pg_isolated(1) tx_isolated_fail(1))
  show ?thesis
    using unit_of_work [where fn = "\<lambda>c. io_bind (pg_Save (demo_env no_faults) c sample_path)
        (\<lambda>_. io_fail (PlainErr ''no''))", OF iso, of "demo_env no_faults" pg_init]
    by (auto simp: io_bind_eq_Inr pg_init_def split: prod.splits sum.splits)
qed

section \<open>What the tables keep\<close>

text \<open>
  C27. A path that was saved and is read back is the saved one, except that its stamps are rounded by
  the column, that identity fields come from the row that was there before, and that the cycle
  time is cut to whole microseconds.
\<close>

lemma pg_path_roundtrip:
  assumes "pg_Save V c p w = (Inr u, w1)" "pg_FindByID V c (pp_id p) w1 = (Inr r, w2)"
  shows "\<exists>q. r = Some q \<and> q = pg_sp (v_ext V) (cat_paths (pg_view V c w) (pp_id p)) p
    \<and> path_digest q = path_digest p \<and> eligibility q = eligibility p
    \<and> sint (cycleTimeP95 q) = sint (cycleTimeP95 p) sdiv 1000 * 1000"
proof -
  have "r = Some (pg_sp (v_ext V) (cat_paths (pg_view V c w) (pp_id p)) p)"
    using pg_find_path [OF assms(2)] pg_save_path [OF assms(1)] by (simp add: put_path_paths)
  then show ?thesis by (simp add: pg_storage.sp_fields(2) stored_cycle) (simp add: pg_sp_def stored_cycle)
qed

lemma pg_path_roundtrip_witness:
  "\<exists>w1 r w2. pg_Save (demo_env no_faults) Background sample_path pg_init = (Inr (), w1)
     \<and> pg_FindByID (demo_env no_faults) Background ''pick-pack'' w1 = (Inr (Some r), w2)
     \<and> sint (cycleTimeP95 r) = 7200000000000"
proof -
  obtain w1 where s: "pg_Save (demo_env no_faults) Background sample_path pg_init = (Inr (), w1)"
    by (simp add: pg_Save_def sql_exec_def no_faults_def save_path_stmt_def path_check_def
        path_to_row_def sample_path_def StatusActive_def destinationLocationRoleToColumn_def
        role_defs)
  obtain r w2 where f: "pg_FindByID (demo_env no_faults) Background (pp_id sample_path) w1 = (Inr r, w2)"
    by (simp add: pg_FindByID_def sql_exec_def no_faults_def)
  show ?thesis
    using pg_path_roundtrip [OF s f] s f
    by (auto simp: sample_path_def signed_divide_int_def)
qed

text \<open>
  A cycle time below a microsecond is valid for the domain, but the \<open>INTERVAL\<close> column stores it
  as zero: the path that is read back violates the domain's own rule that the cycle time is
  positive.
\<close>

lemma sub_microsecond_cycle_lost:
  assumes "Define E pid prefix dir caps role ct elig now = Inr p" "sint ct < 1000"
  shows "0 < sint (cycleTimeP95 p) \<and> sint (cycleTimeP95 (pg_sp E None p)) = 0
    \<and> \<not> wf_path E (pg_sp E None p)"
proof -
  have c: "cycleTimeP95 p = ct" "0 < sint ct"
    using assms(1) by (auto simp: Define_Inr_iff definition_ok_def)
  then have "sint ct sdiv 1000 = 0" using assms(2) by (simp add: signed_divide_int_def)
  then have "sint (cycleTimeP95 (pg_sp E None p)) = 0" by (simp add: pg_sp_def stored_cycle c)
  then show ?thesis using c by (simp add: wf_path_def definition_ok_def)
qed

lemma sub_microsecond_cycle_lost_witness:
  "\<exists>p. Define demo_ext ''p'' ''pp'' False [''pick''] ''Drop'' 500 EligibilityZero 7 = Inr p
     \<and> \<not> wf_path demo_ext (pg_sp demo_ext None p)"
proof -
  obtain p where d: "Define demo_ext ''p'' ''pp'' False [''pick''] ''Drop'' 500 EligibilityZero 7 = Inr p"
    by (simp add: Define_Inr_iff definition_ok_def recognized_role_def role_defs demo_ext_def
        strings_ToLower_def is_ascii_def char_code_def ascii_lower_def less_eq_char_def)
  show ?thesis using sub_microsecond_cycle_lost [OF d] d by simp
qed

text \<open>
  The repository returns the cutoffs in the database's order of their ids and \<open>Revise\<close> compares
  them position by position: a schedule whose cutoffs were given in another order is reported as
  changed, saved and published again, when the very same request is repeated.
\<close>

lemma repeated_schedule_reported_changed:
  assumes "cpt_Define E site tz cs now = Inr s"
    and "sort_key (\<lambda>c. collation_key E (cptId c)) cs \<noteq> cs"
  shows "\<exists>s'. cpt_Revise E (pg_ss E None s) tz cs later = Inr (True, s')"
  using assms by (auto simp: cpt_Define_Inr_iff cpt_Revise_Inr_iff pg_ss_def)

lemma repeated_schedule_reported_changed_witness:
  "\<exists>s s'. cpt_Define demo_ext ''S'' ''UTC'' [sample_cutoff, sample_cutoff\<lparr>cptId := ''CPT-0''\<rparr>] 1 = Inr s
     \<and> cpt_Revise demo_ext (pg_ss demo_ext None s) ''UTC''
         [sample_cutoff, sample_cutoff\<lparr>cptId := ''CPT-0''\<rparr>] 2 = Inr (True, s')"
proof -
  let ?cs = "[sample_cutoff, sample_cutoff\<lparr>cptId := ''CPT-0''\<rparr>]"
  obtain s where s: "cpt_Define demo_ext ''S'' ''UTC'' ?cs 1 = Inr s"
    by (simp add: cpt_Define_Inr_iff schedule_ok_def LoadLocation_def sample_cutoff_def)
  have "sort_key (\<lambda>c. collation_key demo_ext (cptId c)) ?cs \<noteq> ?cs"
    by (simp add: demo_ext_def sample_cutoff_def less_eq_char_def)
  from repeated_schedule_reported_changed [OF s this] s show ?thesis by blast
qed

section \<open>Events\<close>


text \<open>An SDK that knows one event, enough to see the hypotheses hold.\<close>

definition one_event_sdk :: "cloud_event \<Rightarrow> sdk" where
  "one_event_sdk e0 = demo_sdk\<lparr>MarshalJSON := (\<lambda>e. if e = e0 then Inr ''doc'' else Inl (PlainErr ''other'')),
     UnmarshalJSON := (\<lambda>v. if v = ''doc'' then Inr e0 else Inl (PlainErr ''syntax''))\<rparr>"

lemma one_event_sdk_ok: "sdk_ok (one_event_sdk e0)"
  by (simp add: sdk_ok_def one_event_sdk_def demo_sdk_def)


end
