(* ===== verification/Relay.thy ===== *)
theory Relay
  imports PostgresRefine
begin

text \<open>
  The outbox relay (\<open>outbox_relay.go\<close>): one pass claims the oldest unpublished rows in a transaction,
  sends them in order through the Kafka publisher and marks each as published; a failed send ends
  the pass. The state is the sink's and the database's. Another relay's row locks are a parameter
  (\<open>locked\<close>). The loop around it runs for a given number of passes.
\<close>

section \<open>Construction\<close>

text \<open>The options are applied in order over the defaults: a second and a hundred rows.\<close>

record OutboxRelay =
  rl_interval :: duration
  rl_batchSize :: int

type_synonym RelayOption = "OutboxRelay \<Rightarrow> OutboxRelay"

definition WithInterval :: "duration \<Rightarrow> RelayOption" where
  "WithInterval d r = r\<lparr>rl_interval := d\<rparr>"

definition WithBatchSize :: "int \<Rightarrow> RelayOption" where
  "WithBatchSize n r = r\<lparr>rl_batchSize := n\<rparr>"

definition NewOutboxRelay :: "RelayOption list \<Rightarrow> OutboxRelay" where
  "NewOutboxRelay opts = fold (\<lambda>f r. f r) opts \<lparr>rl_interval = 1000000000, rl_batchSize = 100\<rparr>"

section \<open>Statements\<close>

record pending =
  pe_id :: nat
  pe_enc :: Encoded

definition claimed_rows :: "(nat \<Rightarrow> bool) \<Rightarrow> nat \<Rightarrow> oltp \<Rightarrow> outbox_row list" where
  "claimed_rows locked batchSize db = take batchSize (sort_key ob_id
     (filter (\<lambda>r. ob_published_at r = None \<and> \<not> locked (ob_id r)) (t_outbox db)))"

definition row_pending :: "outbox_row \<Rightarrow> pending" where
  "row_pending r = \<lparr>pe_id = ob_id r, pe_enc = row_encoded r\<rparr>"

definition update_row :: "nat \<Rightarrow> (outbox_row \<Rightarrow> outbox_row) \<Rightarrow> (oltp, unit) stmt" where
  "update_row i f db =
     Inr ((), db\<lparr>t_outbox := map (\<lambda>r. if ob_id r = i then f r else r) (t_outbox db)\<rparr>)"

definition mark_published :: "time \<Rightarrow> outbox_row \<Rightarrow> outbox_row" where
  "mark_published at r = r\<lparr>ob_published_at := Some at, ob_attempts := Suc (ob_attempts r),
     ob_last_error := None\<rparr>"

definition record_failure :: "err \<Rightarrow> outbox_row \<Rightarrow> outbox_row" where
  "record_failure e r = r\<lparr>ob_attempts := Suc (ob_attempts r), ob_last_error := Some e\<rparr>"

section \<open>A pass\<close>

type_synonym 'k Sink = "Encoded \<Rightarrow> ('k, unit) io"
type_synonym 'k relay_state = "'k \<times> oltp pg"

text \<open>The branch of a failed \<open>Send\<close>: record the failure, commit, report everything that went wrong.\<close>

definition send_failed :: "pg_env \<Rightarrow> pending \<Rightarrow> err \<Rightarrow> oltp pg \<Rightarrow> err \<times> oltp pg" where
  "send_failed V p e w =
     (let (e1, w1) = (case sql_exec (v_faults V) WithTx (update_row (pe_id p) (record_failure e)) w of
            (Inl u, w1) \<Rightarrow> (JoinErr e (WrapErr ''postgres: record outbox failure'' u), w1)
          | (Inr _, w1) \<Rightarrow> (e, w1));
          (e2, w2) = (case tx_Commit (v_faults V) w1 of
            (Inl c, w2) \<Rightarrow> (JoinErr e1 (WrapErr ''postgres: commit relay pass'' c), w2)
          | (Inr _, w2) \<Rightarrow> (e1, w2))
      in (WrapErr (''outbox relay: send '' @ enc_EventType (pe_enc p) @ '' (row '' @ dec (pe_id p) @ '')'') e2,
          w2))"

fun relay_batch :: "pg_env \<Rightarrow> 'k Sink \<Rightarrow> time \<Rightarrow> nat \<Rightarrow> pending list \<Rightarrow> 'k relay_state
    \<Rightarrow> (nat \<times> err option) \<times> 'k relay_state" where
  "relay_batch V send at n [] (k, w) =
     (case tx_Commit (v_faults V) w of
        (Inl e, w') \<Rightarrow> ((n, if errors_Is e ErrTxClosed then None
                         else Some (WrapErr ''postgres: commit relay pass'' e)), (k, w'))
      | (Inr _, w') \<Rightarrow> ((n, None), (k, w')))"
| "relay_batch V send at n (p # ps) (k, w) =
     (case send (pe_enc p) k of
        (Inl e, k') \<Rightarrow> (case send_failed V p e w of (e', w') \<Rightarrow> ((n, Some e'), (k', w')))
      | (Inr _, k') \<Rightarrow>
          (case sql_exec (v_faults V) WithTx (update_row (pe_id p) (mark_published at)) w of
             (Inl u, w') \<Rightarrow>
               ((n, Some (WrapErr (''postgres: mark outbox row '' @ dec (pe_id p) @ '' published'') u)),
                (k', w'))
           | (Inr _, w') \<Rightarrow> relay_batch V send at (Suc n) ps (k', w')))"

text \<open>\<open>RelayOnce\<close>; the deferred \<open>Rollback\<close> runs on every return after \<open>Begin\<close> succeeded.\<close>

definition RelayOnce :: "pg_env \<Rightarrow> 'k Sink \<Rightarrow> (nat \<Rightarrow> bool) \<Rightarrow> nat \<Rightarrow> time \<Rightarrow> 'k relay_state
    \<Rightarrow> (nat \<times> err option) \<times> 'k relay_state" where
  "RelayOnce V send locked batchSize at s = (case s of (k, w) \<Rightarrow>
     (case pool_Begin (v_faults V) w of
        (Inl e, w1) \<Rightarrow> ((0, Some (WrapErr ''postgres: begin relay pass'' e)), (k, w1))
      | (Inr _, w1) \<Rightarrow>
          (let (res, (k', w')) =
             (case sql_exec (v_faults V) WithTx
                     (\<lambda>db. Inr (map row_pending (claimed_rows locked batchSize db), db)) w1 of
                (Inl e, w2) \<Rightarrow> ((0, Some (WrapErr ''postgres: claim outbox rows'' e)), (k, w2))
              | (Inr batch, w2) \<Rightarrow>
                  (case sql_exec (v_faults V) WithTx (\<lambda>db. Inr ((), db)) w2 of
                     (Inl e, w3) \<Rightarrow> ((0, Some (WrapErr ''postgres: read outbox rows'' e)), (k, w3))
                   | (Inr _, w3) \<Rightarrow> relay_batch V send at 0 batch (k, w3)))
           in (res, (k', snd (tx_Rollback (v_faults V) w'))))))"

text \<open>
  \<open>Run\<close>, for at most as many passes as the first list has: each pass has its instant and its locks,
  and each \<open>select\<close> either sees the context done or waits for the interval.
\<close>

fun relay_Run :: "pg_env \<Rightarrow> 'k Sink \<Rightarrow> nat \<Rightarrow> (time \<times> (nat \<Rightarrow> bool) \<times> bool) list \<Rightarrow> 'k relay_state
    \<Rightarrow> 'k relay_state" where
  "relay_Run V send batchSize [] s = s"
| "relay_Run V send batchSize ((at, locked, cancelled) # ps) s =
     (case RelayOnce V send locked batchSize at s of
        ((n, e), s') \<Rightarrow>
          if n = batchSize \<and> e = None then relay_Run V send batchSize ps s'
          else if cancelled then s'
          else relay_Run V send batchSize ps s')"

section \<open>What the sink promises\<close>

text \<open>
  \<open>kafka.Writer\<close> with \<open>RequireAll\<close>: an acknowledged message is in the topic_log, a message whose write
  reported an error may be.
\<close>

definition message_of :: "Encoded \<Rightarrow> kafka_message" where
  "message_of x = \<lparr>msg_Topic = enc_Topic x, msg_Key = enc_Key x, msg_Value = enc_Value x,
     msg_Headers = [ContentTypeHeader]\<rparr>"

definition writer_ok :: "'k Writer \<Rightarrow> ('k \<Rightarrow> kafka_message list) \<Rightarrow> bool" where
  "writer_ok write topic_log \<longleftrightarrow> (\<forall>m k. case write m k of (Inr _, k') \<Rightarrow> topic_log k' = topic_log k @ [m]
     | (Inl _, k') \<Rightarrow> topic_log k' = topic_log k \<or> topic_log k' = topic_log k @ [m])"

lemma writer_okD: "writer_ok write topic_log \<Longrightarrow> (case write m k of
     (Inr _, k') \<Rightarrow> topic_log k' = topic_log k @ [m]
   | (Inl _, k') \<Rightarrow> topic_log k' = topic_log k \<or> topic_log k' = topic_log k @ [m])"
  by (simp add: writer_ok_def)

lemma send_Inr:
  assumes "writer_ok write topic_log" "Publisher_Send write x k = (Inr u, k')"
  shows "topic_log k' = topic_log k @ [message_of x]"
  using assms(2) writer_okD [OF assms(1), where m = "message_of x" and k = k]
  by (auto simp: Publisher_Send_def message_of_def split: prod.splits sum.splits)

lemma send_Inl:
  assumes "writer_ok write topic_log" "Publisher_Send write x k = (Inl e, k')"
  shows "topic_log k' = topic_log k \<or> topic_log k' = topic_log k @ [message_of x]"
  using assms(2) writer_okD [OF assms(1), where m = "message_of x" and k = k]
  by (auto simp: Publisher_Send_def message_of_def split: prod.splits sum.splits)

section \<open>What a batch does\<close>

text \<open>The rows after the first \<open>ps\<close> were marked, in one go.\<close>

definition marked :: "time \<Rightarrow> nat set \<Rightarrow> oltp \<Rightarrow> oltp" where
  "marked at is db = db\<lparr>t_outbox := map (\<lambda>r. if ob_id r \<in> is then mark_published at r else r)
     (t_outbox db)\<rparr>"

lemma marked_empty [simp]: "marked at {} db = db"
  by (simp add: marked_def)

lemma mark_fields [simp]:
  "ob_id (mark_published at r) = ob_id r" "row_encoded (mark_published at r) = row_encoded r"
  "ob_published_at (mark_published at r) = Some at" "outbox_msg (mark_published at r) = outbox_msg r"
  "ob_event_id (mark_published at r) = ob_event_id r" "outbox_key (mark_published at r) = outbox_key r"
  "ob_id (record_failure e r) = ob_id r" "row_encoded (record_failure e r) = row_encoded r"
  "ob_published_at (record_failure e r) = ob_published_at r"
  "outbox_msg (record_failure e r) = outbox_msg r"
  "ob_event_id (record_failure e r) = ob_event_id r" "outbox_key (record_failure e r) = outbox_key r"
  by (simp_all add: mark_published_def record_failure_def row_encoded_def outbox_msg_def outbox_key_def)

lemma update_marked:
  assumes "i \<notin> is" "update_row i (mark_published at) (marked at is db) = Inr (u, db')"
  shows "db' = marked at (insert i is) db"
  using assms by (auto simp: update_row_def marked_def)

text \<open>
  The three ways a pass can leave the committed database behind: as it was, with a set of rows
  marked, or with these marked and one failure recorded.
\<close>

definition failed_row :: "nat \<Rightarrow> err \<Rightarrow> oltp \<Rightarrow> oltp" where
  "failed_row i e db = db\<lparr>t_outbox := map (\<lambda>r. if ob_id r = i then record_failure e r else r) (t_outbox db)\<rparr>"

lemma send_failed_db:
  assumes "send_failed V p e w = (e', w')" "open_tx w = Some (db, False)"
  shows "committed w' = committed w \<or> committed w' = failed_row (pe_id p) e db"
  using assms
  by (auto simp: send_failed_def sql_exec_def tx_Commit_def tick_def update_row_def failed_row_def Let_def
      split: prod.splits sum.splits option.splits fault.splits bool.splits)

lemma mark_exec:
  assumes "sql_exec F WithTx (update_row i f) w = (r, w')" "open_tx w = Some (db, False)"
  shows "committed w' = committed w"
    and "r = Inr () \<Longrightarrow> open_tx w' = Some (db\<lparr>t_outbox := map (\<lambda>r. if ob_id r = i then f r else r)
           (t_outbox db)\<rparr>, False)"
  using assms by (auto simp: sql_exec_def tick_def update_row_def split: option.splits fault.splits)

text \<open>
  \<open>pgx\<close> reports \<open>ErrTxClosed\<close> only for a transaction the code itself has ended, never for a call that
  failed for another reason.
\<close>

definition closed_only :: "faults \<Rightarrow> bool" where
  "closed_only F \<longleftrightarrow> (\<forall>n e. F n = Some (Refused e) \<or> F n = Some (Ambiguous e) \<longrightarrow>
     \<not> errors_Is e ErrTxClosed)"

definition batch_effect ::
    "('k \<Rightarrow> kafka_message list) \<Rightarrow> time \<Rightarrow> nat set \<Rightarrow> oltp \<Rightarrow> pending list \<Rightarrow> nat \<Rightarrow> err option \<Rightarrow> oltp
     \<Rightarrow> 'k relay_state \<Rightarrow> 'k relay_state \<Rightarrow> bool" where
  "batch_effect topic_log at is db ps m e old s s' \<longleftrightarrow> m \<le> length ps
    \<and> (\<exists>extra. topic_log (fst s') = topic_log (fst s) @ map (message_of \<circ> pe_enc) (take m ps) @ extra
         \<and> (extra = [] \<or> m < length ps \<and> extra = [message_of (pe_enc (ps ! m))]))
    \<and> (e = None \<longrightarrow> m = length ps \<and> committed (snd s') = marked at (is \<union> pe_id ` set ps) db)
    \<and> (committed (snd s') = old \<or> committed (snd s') = marked at (is \<union> pe_id ` set (take m ps)) db
       \<or> m < length ps \<and> (\<exists>er. committed (snd s')
            = failed_row (pe_id (ps ! m)) er (marked at (is \<union> pe_id ` set (take m ps)) db)))"

lemma relay_batch_effect:
  assumes "writer_ok write topic_log" "closed_only (v_faults V)"
    "open_tx w = Some (marked at is db, False)" "distinct (map pe_id ps)" "is \<inter> pe_id ` set ps = {}"
    and "relay_batch V (Publisher_Send write) at n ps (k, w) = ((n', e), s')"
  shows "\<exists>m. n' = n + m \<and> batch_effect topic_log at is db ps m e (committed w) (k, w) s'"
  using assms(3-)
proof (induction ps arbitrary: n k w "is")
  case Nil
  then show ?case using assms(2)
    by (auto simp: batch_effect_def closed_only_def tx_Commit_def tick_def
        split: option.splits fault.splits if_splits)
next
  case (Cons p ps)
  obtain r k1 where snd: "Publisher_Send write (pe_enc p) k = (r, k1)" by fastforce
  show ?case
  proof (cases r)
    case (Inl er)
    obtain e' w' where f: "send_failed V p er w = (e', w')" by fastforce
    have "n' = n" "e = Some e'" "s' = (k1, w')"
      using Cons.prems(4) by (auto simp: snd Inl f)
    then show ?thesis
      using send_Inl [OF assms(1) snd [unfolded Inl]] send_failed_db [OF f Cons.prems(1)]
      by (auto simp: batch_effect_def intro!: exI [of _ 0])
  next
    case (Inr u)
    have l: "topic_log k1 = topic_log k @ [message_of (pe_enc p)]"
      using send_Inr [OF assms(1) snd [unfolded Inr]] .
    obtain r2 w1 where x: "sql_exec (v_faults V) WithTx (update_row (pe_id p) (mark_published at)) w
        = (r2, w1)" by fastforce
    note m = mark_exec [OF x Cons.prems(1)]
    show ?thesis
    proof (cases r2)
      case (Inl ue)
      then show ?thesis
        using Cons.prems(4) l m(1) snd Inr x
        by (auto simp: batch_effect_def intro!: exI [of _ 0])
    next
      case r2: (Inr u2)
      have "pe_id p \<notin> is" using Cons.prems(3) by auto
      then have o: "open_tx w1 = Some (marked at (insert (pe_id p) is) db, False)"
        using m(2) r2 by (auto simp: marked_def)
      obtain k where k: "n' = Suc n + k"
        "batch_effect topic_log at (insert (pe_id p) is) db ps k e (committed w1) (k1, w1) s'"
        using Cons.IH [OF o, of "Suc n" k1] Cons.prems(2-4) snd Inr x r2 by auto
      show ?thesis
        using k l m(1) by (intro exI [of _ "Suc k"]) (auto simp: batch_effect_def)
    qed
  qed
qed

section \<open>What a pass does\<close>

definition batch_of :: "(nat \<Rightarrow> bool) \<Rightarrow> nat \<Rightarrow> oltp \<Rightarrow> pending list" where
  "batch_of locked batchSize db = map row_pending (claimed_rows locked batchSize db)"

lemma row_pending_sel [simp]: "pe_id (row_pending r) = ob_id r" "pe_enc (row_pending r) = row_encoded r"
  by (simp_all add: row_pending_def)

lemma pending_comp [simp]: "message_of \<circ> pe_enc \<circ> row_pending = message_of \<circ> row_encoded"
  by (simp add: fun_eq_iff)

lemma serials_distinct: "serials_ok k db \<Longrightarrow> distinct (map ob_id (t_outbox db))"
  by (auto simp: serials_ok_def strict_sorted_iff)

lemma set_claimed:
  "set (claimed_rows locked b db) \<subseteq> {r \<in> set (t_outbox db). ob_published_at r = None \<and> \<not> locked (ob_id r)}"
  using set_take_subset by (fastforce simp: claimed_rows_def)

lemma claimed_distinct:
  assumes "serials_ok k db"
  shows "distinct (map pe_id (batch_of locked b db))"
proof -
  have "distinct (map ob_id (filter P (t_outbox db)))" for P
    using serials_distinct [OF assms] by (rule distinct_map_filter)
  then have "distinct (map ob_id (sort_key ob_id (filter P (t_outbox db))))" for P
    by (simp add: distinct_map)
  then show ?thesis by (simp add: batch_of_def claimed_rows_def comp_def take_map [symmetric])
qed

lemma claim_exec:
  assumes "sql_exec F WithTx (\<lambda>db. Inr (f db, db)) w = (r, w')" "open_tx w = Some (db, False)"
  shows "committed w' = committed w" "r = Inr x \<Longrightarrow> x = f db \<and> open_tx w' = Some (db, False)"
  using assms by (auto simp: sql_exec_def tick_def split: option.splits fault.splits)

lemma relay_batch_frame:
  assumes "relay_batch V send at n ps (k, w) = (res, (k', w'))"
  shows "ids w' = ids w \<and> calls w \<le> calls w'"
  using assms
proof (induction ps arbitrary: n k w)
  case Nil
  then show ?case using tx_frame [of "v_faults V" w]
    by (auto split: prod.splits sum.splits if_splits)
next
  case (Cons p ps)
  obtain r k1 where snd: "send (pe_enc p) k = (r, k1)" by fastforce
  have x: "ids (snd (sql_exec (v_faults V) WithTx st w)) = ids w"
    "calls w \<le> calls (snd (sql_exec (v_faults V) WithTx st w))" for st :: "(oltp, unit) stmt"
    by (simp_all add: sql_exec_frame)
  have c: "ids (snd (tx_Commit (v_faults V) v)) = ids v" "calls v \<le> calls (snd (tx_Commit (v_faults V) v))" for v
    by (simp_all add: tx_frame)
  have f: "ids v = ids w \<and> calls w \<le> calls v" if "send_failed V p e w = (e', v)" for e e' v
    using that x [of "update_row (pe_id p) (record_failure e)"]
      c [of "snd (sql_exec (v_faults V) WithTx (update_row (pe_id p) (record_failure e)) w)"]
    by (fastforce simp: send_failed_def Let_def split: prod.splits sum.splits)
  show ?case
    using Cons.prems Cons.IH x [of "update_row (pe_id p) (mark_published at)"] snd
    by (auto split: prod.splits sum.splits dest: f) (metis order_trans)+
qed

lemma exec_frameD:
  "sql_exec F c st w = (r, w') \<Longrightarrow> ids w' = ids w \<and> calls w \<le> calls w'"
  using sql_exec_frame [of F c st w] by simp

lemma RelayOnce_effect:
  assumes "writer_ok write topic_log" "closed_only (v_faults V)" "serials_ok j (committed w)"
    and "RelayOnce V (Publisher_Send write) locked b at (k, w) = ((m, e), (k', w'))"
  shows "batch_effect topic_log at {} (committed w) (batch_of locked b (committed w)) m e (committed w)
      (k, w) (k', w')
    \<and> ids w' = ids w \<and> calls w \<le> calls w'
    \<and> (open_tx w' = None \<or> k' = k \<and> committed w' = committed w \<and> open_tx w' = open_tx w)"
proof -
  let ?F = "v_faults V" and ?db = "committed w" and ?ps = "batch_of locked b (committed w)"
  obtain r0 w1 where b0: "pool_Begin ?F w = (r0, w1)" by fastforce
  have f0: "ids w1 = ids w" "calls w \<le> calls w1" using tx_frame(1,4) [of ?F w] b0 by auto
  show ?thesis
  proof (cases r0)
    case (Inl e0)
    then show ?thesis using assms(4) b0 f0
      by (auto simp: RelayOnce_def batch_effect_def pool_Begin_def tick_def
          split: option.splits fault.splits)
  next
    case r0: (Inr u0)
    have w1: "committed w1 = ?db" "open_tx w1 = Some (?db, False)"
      using pool_Begin_Inr [OF b0 [unfolded r0]] by auto
    obtain r1 w2 where b1: "sql_exec ?F WithTx
        (\<lambda>db. Inr (map row_pending (claimed_rows locked b db), db)) w1 = (r1, w2)" by fastforce
    have f1: "ids w2 = ids w" "calls w \<le> calls w2"
      using exec_frameD [OF b1] f0 by auto
    note c1 = claim_exec [OF b1 w1(2)]
    note rb = rollback_frame(1,2,4) and le = order_trans [OF _ rollback_frame(3)]
    show ?thesis
    proof (cases r1)
      case (Inl e1)
      then show ?thesis using assms(4) b0 r0 b1 f1 c1(1) w1(1)
        by (auto simp: RelayOnce_def batch_effect_def rb intro: le)
    next
      case r1: (Inr batch)
      have o2: "batch = ?ps" "open_tx w2 = Some (?db, False)"
        using c1(2) [OF r1] by (auto simp: batch_of_def)
      obtain r2 w3 where b2: "sql_exec ?F WithTx (\<lambda>db. Inr ((), db)) w2 = (r2, w3)" by fastforce
      have f2: "ids w3 = ids w" "calls w \<le> calls w3"
        using exec_frameD [OF b2] f1 by auto
      note c2 = claim_exec [OF b2 o2(2)]
      show ?thesis
      proof (cases r2)
        case (Inl e2)
        then show ?thesis using assms(4) b0 r0 b1 r1 b2 f2 c1(1) c2(1) w1(1)
          by (auto simp: RelayOnce_def batch_effect_def rb intro: le)
      next
        case r2: (Inr u2)
        obtain n e' k3 w4 where b3: "relay_batch V (Publisher_Send write) at 0 batch (k, w3)
            = ((n, e'), (k3, w4))" by (metis prod.collapse)
        have o3: "open_tx w3 = Some (marked at {} ?db, False)" using c2(2) [OF r2] by simp
        have res: "m = n" "e = e'" "k' = k3" "w' = snd (tx_Rollback ?F w4)"
          using assms(4) b0 r0 b1 r1 b2 r2 b3 by (auto simp: RelayOnce_def)
        have "committed w3 = ?db" using c1(1) c2(1) w1(1) by simp
        then show ?thesis
          using relay_batch_effect [OF assms(1,2) o3 _ _ b3] claimed_distinct [OF assms(3)]
            relay_batch_frame [OF b3] f2
          by (auto simp: res o2 batch_effect_def rb intro!: le)
      qed
    qed
  qed
qed

section \<open>The outbox and the topics\<close>

text \<open>
  What holds between the outbox and the broker's log: only committed messages were sent, a row is
  marked as published only after its message was sent, and with a single relay the published rows
  are a prefix of the outbox.
\<close>

definition published_first :: "outbox_row list \<Rightarrow> bool" where
  "published_first rows \<longleftrightarrow> (\<exists>xs ys. rows = xs @ ys \<and> (\<forall>r \<in> set xs. ob_published_at r \<noteq> None)
     \<and> (\<forall>r \<in> set ys. ob_published_at r = None))"

definition relay_ok :: "bool \<Rightarrow> kafka_message list \<Rightarrow> outbox_row list \<Rightarrow> bool" where
  "relay_ok single ms rows \<longleftrightarrow>
     (\<forall>r \<in> set rows. ob_published_at r \<noteq> None \<longrightarrow> message_of (row_encoded r) \<in> set ms)
   \<and> set ms \<subseteq> (message_of \<circ> row_encoded) ` set rows
   \<and> (single \<longrightarrow> published_first rows)"

lemma relay_ok_appended: "appended (relay_ok single ms) db \<Longrightarrow> relay_ok single ms (t_outbox db)"
proof -
  assume "appended (relay_ok single ms) db"
  then obtain base rows where b: "t_outbox db = base @ rows" "relay_ok single ms base"
    "\<forall>r \<in> set rows. ob_published_at r = None" by (auto simp: appended_def)
  have "published_first (base @ rows)" if "published_first base"
  proof -
    obtain xs ys where "base = xs @ ys" "\<forall>r \<in> set xs. ob_published_at r \<noteq> None"
      "\<forall>r \<in> set ys. ob_published_at r = None" using \<open>published_first base\<close> by (auto simp: published_first_def)
    then show ?thesis using b(3)
      unfolding published_first_def by (intro exI [of _ xs] exI [of _ "ys @ rows"]) auto
  qed
  then show ?thesis using b by (auto simp: relay_ok_def)
qed

text \<open>With nothing locked, a batch is the beginning of the unpublished rest.\<close>

lemma claimed_prefix:
  assumes "serials_ok k db" "t_outbox db = xs @ ys" "\<forall>r \<in> set xs. ob_published_at r \<noteq> None"
    "\<forall>r \<in> set ys. ob_published_at r = None"
  shows "claimed_rows (\<lambda>_. False) n db = take n ys"
proof -
  have "filter (\<lambda>r. ob_published_at r = None) (t_outbox db) = ys"
    using assms(2-4) by (simp add: filter_id_conv)
  moreover have "sorted (map ob_id ys)"
    using assms(1,2) by (auto simp: serials_ok_def sorted_wrt_append strict_sorted_iff)
  ultimately show ?thesis by (simp add: claimed_rows_def sort_key_id_if_sorted [of ob_id ys, simplified] sorted_sort_id)
qed

text \<open>How a pass rewritten the rows, whatever it records besides.\<close>

definition rewritten :: "nat set \<Rightarrow> (outbox_row \<Rightarrow> outbox_row) \<Rightarrow> bool" where
  "rewritten is f \<longleftrightarrow> (\<forall>r. ob_id (f r) = ob_id r \<and> row_encoded (f r) = row_encoded r
     \<and> outbox_msg (f r) = outbox_msg r \<and> ob_event_id (f r) = ob_event_id r
     \<and> outbox_key (f r) = outbox_key r
     \<and> (ob_published_at (f r) \<noteq> None \<longleftrightarrow> ob_published_at r \<noteq> None \<or> ob_id r \<in> is))"

lemma rewritten_marked: "rewritten is (\<lambda>r. if ob_id r \<in> is then mark_published at r else r)"
  by (simp add: rewritten_def)

lemma rewritten_failed: "rewritten is f \<Longrightarrow> rewritten is (\<lambda>r. if ob_id (f r) = i then record_failure e (f r) else f r)"
  by (simp add: rewritten_def)

lemma relay_ok_rewrite:
  assumes s: "serials_ok k db" and ok: "relay_ok single ms (t_outbox db)"
    and single: "single \<Longrightarrow> locked = (\<lambda>_. False)" and f: "rewritten is f"
    and is_def: "is = ob_id ` set (take m (claimed_rows locked n db))"
    and ms: "set ms \<subseteq> set ms'" "set ms' \<subseteq> (message_of \<circ> row_encoded) ` set (t_outbox db)"
      "(message_of \<circ> row_encoded) ` set (take m (claimed_rows locked n db)) \<subseteq> set ms'"
  shows "relay_ok single ms' (map f (t_outbox db))"
proof -
  have "message_of (row_encoded r) \<in> set ms'"
    if "r \<in> set (t_outbox db)" "ob_published_at (f r) \<noteq> None" for r
  proof (cases "ob_id r \<in> is")
    case True
    then obtain r' where r': "r' \<in> set (take m (claimed_rows locked n db))" "ob_id r' = ob_id r"
      by (auto simp: is_def)
    then have "r' \<in> set (t_outbox db)" using set_claimed [of locked n db] by (auto dest: in_set_takeD)
    then have "r' = r" using r'(2) that(1) serials_distinct [OF s] by (auto simp: distinct_map inj_on_def)
    then show ?thesis using ms(3) r'(1) by auto
  next
    case False
    then show ?thesis using that f ok ms(1) by (auto simp: rewritten_def relay_ok_def)
  qed
  moreover have "published_first (map f (t_outbox db))" if "single"
  proof -
    obtain xs ys where xy: "t_outbox db = xs @ ys" "\<forall>r \<in> set xs. ob_published_at r \<noteq> None"
      "\<forall>r \<in> set ys. ob_published_at r = None"
      using ok \<open>single\<close> by (auto simp: relay_ok_def published_first_def)
    let ?j = "min m n"
    have i: "is = ob_id ` set (take ?j ys)"
      using claimed_prefix [OF s xy] single \<open>single\<close> by (simp add: is_def)
    have "distinct (map ob_id ys)" using serials_distinct [OF s] xy(1) by simp
    then have "distinct (map ob_id (take ?j ys) @ map ob_id (drop ?j ys))"
      by (simp only: map_append [symmetric] append_take_drop_id)
    then have "ob_id ` set (take ?j ys) \<inter> ob_id ` set (drop ?j ys) = {}"
      by (simp only: distinct_append set_map)
    then have "\<forall>r \<in> set (drop ?j ys). ob_published_at r = None \<and> ob_id r \<notin> is"
      using xy(3) i by (auto dest: in_set_dropD)
    then have "\<forall>r \<in> set (drop ?j ys). ob_published_at (f r) = None"
      using f unfolding rewritten_def by blast
    moreover have "\<forall>r \<in> set (xs @ take ?j ys). ob_published_at (f r) \<noteq> None"
      using f xy(2) i by (auto simp: rewritten_def)
    ultimately show ?thesis
      unfolding published_first_def
      by (intro exI [of _ "map f (xs @ take ?j ys)"] exI [of _ "map f (drop ?j ys)"])
        (auto simp: xy(1) map_append [symmetric] simp del: map_append)
  qed
  moreover have "set ms' \<subseteq> (message_of \<circ> row_encoded) ` set (map f (t_outbox db))"
    using ms(2) f by (force simp: rewritten_def image_iff)
  ultimately show ?thesis using f by (auto simp: relay_ok_def rewritten_def)
qed

lemma batch_effect_rewritten:
  assumes "batch_effect topic_log at {} db ps m e db s s'"
  shows "\<exists>f. rewritten {} f \<and> committed (snd s') = db\<lparr>t_outbox := map f (t_outbox db)\<rparr>
    \<or> rewritten (pe_id ` set (take m ps)) f \<and> committed (snd s') = db\<lparr>t_outbox := map f (t_outbox db)\<rparr>"
proof -
  let ?is = "pe_id ` set (take m ps)"
  let ?g = "\<lambda>r. if ob_id r \<in> ?is then mark_published at r else r"
  have "committed (snd s') = db \<or> committed (snd s') = marked at ?is db
    \<or> (\<exists>i er. committed (snd s') = failed_row i er (marked at ?is db))"
    using assms by (auto simp: batch_effect_def)
  then show ?thesis
  proof (elim disjE exE)
    assume "committed (snd s') = db"
    then show ?thesis by (intro exI [of _ "\<lambda>r. r"]) (simp add: rewritten_def)
  next
    assume "committed (snd s') = marked at ?is db"
    then show ?thesis using rewritten_marked by (intro exI [of _ ?g]) (auto simp: marked_def)
  next
    fix i er assume "committed (snd s') = failed_row i er (marked at ?is db)"
    then show ?thesis using rewritten_failed [OF rewritten_marked]
      by (intro exI [of _ "\<lambda>r. if ob_id (?g r) = i then record_failure er (?g r) else ?g r"])
        (auto simp: marked_def failed_row_def comp_def simp del: mark_fields)
  qed
qed

section \<open>Requests and passes\<close>

lemma outbox_ok_rewrite:
  assumes "outbox_ok V Q n k db" "rewritten is f" "Q' (map f (t_outbox db))"
  shows "outbox_ok V Q' n k (db\<lparr>t_outbox := map f (t_outbox db)\<rparr>)"
proof -
  have "ob_id \<circ> f = ob_id" "outbox_key \<circ> f = outbox_key"
    using assms(2) by (auto simp: rewritten_def)
  then show ?thesis
    using assms by (auto simp: outbox_ok_def ids_used_def serials_ok_def rewritten_def intro!: appended_self)
qed

lemma view_rewrite:
  assumes "rewritten is f"
  shows "oltp_view E (db\<lparr>t_outbox := map f (t_outbox db)\<rparr>) = oltp_view E db"
  using assms
  by (simp add: oltp_view_def schedule_of_row_def [abs_def] cutoffs_query_def rewritten_def)

lemma pg_keepsD:
  assumes "pg_keeps V (relay_ok single ms) w"
  shows "outbox_ok V (relay_ok single ms) (ids w) (calls w) (committed w)"
    "serials_ok (calls w) (committed w)" "relay_ok single ms (t_outbox (committed w))"
  using assms relay_ok_appended by (auto simp: pg_keeps_def both_def outbox_ok_def)

lemma pass_keeps:
  assumes "writer_ok write topic_log" "closed_only (v_faults V)"
    and inv: "pg_keeps V (relay_ok single (topic_log k)) w"
    and single: "single \<Longrightarrow> locked = (\<lambda>_. False)"
    and run: "RelayOnce V (Publisher_Send write) locked b at (k, w) = ((m, e), (k', w'))"
  shows "pg_keeps V (relay_ok single (topic_log k')) w' \<and> pg_view V Background w' = pg_view V Background w"
proof -
  let ?db = "committed w" and ?rows = "claimed_rows locked b (committed w)"
  note o = pg_keepsD [OF inv]
  note eff = RelayOnce_effect [OF assms(1,2) o(2) run]
  then have be: "batch_effect topic_log at {} ?db (batch_of locked b ?db) m e ?db (k, w) (k', w')" by blast
  show ?thesis
  proof (cases "open_tx w' = None")
    case False
    then show ?thesis using eff inv
      by (auto simp: pg_keeps_def both_def pg_view_def seen_def intro: outbox_ok_mono)
  next
    case True
    obtain extra where l: "topic_log k' = topic_log k @ map (message_of \<circ> row_encoded) (take m ?rows) @ extra"
      "extra = [] \<or> m < length ?rows \<and> extra = [message_of (row_encoded (?rows ! m))]"
      using be by (auto simp: batch_effect_def batch_of_def take_map)
    have sub: "set ?rows \<subseteq> set (t_outbox ?db)" using set_claimed [of locked b ?db] by auto
    have ms: "set (topic_log k) \<subseteq> set (topic_log k')"
      "set (topic_log k') \<subseteq> (message_of \<circ> row_encoded) ` set (t_outbox ?db)"
      "(message_of \<circ> row_encoded) ` set (take m ?rows) \<subseteq> set (topic_log k')"
      using l sub o(3) nth_mem [of m ?rows]
      by (auto simp: relay_ok_def dest: in_set_takeD intro!: imageI subsetD [OF sub])
    obtain f "is" where f: "rewritten is f" "committed w' = ?db\<lparr>t_outbox := map f (t_outbox ?db)\<rparr>"
      "is = {} \<or> is = pe_id ` set (take m (batch_of locked b ?db))"
      using batch_effect_rewritten [OF be] by auto
    have "is = ob_id ` set (take (if is = {} then 0 else m) ?rows)"
      using f(3) by (auto simp: batch_of_def take_map image_image)
    then have "relay_ok single (topic_log k') (map f (t_outbox ?db))"
      using relay_ok_rewrite [OF o(2,3) single f(1), of "if is = {} then 0 else m" b "topic_log k'"] ms
      by (auto split: if_splits)
    from outbox_ok_rewrite [where Q' = "relay_ok single (topic_log k')", OF o(1) f(1) this]
    show ?thesis
      using inv True eff view_rewrite [OF f(1)] f(2)
      by (auto simp: pg_keeps_def both_def pg_view_def seen_def intro: outbox_ok_mono)
  qed
qed

text \<open>Requests and relay passes of one process, in the order they happen.\<close>

datatype relay_op = Serve request | Pass time "nat \<Rightarrow> bool" nat

fun relay_do :: "pg_env \<Rightarrow> 'k Writer \<Rightarrow> relay_op \<Rightarrow> 'k relay_state \<Rightarrow> 'k relay_state" where
  "relay_do V write (Serve r) (k, w) = (k, serve (v_ext V) (pg_deps V) r w)"
| "relay_do V write (Pass at locked n) s = snd (RelayOnce V (Publisher_Send write) locked n at s)"

definition relay_all :: "pg_env \<Rightarrow> 'k Writer \<Rightarrow> relay_op list \<Rightarrow> 'k relay_state \<Rightarrow> 'k relay_state" where
  "relay_all V write ops s = fold (relay_do V write) ops s"

definition alone :: "relay_op \<Rightarrow> bool" where
  "alone p = (case p of Serve _ \<Rightarrow> True | Pass _ locked _ \<Rightarrow> locked = (\<lambda>_. False))"

lemma relay_do_keeps:
  assumes "writer_ok write topic_log" "closed_only (v_faults V)"
    and "pg_keeps V (relay_ok single (topic_log k)) w" "single \<Longrightarrow> alone p"
    and "relay_do V write p (k, w) = (k', w')"
  shows "pg_keeps V (relay_ok single (topic_log k')) w'
    \<and> cat_steps (v_ext V) (pg_sp (v_ext V)) (pg_ss (v_ext V)) (outbox_emit V)
        (pg_view V Background w) (pg_view V Background w')"
proof (cases p)
  case (Serve r)
  then show ?thesis
    using assms(5) pg_atomic.serve_atomic [OF assms(3), of "v_ext V" r]
    by (auto simp: pg_atomic.one_step_def)
next
  case (Pass at locked n)
  obtain m e where "RelayOnce V (Publisher_Send write) locked n at (k, w) = ((m, e), (k', w'))"
    using assms(5) by (cases "RelayOnce V (Publisher_Send write) locked n at (k, w)") (auto simp: Pass)
  from pass_keeps [OF assms(1-3) _ this] show ?thesis using assms(4) by (auto simp: Pass alone_def)
qed

lemma relay_all_keeps:
  assumes "writer_ok write topic_log" "closed_only (v_faults V)"
    and "pg_keeps V (relay_ok single (topic_log k)) w" "single \<Longrightarrow> list_all alone ops"
    and "relay_all V write ops (k, w) = (k', w')"
  shows "pg_keeps V (relay_ok single (topic_log k')) w'
    \<and> cat_steps (v_ext V) (pg_sp (v_ext V)) (pg_ss (v_ext V)) (outbox_emit V)
        (pg_view V Background w) (pg_view V Background w')"
  using assms(3-)
proof (induction ops arbitrary: k w)
  case (Cons p ops)
  obtain k1 w1 where s: "relay_do V write p (k, w) = (k1, w1)" by fastforce
  have one: "pg_keeps V (relay_ok single (topic_log k1)) w1"
    "cat_steps (v_ext V) (pg_sp (v_ext V)) (pg_ss (v_ext V)) (outbox_emit V)
       (pg_view V Background w) (pg_view V Background w1)"
    using relay_do_keeps [OF assms(1,2) Cons.prems(1) _ s] Cons.prems(2) by auto
  have "relay_all V write ops (k1, w1) = (k', w')" using Cons.prems(3) s by (simp add: relay_all_def)
  from Cons.IH [OF one(1) _ this] Cons.prems(2) one(2) show ?case by (auto intro: rtranclp_trans)
qed (simp add: relay_all_def)

section \<open>Draining\<close>

definition unpublished :: "oltp \<Rightarrow> outbox_row list" where
  "unpublished db = filter (\<lambda>r. ob_published_at r = None) (t_outbox db)"

definition acks_all :: "'k Writer \<Rightarrow> bool" where
  "acks_all write \<longleftrightarrow> (\<forall>m k. \<exists>k'. write m k = (Inr (), k'))"

lemma send_acked: "acks_all write \<Longrightarrow> \<exists>k'. Publisher_Send write x k = (Inr (), k')"
  unfolding acks_all_def Publisher_Send_def by (metis (no_types, lifting) old.sum.simps(6) prod.case)

lemma relay_batch_quiet:
  assumes "acks_all write" "v_faults V = (\<lambda>_. None)" "open_tx w = Some (db, False)"
  shows "fst (relay_batch V (Publisher_Send write) at n ps (k, w)) = (n + length ps, None)"
  using assms(3)
proof (induction ps arbitrary: n k w db)
  case Nil
  then show ?case using assms(2) by (simp add: tx_Commit_def)
next
  case (Cons p ps)
  obtain k1 where "Publisher_Send write (pe_enc p) k = (Inr (), k1)"
    using send_acked [OF assms(1)] by blast
  then show ?case using Cons assms(2) by (simp add: sql_exec_def update_row_def)
qed

lemma RelayOnce_quiet:
  assumes "acks_all write" "v_faults V = (\<lambda>_. None)"
  shows "fst (RelayOnce V (Publisher_Send write) locked b at (k, w))
    = (length (claimed_rows locked b (committed w)), None)"
proof -
  have "fst (let (res, s') = relay_batch V (Publisher_Send write) at 0 ps (k, v) in (res, g s'))
      = (length ps, None)" if "open_tx v = Some (db, False)" for ps v db and g :: "'a relay_state \<Rightarrow> 'b"
    using relay_batch_quiet [OF assms that, of at 0 ps k] by (simp add: case_prod_beta)
  then show ?thesis
    using assms(2)
    by (auto simp: RelayOnce_def pool_Begin_def sql_exec_def case_prod_beta Let_def relay_batch_quiet [OF assms])
qed

lemma filter_not_taken:
  assumes "distinct (map f xs)"
  shows "filter (\<lambda>x. f x \<notin> f ` set (take n xs)) xs = drop n xs"
proof -
  have "distinct (map f (take n xs) @ map f (drop n xs))"
    using assms by (simp only: map_append [symmetric] append_take_drop_id)
  then have d: "f ` set (take n xs) \<inter> f ` set (drop n xs) = {}" by (simp only: distinct_append set_map)
  have "filter (\<lambda>x. f x \<notin> f ` set (take n xs)) (take n xs @ drop n xs) = drop n xs"
    using d by (auto simp: filter_empty_conv filter_id_conv simp del: append_take_drop_id)
  then show ?thesis by simp
qed

lemma claimed_unlocked:
  assumes "serials_ok j db"
  shows "claimed_rows (\<lambda>_. False) b db = take b (unpublished db)"
proof -
  have "sorted (map ob_id (unpublished db))"
    using assms by (auto simp: serials_ok_def strict_sorted_iff unpublished_def intro: sorted_filter)
  then show ?thesis by (simp add: claimed_rows_def unpublished_def sort_key_id_if_sorted)
qed

lemma unpublished_marked:
  assumes "serials_ok j db" "is = ob_id ` set (take b (unpublished db))"
  shows "unpublished (marked at is db) = drop b (unpublished db)"
proof -
  have "unpublished (marked at is db) = filter (\<lambda>r. ob_id r \<notin> is) (unpublished db)"
  proof -
    have "filter (\<lambda>r. ob_published_at r = None) (map (\<lambda>r. if ob_id r \<in> is then mark_published at r else r) rs)
      = filter (\<lambda>r. ob_id r \<notin> is) (filter (\<lambda>r. ob_published_at r = None) rs)" for rs
      by (induction rs) auto
    then show ?thesis by (simp add: unpublished_def marked_def)
  qed
  moreover have "distinct (map ob_id (unpublished db))"
    using serials_distinct [OF assms(1)] by (simp add: unpublished_def distinct_map_filter)
  ultimately show ?thesis using filter_not_taken [of ob_id "unpublished db" b] assms(2) by simp
qed

lemma serials_marked: "serials_ok j db \<Longrightarrow> serials_ok j (marked at is db)"
proof -
  let ?f = "\<lambda>r. if ob_id r \<in> is then mark_published at r else r"
  have "ob_id \<circ> ?f = ob_id" "outbox_key \<circ> ?f = outbox_key" by auto
  then show "serials_ok j db \<Longrightarrow> serials_ok j (marked at is db)" by (auto simp: serials_ok_def marked_def)
qed

lemma RelayOnce_drains:
  assumes "writer_ok write topic_log" "acks_all write" "v_faults V = (\<lambda>_. None)"
    "serials_ok j (committed w)"
    and run: "RelayOnce V (Publisher_Send write) (\<lambda>_. False) b at (k, w) = (res, (k', w'))"
  shows "topic_log k' = topic_log k @ map (message_of \<circ> row_encoded) (take b (unpublished (committed w)))
    \<and> unpublished (committed w') = drop b (unpublished (committed w)) \<and> serials_ok j (committed w')"
proof -
  let ?db = "committed w"
  have c: "claimed_rows (\<lambda>_. False) b ?db = take b (unpublished ?db)" by (rule claimed_unlocked [OF assms(4)])
  have res: "res = (length (take b (unpublished ?db)), None)"
    using RelayOnce_quiet [OF assms(2,3), of "\<lambda>_. False" b at k w] run c by simp
  have "closed_only (v_faults V)" using assms(3) by (simp add: closed_only_def)
  from RelayOnce_effect [OF assms(1) this assms(4) run [unfolded res]]
  have "topic_log k' = topic_log k @ map (message_of \<circ> row_encoded) (take b (unpublished ?db))"
    "committed w' = marked at (ob_id ` set (take b (unpublished ?db))) ?db"
    by (auto simp: batch_effect_def batch_of_def c image_image)
  then show ?thesis using unpublished_marked [OF assms(4) refl] serials_marked [OF assms(4)] by simp
qed

lemma relay_Run_drains:
  assumes "writer_ok write topic_log" "acks_all write" "v_faults V = (\<lambda>_. None)"
    "serials_ok j (committed w)" "\<forall>(at, locked, cancelled) \<in> set ps. locked = (\<lambda>_. False) \<and> \<not> cancelled"
    and "relay_Run V (Publisher_Send write) b ps (k, w) = (k', w')"
  shows "topic_log k' = topic_log k @ map (message_of \<circ> row_encoded) (take (length ps * b) (unpublished (committed w)))
    \<and> unpublished (committed w') = drop (length ps * b) (unpublished (committed w))"
  using assms(4-)
proof (induction ps arbitrary: k w)
  case (Cons p ps)
  obtain at locked c where p: "p = (at, locked, c)" by (cases p)
  then have l: "locked = (\<lambda>_. False)" "\<not> c" using Cons.prems(2) by auto
  obtain res k1 w1 where run: "RelayOnce V (Publisher_Send write) (\<lambda>_. False) b at (k, w) = (res, (k1, w1))"
    by (metis prod.collapse)
  note one = RelayOnce_drains [OF assms(1-3) Cons.prems(1) run]
  have "relay_Run V (Publisher_Send write) b ps (k1, w1) = (k', w')"
    using Cons.prems(3) run l by (cases res) (simp add: p split: if_splits)
  from Cons.IH [OF _ _ this] one Cons.prems(2) show ?case
    by (simp add: take_add drop_drop add.commute)
qed simp

end
