(* ===== verification/RelayClaims.thy ===== *)
theory RelayClaims
  imports AppClaims Relay
begin

text \<open>
  The properties of the outbox relay, alone and together with the requests of the service, with
  their witnesses over a small outbox and two brokers.
\<close>

section \<open>Concrete brokers and rows\<close>

definition demo_write :: "kafka_message list Writer" where
  "demo_write m ms = (Inr (), ms @ [m])"

text \<open>Every second write reports an error.\<close>

definition flaky_write :: "(nat \<times> kafka_message list) Writer" where
  "flaky_write m k = (case k of (n, ms) \<Rightarrow>
     if odd n then (Inl (PlainErr ''leader not available''), (Suc n, ms)) else (Inr (), (Suc n, ms @ [m])))"

lemma demo_write_ok: "writer_ok demo_write id" "acks_all demo_write"
  by (simp_all add: writer_ok_def acks_all_def demo_write_def)

lemma flaky_write_ok: "writer_ok flaky_write snd"
  by (auto simp: writer_ok_def flaky_write_def)

definition demo_row :: "nat \<Rightarrow> string \<Rightarrow> outbox_row" where
  "demo_row i x = \<lparr>ob_id = i, ob_event_id = x, ob_event_type = TypeProcessPathCreated,
     ob_aggregate_id = ''pick-pack'', ob_payload = x, ob_occurred_at = 0, ob_topic = Topic,
     ob_published_at = None, ob_attempts = 0, ob_last_error = None\<rparr>"

definition two_rows :: "oltp pg" where
  "two_rows = pg_init\<lparr>committed := empty_oltp\<lparr>t_outbox := [demo_row 3 ''a'', demo_row 5 ''b'']\<rparr>\<rparr>"

lemma two_rows_serials: "serials_ok 6 (committed two_rows)"
  by (simp add: serials_ok_def two_rows_def demo_row_def outbox_key_def)

section \<open>Properties\<close>

text \<open>
  C3. The outbox pattern as a whole: from the empty database and an empty broker, after any requests
  and relay passes in any order, whatever database calls fail, whatever writes fail and whatever
  rows another relay holds, a row is marked as published only when its message is in the broker's
  log, the log holds only messages of committed outbox rows, the outbox still tells exactly the
  stored paths (so every committed event is in the log or still waiting), and when no other relay
  runs the published rows are the oldest ones.
\<close>

theorem relay_history:
  assumes "inj (v_id V)" "v_encoders V = [Encode S, AnalyticsEncoder_Encode S]"
    and "writer_ok write topic_log" "closed_only (v_faults V)" "topic_log k0 = []"
  shows "case relay_all V write ops (k0, pg_init) of (k, w) \<Rightarrow>
     (\<forall>r \<in> set (t_outbox (committed w)). ob_published_at r \<noteq> None \<longrightarrow>
        message_of (row_encoded r) \<in> set (topic_log k))
   \<and> set (topic_log k) \<subseteq> (message_of \<circ> row_encoded) ` set (t_outbox (committed w))
   \<and> (list_all alone ops \<longrightarrow> published_first (t_outbox (committed w)))
   \<and> (\<exists>evs. told (outbox_emit V) (pg_view V Background w) evs)"
proof -
  obtain k w where run: "relay_all V write ops (k0, pg_init) = (k, w)" by fastforce
  have i: "pg_keeps V (relay_ok single (topic_log k0)) pg_init" for single
    using pg_inv_init [OF assms(1,2)] assms(5)
    by (auto simp: pg_keeps_def both_def outbox_ok_def pg_init_def empty_oltp_def relay_ok_def
        published_first_def intro!: appended_self)
  note k = relay_all_keeps [OF assms(3,4) i _ run]
  have "relay_ok (list_all alone ops) (topic_log k) (t_outbox (committed w))"
    using k [of "list_all alone ops"] pg_keepsD(3) by blast
  moreover obtain evs where "told (outbox_emit V) (pg_view V Background w) evs"
    using pg_storage.steps_told [OF conjunct2 [OF k [of False]], unfolded pg_view_init,
        OF _ empty_catalogue_ok(1) empty_catalogue_ok(3)] by auto
  ultimately show ?thesis by (auto simp: run relay_ok_def)
qed

lemma relay_history_witness:
  "case relay_all (demo_env third_call_fails) flaky_write
      [Serve define_pick_pack, Pass 1 (\<lambda>_. False) 100, Serve define_pick_pack, Pass 2 (\<lambda>_. False) 100]
      ((1, []), pg_init) of (k, w) \<Rightarrow> published_first (t_outbox (committed w))"
proof -
  have "closed_only (v_faults (demo_env third_call_fails))"
    by (simp add: closed_only_def third_call_fails_def ErrTxClosed_def)
  from relay_history [OF _ demo_env_sel(6) flaky_write_ok this, of "(1, [])"
      "[Serve define_pick_pack, Pass 1 (\<lambda>_. False) 100, Serve define_pick_pack, Pass 2 (\<lambda>_. False) 100]"]
  show ?thesis by (simp add: demo_id_inj alone_def case_prod_beta)
qed

text \<open>
  C19. One pass: the batch is at most \<open>batchSize\<close> of the unpublished rows no other relay holds, by
  ascending id. The messages of the first \<open>n\<close> rows of it, \<open>n\<close> being the count the pass returns, are
  written in that order, and at most one write more was tried, which may or may not have arrived;
  when the pass returns no error the whole batch was written and exactly its rows are marked.
\<close>

theorem relay_pass:
  assumes "writer_ok write topic_log" "closed_only (v_faults V)" "serials_ok j (committed w)"
    and "RelayOnce V (Publisher_Send write) locked b at (k, w) = ((n, e), (k', w'))"
  shows "let batch = claimed_rows locked b (committed w) in
      length batch \<le> b \<and> sorted (map ob_id batch)
    \<and> set batch \<subseteq> {r \<in> set (t_outbox (committed w)). ob_published_at r = None \<and> \<not> locked (ob_id r)}
    \<and> n \<le> length batch
    \<and> (\<exists>extra. topic_log k' = topic_log k @ map (message_of \<circ> row_encoded) (take n batch) @ extra
         \<and> (extra = [] \<or> n < length batch \<and> extra = [message_of (row_encoded (batch ! n))]))
    \<and> (e = None \<longrightarrow> n = length batch \<and> committed w' = marked at (ob_id ` set batch) (committed w))"
proof -
  have "sorted (map ob_id (claimed_rows locked b (committed w)))"
    by (simp add: claimed_rows_def take_map [symmetric] sorted_wrt_take)
  moreover have "length (claimed_rows locked b (committed w)) \<le> b" by (simp add: claimed_rows_def)
  ultimately show ?thesis
    using conjunct1 [OF RelayOnce_effect [OF assms]] set_claimed [of locked b "committed w"]
    by (auto simp: batch_effect_def batch_of_def Let_def take_map image_image)
qed

lemma relay_pass_witness:
  "\<exists>n e k' w'. RelayOnce (demo_env no_faults) (Publisher_Send demo_write) (\<lambda>i. i = 5) 100 7 ([], two_rows)
      = ((n, e), (k', w')) \<and> n \<le> 1"
proof -
  obtain n e k' w' where run: "RelayOnce (demo_env no_faults) (Publisher_Send demo_write) (\<lambda>i. i = 5) 100 7
      ([], two_rows) = ((n, e), (k', w'))" by (metis prod.collapse)
  have "closed_only (v_faults (demo_env no_faults))" by (simp add: closed_only_def no_faults_def)
  from relay_pass [OF demo_write_ok(1) this two_rows_serials run] run show ?thesis
    by (auto simp: Let_def claimed_rows_def two_rows_def demo_row_def)
qed

text \<open>
  C20. Nothing waits forever: while calls succeed, \<open>Run\<close> drains the outbox. After enough passes to
  cover the unpublished rows, every row is published and exactly their messages were appended to
  the broker's log, once each and in the order of the outbox.
\<close>

theorem relay_drains:
  assumes "writer_ok write topic_log" "acks_all write" "v_faults V = (\<lambda>_. None)"
    and "serials_ok j (committed w)" "length (unpublished (committed w)) \<le> passes * b"
    and "relay_Run V (Publisher_Send write) b (replicate passes (at, (\<lambda>_. False), False)) (k, w) = (k', w')"
  shows "unpublished (committed w') = []
    \<and> topic_log k' = topic_log k @ map (message_of \<circ> row_encoded) (unpublished (committed w))"
  using relay_Run_drains [OF assms(1-4) _ assms(6)] assms(5) by simp

lemma relay_drains_witness:
  "\<exists>k' w'. relay_Run (demo_env (\<lambda>_. None)) (Publisher_Send demo_write) 1
      (replicate 2 (7, (\<lambda>_. False), False)) ([], two_rows) = (k', w')
    \<and> unpublished (committed w') = [] \<and> map msg_Value k' = [''a'', ''b'']"
proof -
  obtain k' w' where run: "relay_Run (demo_env (\<lambda>_. None)) (Publisher_Send demo_write) 1
      (replicate 2 (7, (\<lambda>_. False), False)) ([], two_rows) = (k', w')" by fastforce
  have u: "unpublished (committed two_rows) = [demo_row 3 ''a'', demo_row 5 ''b'']"
    by (simp add: unpublished_def two_rows_def demo_row_def)
  from relay_drains [OF demo_write_ok _ two_rows_serials _ run] run show ?thesis
    by (simp add: u message_of_def row_encoded_def demo_row_def)
qed

text \<open>The fifth call of the process, marking the second row of the batch, loses its connection.\<close>

definition fifth_call_fails :: faults where
  "fifth_call_fails n = (if n = 4 then Some (Refused (PlainErr ''conn closed'')) else None)"

text \<open>
  The returned count is not what was committed: when marking the second row of a batch fails,
  the pass reports one published row, but both messages were written and no row is marked, so both
  are sent again by the next pass, the acknowledged first one included.
\<close>

lemma relay_count_overstated:
  "case RelayOnce (demo_env fifth_call_fails) (Publisher_Send demo_write) (\<lambda>_. False) 100 7 ([], two_rows) of
     ((n, e), (k, w)) \<Rightarrow> n = 1 \<and> e \<noteq> None \<and> map msg_Value k = [''a'', ''b''] \<and> committed w = committed two_rows"
  by (simp add: RelayOnce_def two_rows_def pg_init_def pool_Begin_def fifth_call_fails_def tick_def
      sql_exec_def claimed_rows_def demo_row_def row_pending_def row_encoded_def Publisher_Send_def
      demo_write_def update_row_def mark_published_def tx_Rollback_def empty_oltp_def)

end
