(* ===== verification/Url.thy ===== *)
theory Url
  imports GoText
begin

text \<open>
  Query strings as \<open>net/url\<close> writes and reads them: \<open>QueryEscape\<close>, \<open>Values.Encode\<close> and the parser
  behind \<open>URL.Query\<close>. The values of a request are the pairs of its query in order.
\<close>

fun strings_Split :: "char \<Rightarrow> string \<Rightarrow> string list" where
  "strings_Split sep [] = ['''']"
| "strings_Split sep (c # cs) =
     (if c = sep then [] # strings_Split sep cs
      else (case strings_Split sep cs of [] \<Rightarrow> [[c]] | x # xs \<Rightarrow> (c # x) # xs))"

text \<open>\<open>strings.Cut\<close>: what is before and after the first separator; all of it when there is none.\<close>

definition strings_Cut :: "char \<Rightarrow> string \<Rightarrow> string \<times> string" where
  "strings_Cut sep s = (takeWhile (\<lambda>c. c \<noteq> sep) s, drop 1 (dropWhile (\<lambda>c. c \<noteq> sep) s))"

section \<open>Escaping\<close>

text \<open>The character ranges by code: digits from 48, capitals from 65, small letters from 97.\<close>

definition unreserved :: "char \<Rightarrow> bool" where
  "unreserved c = (let n = char_code c in 97 \<le> n \<and> n \<le> 122 \<or> 65 \<le> n \<and> n \<le> 90 \<or> 48 \<le> n \<and> n \<le> 57
     \<or> c = CHR ''-'' \<or> c = CHR ''_'' \<or> c = CHR ''.'' \<or> c = CHR ''~'')"

definition hex_digit :: "nat \<Rightarrow> char" where
  "hex_digit n = (if n < 10 then char_of (48 + n) else char_of (55 + n))"

definition unhex :: "char \<Rightarrow> nat option" where
  "unhex c = (let n = char_code c in
     if 48 \<le> n \<and> n \<le> 57 then Some (n - 48)
     else if 97 \<le> n \<and> n \<le> 102 then Some (n - 87)
     else if 65 \<le> n \<and> n \<le> 70 then Some (n - 55) else None)"

definition escape_char :: "char \<Rightarrow> string" where
  "escape_char c = (if c = CHR '' '' then ''+'' else if unreserved c then [c]
     else [CHR ''%'', hex_digit (char_code c div 16), hex_digit (char_code c mod 16)])"

definition QueryEscape :: "string \<Rightarrow> string" where
  "QueryEscape s = concat (map escape_char s)"

fun QueryUnescape :: "string \<Rightarrow> string option" where
  "QueryUnescape [] = Some []"
| "QueryUnescape (c # cs) =
     (if c = CHR ''%'' then
        (case cs of a # b # rest \<Rightarrow>
           (case (unhex a, unhex b) of
              (Some x, Some y) \<Rightarrow> map_option (Cons (char_of (16 * x + y))) (QueryUnescape rest)
            | _ \<Rightarrow> None)
         | _ \<Rightarrow> None)
      else map_option (Cons (if c = CHR ''+'' then CHR '' '' else c)) (QueryUnescape cs))"

section \<open>Values\<close>

definition encode_pair :: "string \<times> string \<Rightarrow> string" where
  "encode_pair = (\<lambda>(k, v). QueryEscape k @ ''='' @ QueryEscape v)"

text \<open>\<open>Values.Encode\<close> of values with one entry per key, in the order of the sorted keys.\<close>

fun join_with :: "string \<Rightarrow> string list \<Rightarrow> string" where
  "join_with sep [] = ''''"
| "join_with sep [x] = x"
| "join_with sep (x # xs) = x @ sep @ join_with sep xs"

definition Values_Encode :: "(string \<times> string) list \<Rightarrow> string" where
  "Values_Encode vals = join_with ''&'' (map encode_pair (sort_key fst vals))"

text \<open>A pair with a semicolon, without a key or with a broken escape is dropped.\<close>

definition parse_pair :: "string \<Rightarrow> (string \<times> string) list" where
  "parse_pair s =
     (if CHR '';'' \<in> set s \<or> s = '''' then []
      else case strings_Cut CHR ''='' s of (k, v) \<Rightarrow>
        (case (QueryUnescape k, QueryUnescape v) of (Some k', Some v') \<Rightarrow> [(k', v')] | _ \<Rightarrow> []))"

definition ParseQuery :: "string \<Rightarrow> (string \<times> string) list" where
  "ParseQuery q = concat (map parse_pair (strings_Split CHR ''&'' q))"

definition Values_all :: "string \<Rightarrow> (string \<times> string) list \<Rightarrow> string list" where
  "Values_all name vals = map snd (filter (\<lambda>(k, v). k = name) vals)"

definition Values_Get :: "string \<Rightarrow> (string \<times> string) list \<Rightarrow> string" where
  "Values_Get name vals = (case Values_all name vals of [] \<Rightarrow> '''' | v # _ \<Rightarrow> v)"

section \<open>What is encoded is read back\<close>

lemma code_hex: "n < 16 \<Longrightarrow> char_code (hex_digit n) = (if n < 10 then 48 + n else 55 + n)"
  by (simp add: char_code_def hex_digit_def of_char_of)

lemma separators: "char_code (CHR ''&'') = 38" "char_code (CHR ''='') = 61" "char_code (CHR '';'') = 59"
    "char_code (CHR ''%'') = 37" "char_code (CHR ''+'') = 43"
  by (simp_all add: char_code_def)

lemma hex_digit_props:
  assumes "n < 16"
  shows "unhex (hex_digit n) = Some n" "hex_digit n \<notin> {CHR ''&'', CHR ''='', CHR '';''}"
  using code_hex [OF assms] assms separators
  by (auto simp: unhex_def Let_def split: if_splits)

lemma reserved: "\<not> unreserved (CHR ''&'')" "\<not> unreserved (CHR ''='')" "\<not> unreserved (CHR '';'')"
    "\<not> unreserved (CHR ''%'')" "\<not> unreserved (CHR ''+'')"
  by (simp_all add: unreserved_def separators Let_def)

lemma code_halves: "char_code c div 16 < 16" "char_code c mod 16 < 16"
  by (simp_all add: char_code_def less_mult_imp_div_less)

lemma escape_char_props:
  "x \<in> set (escape_char c) \<Longrightarrow> x \<notin> {CHR ''&'', CHR ''='', CHR '';''}"
  "unreserved c \<Longrightarrow> c \<noteq> CHR ''%'' \<and> c \<noteq> CHR ''+''"
  using hex_digit_props(2) [OF code_halves(1)] hex_digit_props(2) [OF code_halves(2)] reserved
  by (auto simp: escape_char_def split: if_splits)

lemma QueryUnescape_escape: "QueryUnescape (QueryEscape s) = Some s"
proof (induction s)
  case (Cons c s)
  have c: "16 * (char_code c div 16) + char_code c mod 16 = char_code c" by simp
  show ?case
    using Cons escape_char_props(2) [of c]
    by (auto simp: QueryEscape_def escape_char_def hex_digit_props(1) code_halves c) (simp add: char_code_def)
qed (simp add: QueryEscape_def)

lemma QueryEscape_chars: "x \<in> set (QueryEscape s) \<Longrightarrow> x \<notin> {CHR ''&'', CHR ''='', CHR '';''}"
  using escape_char_props(1) by (fastforce simp: QueryEscape_def)

lemma Split_none: "sep \<notin> set s \<Longrightarrow> strings_Split sep s = [s]"
  by (induction s) auto

lemma Split_append: "sep \<notin> set s \<Longrightarrow> strings_Split sep (s @ sep # t) = s # strings_Split sep t"
  by (induction s) auto

lemma Split_join: "xs \<noteq> [] \<Longrightarrow> (\<And>x. x \<in> set xs \<Longrightarrow> sep \<notin> set x) \<Longrightarrow> strings_Split sep (join_with [sep] xs) = xs"
  by (induction "[sep]" xs rule: join_with.induct) (simp_all add: Split_none Split_append)

lemma Cut_append: "sep \<notin> set s \<Longrightarrow> strings_Cut sep (s @ sep # t) = (s, t)"
  by (induction s) (auto simp: strings_Cut_def)

lemma parse_encode_pair: "parse_pair (encode_pair p) = [p]"
proof -
  obtain k v where p: "p = (k, v)" by (cases p)
  have "CHR '';'' \<notin> set (encode_pair p)" "CHR ''='' \<notin> set (QueryEscape k)"
    using QueryEscape_chars by (auto simp: p encode_pair_def)
  then show ?thesis
    using Cut_append [of "CHR ''=''" "QueryEscape k" "QueryEscape v"]
    by (simp add: parse_pair_def p encode_pair_def QueryUnescape_escape)
qed

lemma ParseQuery_Encode: "ParseQuery (Values_Encode vals) = sort_key fst vals"
proof (cases "vals = []")
  case True
  then show ?thesis by (simp add: Values_Encode_def ParseQuery_def parse_pair_def)
next
  case False
  have sep: "CHR ''&'' \<notin> set (encode_pair p)" for p
    using QueryEscape_chars by (auto simp: encode_pair_def split: prod.splits)
  have "sort_key fst vals \<noteq> []" using False by (metis set_empty set_sort)
  then have "strings_Split CHR ''&'' (Values_Encode vals) = map encode_pair (sort_key fst vals)"
    unfolding Values_Encode_def using sep by (intro Split_join) auto
  then show ?thesis by (simp add: ParseQuery_def parse_encode_pair comp_def )
qed

end
