(* ===== verification/Http.thy ===== *)
theory Http
  imports UseCases Url
begin

text \<open>
  The REST adapter (\<open>internal/adapters/inbound/http\<close>): DTOs and how \<open>encoding/json\<close> fills them,
  the handlers, the mapping of errors to problem responses, readiness, CORS and log sanitising.
  Routing is chi's: a request comes with its route and its URL parameter. A handler runs over the
  state \<open>'w\<close> of whatever adapters the use cases have.
\<close>

section \<open>Requests and responses\<close>

record http_request =
  rq_path :: string
  rq_method :: string
  rq_param :: string
  rq_query :: string
  rq_headers :: "(string \<times> string) list"
  rq_body :: string
  rq_read_error :: "err option"

record response =
  rs_status :: int
  rs_headers :: "(string \<times> string) list"
  rs_body :: string

type_synonym 'w handler = "ctx \<Rightarrow> http_request \<Rightarrow> 'w \<Rightarrow> response \<times> 'w"

text \<open>
  The texts of the standard library: the first JSON document of a body that ends well or with a read
  error, \<open>%q\<close>, a document written, the case folding of object keys, the error for a value of the
  wrong type, an instant in RFC 3339 written and read, the seconds of a duration as a JSON number,
  the text of an error, and the floating-point step of \<open>time.ParseDuration\<close>.
\<close>

record http_env =
  h_parse :: "err option \<Rightarrow> string \<Rightarrow> err + json"
  h_quote :: "string \<Rightarrow> string"
  h_render :: "json \<Rightarrow> string"
  h_fold :: "string \<Rightarrow> string"
  h_type_error :: "string \<Rightarrow> json \<Rightarrow> err"
  h_time :: "time \<Rightarrow> string"
  h_parse_time :: "string \<Rightarrow> time option"
  h_seconds :: "duration \<Rightarrow> string"
  h_text :: "err \<Rightarrow> string"
  h_frac :: "nat \<Rightarrow> nat \<Rightarrow> nat \<Rightarrow> nat"

definition header_get :: "http_request \<Rightarrow> string \<Rightarrow> string" where
  "header_get r name = (case map_of (rq_headers r) name of None \<Rightarrow> '''' | Some v \<Rightarrow> v)"

section \<open>Problems (errors.go)\<close>

definition statusFor :: "err \<Rightarrow> int" where
  "statusFor e =
     (if errors_Is e (AppErr ErrPathNotFound) \<or> errors_Is e (AppErr ErrCPTScheduleNotFound) then 404
      else if errors_Is e (AppErr ErrPathAlreadyExists) then 409
      else if errors_Is e (PathErr ErrPathDeactivated) \<or> errors_Is e (PathErr ErrEmptyPathId)
        \<or> errors_Is e (PathErr ErrEmptyMatchPrefix) \<or> errors_Is e (PathErr ErrMatchPrefixNotLowercase)
        \<or> errors_Is e (PathErr ErrNoRequiredCapabilities) \<or> errors_Is e (PathErr ErrInvalidCycleTime)
        \<or> errors_Is e (SharedErr ErrInvalidDestinationLocationRole)
        \<or> errors_Is e (AppErr ErrIneligiblePathId)
        \<or> errors_Is e (CptErr ErrEmptyTimezone) \<or> errors_Is e (CptErr ErrInvalidTimezone)
        \<or> errors_Is e (CptErr ErrNoCutoffs) \<or> errors_Is e (CptErr ErrEmptyCptId)
        \<or> errors_Is e (CptErr ErrDuplicateCptId) \<or> errors_Is e (CptErr ErrEmptyLocalTime)
        \<or> errors_Is e (CptErr ErrInvalidLocalTime) \<or> errors_Is e (CptErr ErrNoDaysOfWeek)
        \<or> errors_Is e (CptErr ErrInvalidDayOfWeek) \<or> errors_Is e (CptErr ErrEmptyShipMethod)
        \<or> errors_Is e (CptErr ErrNoEligiblePathIds) then 422
      else 500)"

record problemInfo =
  slug :: string
  title :: string

definition problemBaseURI :: string where
  "problemBaseURI = ''https://errors.process-path-management.warehouse-systems.dev/''"

definition problemCatalog :: "(err \<times> problemInfo) list" where
  "problemCatalog = map (\<lambda>(e, s, t). (e, \<lparr>slug = s, title = t\<rparr>))
   [(AppErr ErrPathNotFound, ''path-not-found'', ''No process path exists with this id''),
    (AppErr ErrPathAlreadyExists, ''path-already-exists'',
       ''A process path with this id already exists (active or deactivated)''),
    (PathErr ErrPathDeactivated, ''path-deactivated'',
       ''This process path has been deactivated and can no longer be revised''),
    (PathErr ErrEmptyPathId, ''empty-path-id'', ''pathId must not be empty''),
    (PathErr ErrEmptyMatchPrefix, ''empty-match-prefix'', ''matchPrefix must not be empty''),
    (PathErr ErrMatchPrefixNotLowercase, ''match-prefix-not-lowercase'', ''matchPrefix must be lower-case''),
    (PathErr ErrNoRequiredCapabilities, ''no-required-capabilities'', ''requiredCapabilities must be non-empty''),
    (SharedErr ErrInvalidDestinationLocationRole, ''invalid-destination-location-role'',
       ''destinationLocationRole must be one of Drop, WorkCenter, Shipping, or omitted''),
    (PathErr ErrInvalidCycleTime, ''invalid-cycle-time-p95'', ''cycleTimeP95 must be a positive duration''),
    (AppErr ErrCPTScheduleNotFound, ''cpt-schedule-not-found'', ''No CPT schedule exists for this site''),
    (AppErr ErrIneligiblePathId, ''ineligible-path-id'',
       ''eligiblePathIds must reference an Active process path in this service's own store''),
    (CptErr ErrEmptyTimezone, ''empty-timezone'', ''timezone must not be empty''),
    (CptErr ErrInvalidTimezone, ''invalid-timezone'', ''timezone is not a recognized IANA zone''),
    (CptErr ErrNoCutoffs, ''no-cutoffs'', ''at least one cutoff is required''),
    (CptErr ErrEmptyCptId, ''empty-cpt-id'', ''cptId must not be empty''),
    (CptErr ErrDuplicateCptId, ''duplicate-cpt-id'', ''cptId must be unique within a site''),
    (CptErr ErrEmptyLocalTime, ''empty-local-time'', ''localTime must not be empty''),
    (CptErr ErrInvalidLocalTime, ''invalid-local-time'', ''localTime must be in HH:MM 24-hour form''),
    (CptErr ErrNoDaysOfWeek, ''no-days-of-week'', ''daysOfWeek must be non-empty''),
    (CptErr ErrInvalidDayOfWeek, ''invalid-day-of-week'', ''daysOfWeek entries must be one of Mon..Sun''),
    (CptErr ErrEmptyShipMethod, ''empty-ship-method'', ''shipMethod must not be empty''),
    (CptErr ErrNoEligiblePathIds, ''no-eligible-path-ids'', ''eligiblePathIds must be non-empty'')]"

definition internal_problem :: problemInfo where
  "internal_problem = \<lparr>slug = ''internal-error'', title = ''An unexpected internal error occurred''\<rparr>"

definition problemFor :: "err \<Rightarrow> problemInfo" where
  "problemFor e = (case find (\<lambda>(t, i). errors_Is e t) problemCatalog of
     None \<Rightarrow> internal_problem | Some (t, i) \<Rightarrow> i)"

definition writeProblem :: "http_env \<Rightarrow> int \<Rightarrow> problemInfo \<Rightarrow> string \<Rightarrow> string \<Rightarrow> response" where
  "writeProblem H code info detail inst = \<lparr>rs_status = code,
     rs_headers = [(''Content-Type'', ''application/problem+json'')],
     rs_body = h_render H (JObj [(''type'', JStr (problemBaseURI @ slug info)), (''title'', JStr (title info)),
       (''status'', JInt code), (''detail'', JStr detail), (''instance'', JStr inst)])\<rparr>"

definition writeError :: "http_env \<Rightarrow> http_request \<Rightarrow> err \<Rightarrow> response" where
  "writeError H r e = writeProblem H (statusFor e) (problemFor e) (h_text H e) (rq_path r)"

definition writeJSON :: "http_env \<Rightarrow> int \<Rightarrow> json \<Rightarrow> response" where
  "writeJSON H code body = \<lparr>rs_status = code, rs_headers = [(''Content-Type'', ''application/json'')],
     rs_body = h_render H body\<rparr>"

section \<open>Decoding bodies\<close>

text \<open>
  \<open>encoding/json\<close> into a struct: keys are matched to fields by folded name, unknown keys are
  skipped, the last value of a repeated key stands, \<open>null\<close> leaves a scalar as it is and empties a
  slice or pointer, and a value of another kind is an error. (That a repeated key decodes into the
  old elements of its slice is left out: each array starts from zero elements here.)
\<close>

type_synonym 'a setter = "json \<Rightarrow> 'a \<Rightarrow> err + 'a"

definition into_string :: "http_env \<Rightarrow> string \<Rightarrow> ((string \<Rightarrow> string) \<Rightarrow> 'a \<Rightarrow> 'a) \<Rightarrow> string \<times> 'a setter" where
  "into_string H name upd = (name, \<lambda>v a. case v of
     JStr s \<Rightarrow> Inr (upd (\<lambda>_. s) a) | JNull \<Rightarrow> Inr a | _ \<Rightarrow> Inl (h_type_error H name v))"

definition into_bool :: "http_env \<Rightarrow> string \<Rightarrow> ((bool \<Rightarrow> bool) \<Rightarrow> 'a \<Rightarrow> 'a) \<Rightarrow> string \<times> 'a setter" where
  "into_bool H name upd = (name, \<lambda>v a. case v of
     JBool b \<Rightarrow> Inr (upd (\<lambda>_. b) a) | JNull \<Rightarrow> Inr a | _ \<Rightarrow> Inl (h_type_error H name v))"

definition into_int_ptr ::
    "http_env \<Rightarrow> string \<Rightarrow> ((int option \<Rightarrow> int option) \<Rightarrow> 'a \<Rightarrow> 'a) \<Rightarrow> string \<times> 'a setter" where
  "into_int_ptr H name upd = (name, \<lambda>v a. case v of
     JInt n \<Rightarrow> if - (2 ^ 63) \<le> n \<and> n < 2 ^ 63 then Inr (upd (\<lambda>_. Some n) a) else Inl (h_type_error H name v)
   | JNull \<Rightarrow> Inr (upd (\<lambda>_. None) a) | _ \<Rightarrow> Inl (h_type_error H name v))"

fun elements :: "(json \<Rightarrow> err + 'b) \<Rightarrow> json list \<Rightarrow> err + 'b list" where
  "elements f [] = Inr []"
| "elements f (v # vs) = (case f v of Inl e \<Rightarrow> Inl e
     | Inr x \<Rightarrow> (case elements f vs of Inl e \<Rightarrow> Inl e | Inr xs \<Rightarrow> Inr (x # xs)))"

definition into_slice :: "http_env \<Rightarrow> string \<Rightarrow> (json \<Rightarrow> err + 'b) \<Rightarrow> (('b list \<Rightarrow> 'b list) \<Rightarrow> 'a \<Rightarrow> 'a)
    \<Rightarrow> string \<times> 'a setter" where
  "into_slice H name element upd = (name, \<lambda>v a. case v of
     JArr vs \<Rightarrow> (case elements element vs of Inl e \<Rightarrow> Inl e | Inr xs \<Rightarrow> Inr (upd (\<lambda>_. xs) a))
   | JNull \<Rightarrow> Inr (upd (\<lambda>_. []) a) | _ \<Rightarrow> Inl (h_type_error H name v))"

definition string_element :: "http_env \<Rightarrow> string \<Rightarrow> json \<Rightarrow> err + string" where
  "string_element H name v = (case v of JStr s \<Rightarrow> Inr s | JNull \<Rightarrow> Inr '''' | _ \<Rightarrow> Inl (h_type_error H name v))"

fun set_fields :: "http_env \<Rightarrow> (string \<times> 'a setter) list \<Rightarrow> (string \<times> json) list \<Rightarrow> 'a \<Rightarrow> err + 'a" where
  "set_fields H fs [] a = Inr a"
| "set_fields H fs ((k, v) # kvs) a =
     (case find (\<lambda>(name, f). h_fold H name = h_fold H k) fs of
        None \<Rightarrow> set_fields H fs kvs a
      | Some (name, f) \<Rightarrow> (case f v a of Inl e \<Rightarrow> Inl e | Inr a' \<Rightarrow> set_fields H fs kvs a'))"

definition into_struct :: "http_env \<Rightarrow> string \<Rightarrow> (string \<times> 'a setter) list \<Rightarrow> json \<Rightarrow> 'a \<Rightarrow> err + 'a" where
  "into_struct H name fs v a = (case v of
     JObj kvs \<Rightarrow> set_fields H fs kvs a | JNull \<Rightarrow> Inr a | _ \<Rightarrow> Inl (h_type_error H name v))"

definition into_struct_ptr :: "http_env \<Rightarrow> string \<Rightarrow> (string \<times> 'b setter) list \<Rightarrow> 'b \<Rightarrow> ('a \<Rightarrow> 'b option)
    \<Rightarrow> (('b option \<Rightarrow> 'b option) \<Rightarrow> 'a \<Rightarrow> 'a) \<Rightarrow> string \<times> 'a setter" where
  "into_struct_ptr H name fs zero get upd = (name, \<lambda>v a. case v of
     JNull \<Rightarrow> Inr (upd (\<lambda>_. None) a)
   | _ \<Rightarrow> (case into_struct H name fs v (case get a of None \<Rightarrow> zero | Some b \<Rightarrow> b) of
             Inl e \<Rightarrow> Inl e | Inr b \<Rightarrow> Inr (upd (\<lambda>_. Some b) a)))"

section \<open>DTOs (dto.go)\<close>

record eligibilityRequest =
  eq_maxUnitsPerLine :: "int option"
  eq_requiredProductAttributes :: "string list"
  eq_excludedProductAttributes :: "string list"
  eq_nonSortable :: bool

record defineProcessPathRequest =
  dq_pathId :: string
  dq_matchPrefix :: string
  dq_direct :: bool
  dq_requiredCapabilities :: "string list"
  dq_destinationLocationRole :: string
  dq_cycleTimeP95 :: string
  dq_eligibility :: "eligibilityRequest option"

record reviseProcessPathRequest =
  vq_matchPrefix :: string
  vq_requiredCapabilities :: "string list"
  vq_cycleTimeP95 :: string
  vq_eligibility :: "eligibilityRequest option"

record cutoffRequest =
  kq_cptId :: string
  kq_localTime :: string
  kq_daysOfWeek :: "string list"
  kq_shipMethod :: string
  kq_eligiblePathIds :: "string list"

record defineCPTScheduleRequest =
  sq_timezone :: string
  sq_cutoffs :: "cutoffRequest list"

definition eligibility_fields :: "http_env \<Rightarrow> (string \<times> eligibilityRequest setter) list" where
  "eligibility_fields H =
     [into_int_ptr H ''maxUnitsPerLine'' eq_maxUnitsPerLine_update,
      into_slice H ''requiredProductAttributes'' (string_element H ''requiredProductAttributes'')
        eq_requiredProductAttributes_update,
      into_slice H ''excludedProductAttributes'' (string_element H ''excludedProductAttributes'')
        eq_excludedProductAttributes_update,
      into_bool H ''nonSortable'' eq_nonSortable_update]"

definition zero_eligibility :: eligibilityRequest where
  "zero_eligibility = \<lparr>eq_maxUnitsPerLine = None, eq_requiredProductAttributes = [],
     eq_excludedProductAttributes = [], eq_nonSortable = False\<rparr>"

definition define_fields :: "http_env \<Rightarrow> (string \<times> defineProcessPathRequest setter) list" where
  "define_fields H =
     [into_string H ''pathId'' dq_pathId_update, into_string H ''matchPrefix'' dq_matchPrefix_update,
      into_bool H ''direct'' dq_direct_update,
      into_slice H ''requiredCapabilities'' (string_element H ''requiredCapabilities'')
        dq_requiredCapabilities_update,
      into_string H ''destinationLocationRole'' dq_destinationLocationRole_update,
      into_string H ''cycleTimeP95'' dq_cycleTimeP95_update,
      into_struct_ptr H ''eligibility'' (eligibility_fields H) zero_eligibility dq_eligibility
        dq_eligibility_update]"

definition zero_define :: defineProcessPathRequest where
  "zero_define = \<lparr>dq_pathId = '''', dq_matchPrefix = '''', dq_direct = False, dq_requiredCapabilities = [],
     dq_destinationLocationRole = '''', dq_cycleTimeP95 = '''', dq_eligibility = None\<rparr>"

definition revise_fields :: "http_env \<Rightarrow> (string \<times> reviseProcessPathRequest setter) list" where
  "revise_fields H =
     [into_string H ''matchPrefix'' vq_matchPrefix_update,
      into_slice H ''requiredCapabilities'' (string_element H ''requiredCapabilities'')
        vq_requiredCapabilities_update,
      into_string H ''cycleTimeP95'' vq_cycleTimeP95_update,
      into_struct_ptr H ''eligibility'' (eligibility_fields H) zero_eligibility vq_eligibility
        vq_eligibility_update]"

definition zero_revise :: reviseProcessPathRequest where
  "zero_revise = \<lparr>vq_matchPrefix = '''', vq_requiredCapabilities = [], vq_cycleTimeP95 = '''',
     vq_eligibility = None\<rparr>"

definition cutoff_fields :: "http_env \<Rightarrow> (string \<times> cutoffRequest setter) list" where
  "cutoff_fields H =
     [into_string H ''cptId'' kq_cptId_update, into_string H ''localTime'' kq_localTime_update,
      into_slice H ''daysOfWeek'' (string_element H ''daysOfWeek'') kq_daysOfWeek_update,
      into_string H ''shipMethod'' kq_shipMethod_update,
      into_slice H ''eligiblePathIds'' (string_element H ''eligiblePathIds'') kq_eligiblePathIds_update]"

definition zero_cutoff :: cutoffRequest where
  "zero_cutoff = \<lparr>kq_cptId = '''', kq_localTime = '''', kq_daysOfWeek = [], kq_shipMethod = '''',
     kq_eligiblePathIds = []\<rparr>"

definition schedule_fields :: "http_env \<Rightarrow> (string \<times> defineCPTScheduleRequest setter) list" where
  "schedule_fields H =
     [into_string H ''timezone'' sq_timezone_update,
      into_slice H ''cutoffs'' (\<lambda>v. into_struct H ''cutoffs'' (cutoff_fields H) v zero_cutoff) sq_cutoffs_update]"

definition zero_schedule :: defineCPTScheduleRequest where
  "zero_schedule = \<lparr>sq_timezone = '''', sq_cutoffs = []\<rparr>"

definition decodeJSON :: "http_env \<Rightarrow> http_request \<Rightarrow> (string \<times> 'a setter) list \<Rightarrow> 'a \<Rightarrow> response + 'a" where
  "decodeJSON H r fs zero =
     (case (case h_parse H (rq_read_error r) (rq_body r) of
              Inl e \<Rightarrow> Inl e | Inr v \<Rightarrow> into_struct H '''' fs v zero) of
        Inl e \<Rightarrow> Inl (writeProblem H 400 \<lparr>slug = ''malformed-request-body'',
                   title = ''The request body is not valid JSON''\<rparr> (h_text H e) (rq_path r))
      | Inr a \<Rightarrow> Inr a)"

section \<open>Responses (server.go)\<close>

record eligibilityResponse =
  es_maxUnitsPerLine :: "int option"
  es_requiredProductAttributes :: "string list"
  es_excludedProductAttributes :: "string list"
  es_nonSortable :: bool

record processPathResponse =
  pp_pathId :: string
  pp_matchPrefix :: string
  pp_direct :: bool
  pp_requiredCapabilities :: "string list"
  pp_destinationLocationRole :: string
  pp_cycleTimeP95 :: string
  pp_eligibility :: eligibilityResponse
  pp_status :: string
  pp_createdAt :: string
  pp_updatedAt :: string

record cutoffResponse =
  kp_cptId :: string
  kp_localTime :: string
  kp_daysOfWeek :: "string list"
  kp_shipMethod :: string
  kp_eligiblePathIds :: "string list"

record cptScheduleResponse =
  sp_siteId :: string
  sp_timezone :: string
  sp_cutoffs :: "cutoffResponse list"
  sp_createdAt :: string
  sp_updatedAt :: string

definition toEligibilityResponse :: "Eligibility \<Rightarrow> eligibilityResponse" where
  "toEligibilityResponse e = \<lparr>es_maxUnitsPerLine = maxUnitsPerLine e,
     es_requiredProductAttributes = requiredProductAttributes e,
     es_excludedProductAttributes = excludedProductAttributes e, es_nonSortable = nonSortable e\<rparr>"

definition toProcessPathResponse :: "http_env \<Rightarrow> ProcessPath \<Rightarrow> processPathResponse" where
  "toProcessPathResponse H p = \<lparr>pp_pathId = pp_id p, pp_matchPrefix = matchPrefix p, pp_direct = direct p,
     pp_requiredCapabilities = requiredCapabilities p,
     pp_destinationLocationRole = destinationLocationRole p,
     pp_cycleTimeP95 = Duration_String (cycleTimeP95 p),
     pp_eligibility = toEligibilityResponse (eligibility p), pp_status = status p,
     pp_createdAt = h_time H (createdAt p), pp_updatedAt = h_time H (updatedAt p)\<rparr>"

definition toCPTScheduleResponse :: "http_env \<Rightarrow> CPTSchedule \<Rightarrow> cptScheduleResponse" where
  "toCPTScheduleResponse H s = \<lparr>sp_siteId = cs_siteId s, sp_timezone = cs_timezone s,
     sp_cutoffs = map (\<lambda>c. \<lparr>kp_cptId = cptId c, kp_localTime = localTime c, kp_daysOfWeek = daysOfWeek c,
       kp_shipMethod = shipMethod c, kp_eligiblePathIds = eligiblePathIds c\<rparr>) (cs_cutoffs s),
     sp_createdAt = h_time H (cs_createdAt s), sp_updatedAt = h_time H (cs_updatedAt s)\<rparr>"

definition eligibilityResponse_json :: "eligibilityResponse \<Rightarrow> json" where
  "eligibilityResponse_json e = JObj (omit_int ''maxUnitsPerLine'' (es_maxUnitsPerLine e)
     @ omit_strings ''requiredProductAttributes'' (es_requiredProductAttributes e)
     @ omit_strings ''excludedProductAttributes'' (es_excludedProductAttributes e)
     @ omit_bool ''nonSortable'' (es_nonSortable e))"

definition processPathResponse_json :: "processPathResponse \<Rightarrow> json" where
  "processPathResponse_json p = JObj (field ''pathId'' (JStr (pp_pathId p))
     @ field ''matchPrefix'' (JStr (pp_matchPrefix p)) @ field ''direct'' (JBool (pp_direct p))
     @ field ''requiredCapabilities'' (JStrs (pp_requiredCapabilities p))
     @ omit_string ''destinationLocationRole'' (pp_destinationLocationRole p)
     @ field ''cycleTimeP95'' (JStr (pp_cycleTimeP95 p))
     @ field ''eligibility'' (eligibilityResponse_json (pp_eligibility p))
     @ field ''status'' (JStr (pp_status p)) @ field ''createdAt'' (JStr (pp_createdAt p))
     @ field ''updatedAt'' (JStr (pp_updatedAt p)))"

definition cutoffResponse_json :: "cutoffResponse \<Rightarrow> json" where
  "cutoffResponse_json c = JObj (field ''cptId'' (JStr (kp_cptId c))
     @ field ''localTime'' (JStr (kp_localTime c)) @ field ''daysOfWeek'' (JStrs (kp_daysOfWeek c))
     @ field ''shipMethod'' (JStr (kp_shipMethod c))
     @ field ''eligiblePathIds'' (JStrs (kp_eligiblePathIds c)))"

definition cptScheduleResponse_json :: "cptScheduleResponse \<Rightarrow> json" where
  "cptScheduleResponse_json s = JObj (field ''siteId'' (JStr (sp_siteId s))
     @ field ''timezone'' (JStr (sp_timezone s))
     @ field ''cutoffs'' (JArr (map cutoffResponse_json (sp_cutoffs s)))
     @ field ''createdAt'' (JStr (sp_createdAt s)) @ field ''updatedAt'' (JStr (sp_updatedAt s)))"

section \<open>Request values (server.go)\<close>

definition toEligibility :: "eligibilityRequest option \<Rightarrow> Eligibility" where
  "toEligibility q = (case q of None \<Rightarrow> EligibilityZero
     | Some r \<Rightarrow> NewEligibility (eq_maxUnitsPerLine r) (eq_requiredProductAttributes r)
         (eq_excludedProductAttributes r) (eq_nonSortable r))"

definition parseCycleTimeP95 :: "http_env \<Rightarrow> string \<Rightarrow> err + duration" where
  "parseCycleTimeP95 H s = (case ParseDuration (h_frac H) s of
     None \<Rightarrow> Inl (PathErr ErrInvalidCycleTime) | Some d \<Rightarrow> Inr d)"

fun toCutoffs :: "cutoffRequest list \<Rightarrow> err + Cutoff list" where
  "toCutoffs [] = Inr []"
| "toCutoffs (r # rs) =
     (case NewCutoff (kq_cptId r) (kq_localTime r) (kq_daysOfWeek r) (kq_shipMethod r) (kq_eligiblePathIds r) of
        Inl e \<Rightarrow> Inl e
      | Inr c \<Rightarrow> (case toCutoffs rs of Inl e \<Rightarrow> Inl e | Inr cs \<Rightarrow> Inr (c # cs)))"

definition parseStrictBool :: "http_env \<Rightarrow> string \<Rightarrow> err + bool" where
  "parseStrictBool H v = (if v = ''true'' then Inr True else if v = ''false'' then Inr False
     else Inl (PlainErr (h_quote H v @ '' is not a boolean (want true or false)'')))"

section \<open>Handlers (server.go)\<close>

definition status_json :: "string \<Rightarrow> json" where
  "status_json s = JObj [(''status'', JStr s)]"

definition handleHealthz :: "http_env \<Rightarrow> 'w handler" where
  "handleHealthz H c r w = (writeJSON H 200 (status_json ''ok''), w)"

definition handleDefinePath :: "http_env \<Rightarrow> ext \<Rightarrow> 'w Deps \<Rightarrow> 'w handler" where
  "handleDefinePath H E U c r w =
     (case decodeJSON H r (define_fields H) zero_define of
        Inl resp \<Rightarrow> (resp, w)
      | Inr req \<Rightarrow>
          (case ParseDestinationLocationRole (dq_destinationLocationRole req) of
             Inl e \<Rightarrow> (writeError H r e, w)
           | Inr role \<Rightarrow>
               (case parseCycleTimeP95 H (dq_cycleTimeP95 req) of
                  Inl e \<Rightarrow> (writeError H r e, w)
                | Inr ct \<Rightarrow>
                    (case DefinePath_Execute E U c (dq_pathId req) (dq_matchPrefix req) (dq_direct req)
                            (dq_requiredCapabilities req) role ct (toEligibility (dq_eligibility req)) w of
                       (Inl e, w') \<Rightarrow> (writeError H r e, w')
                     | (Inr p, w') \<Rightarrow>
                         (writeJSON H 201 (processPathResponse_json (toProcessPathResponse H p)), w')))))"

definition list_response :: "http_env \<Rightarrow> 'w Deps \<Rightarrow> ctx \<Rightarrow> http_request \<Rightarrow> bool \<Rightarrow> 'w \<Rightarrow> response \<times> 'w" where
  "list_response H U c r activeOnly w =
     (case ListPaths_Execute U c activeOnly w of
        (Inl e, w') \<Rightarrow> (writeError H r e, w')
      | (Inr ps, w') \<Rightarrow>
          (writeJSON H 200 (JArr (map (processPathResponse_json \<circ> toProcessPathResponse H) ps)), w'))"

definition handleListPaths :: "http_env \<Rightarrow> 'w Deps \<Rightarrow> 'w handler" where
  "handleListPaths H U c r w =
     (case Values_all ''all'' (ParseQuery (rq_query r)) of
        [] \<Rightarrow> list_response H U c r True w
      | val # _ \<Rightarrow>
          (case parseStrictBool H val of
             Inl e \<Rightarrow> (writeProblem H 400 \<lparr>slug = ''invalid-query-parameter'',
                 title = ''The 'all' query parameter must be a boolean (true or false)''\<rparr>
                 (''could not parse 'all' as a boolean: '' @ val) (rq_path r), w)
           | Inr all \<Rightarrow> list_response H U c r (\<not> all) w))"

definition handleGetPath :: "http_env \<Rightarrow> 'w Deps \<Rightarrow> 'w handler" where
  "handleGetPath H U c r w =
     (case GetPath_Execute U c (rq_param r) w of
        (Inl e, w') \<Rightarrow> (writeError H r e, w')
      | (Inr p, w') \<Rightarrow> (writeJSON H 200 (processPathResponse_json (toProcessPathResponse H p)), w'))"

definition handleRevisePath :: "http_env \<Rightarrow> ext \<Rightarrow> 'w Deps \<Rightarrow> 'w handler" where
  "handleRevisePath H E U c r w =
     (case decodeJSON H r (revise_fields H) zero_revise of
        Inl resp \<Rightarrow> (resp, w)
      | Inr req \<Rightarrow>
          (case parseCycleTimeP95 H (vq_cycleTimeP95 req) of
             Inl e \<Rightarrow> (writeError H r e, w)
           | Inr ct \<Rightarrow>
               (case RevisePath_Execute E U c (rq_param r) (vq_matchPrefix req)
                       (vq_requiredCapabilities req) ct (toEligibility (vq_eligibility req)) w of
                  (Inl e, w') \<Rightarrow> (writeError H r e, w')
                | (Inr p, w') \<Rightarrow>
                    (writeJSON H 200 (processPathResponse_json (toProcessPathResponse H p)), w'))))"

definition handleDeactivatePath :: "http_env \<Rightarrow> 'w Deps \<Rightarrow> 'w handler" where
  "handleDeactivatePath H U c r w =
     (case DeactivatePath_Execute U c (rq_param r) w of
        (Inl e, w') \<Rightarrow> (writeError H r e, w')
      | (Inr _, w') \<Rightarrow> (\<lparr>rs_status = 204, rs_headers = [], rs_body = ''''\<rparr>, w'))"

definition handleDefineCPTSchedule :: "http_env \<Rightarrow> ext \<Rightarrow> 'w Deps \<Rightarrow> 'w handler" where
  "handleDefineCPTSchedule H E U c r w =
     (case decodeJSON H r (schedule_fields H) zero_schedule of
        Inl resp \<Rightarrow> (resp, w)
      | Inr req \<Rightarrow>
          (case toCutoffs (sq_cutoffs req) of
             Inl e \<Rightarrow> (writeError H r e, w)
           | Inr cs \<Rightarrow>
               (case DefineCPTSchedule_Execute E U c (rq_param r) (sq_timezone req) cs w of
                  (Inl e, w') \<Rightarrow> (writeError H r e, w')
                | (Inr s, w') \<Rightarrow>
                    (writeJSON H 200 (cptScheduleResponse_json (toCPTScheduleResponse H s)), w'))))"

definition handleGetCPTSchedule :: "http_env \<Rightarrow> 'w Deps \<Rightarrow> 'w handler" where
  "handleGetCPTSchedule H U c r w =
     (case GetCPTSchedule_Execute U c (rq_param r) w of
        (Inl e, w') \<Rightarrow> (writeError H r e, w')
      | (Inr s, w') \<Rightarrow> (writeJSON H 200 (cptScheduleResponse_json (toCPTScheduleResponse H s)), w'))"

section \<open>Readiness (readiness.go)\<close>

text \<open>The gate's \<open>notReady\<close> word, or no gate at all.\<close>

type_synonym Readiness = "int option"

definition SetNotReady :: "Readiness \<Rightarrow> Readiness" where
  "SetNotReady g = (case g of None \<Rightarrow> None | Some _ \<Rightarrow> Some 1)"

definition Ready :: "Readiness \<Rightarrow> bool" where
  "Ready g = (case g of None \<Rightarrow> True | Some n \<Rightarrow> n = 0)"

definition handleReadyz :: "http_env \<Rightarrow> Readiness \<Rightarrow> 'w handler" where
  "handleReadyz H g c r w =
     (if \<not> Ready g then (writeJSON H 503 (status_json ''not_ready''), w)
      else (writeJSON H 200 (status_json ''ready''), w))"

section \<open>Routing and middleware (server.go, logging.go)\<close>

datatype route = RHealthz | RReadyz | RDefinePath | RListPaths | RGetPath | RRevisePath | RDeactivatePath
  | RDefineSchedule | RGetSchedule | RNone

text \<open>\<open>guard\<close> is the idempotency middleware when a pool is wired.\<close>

definition NewRouter :: "http_env \<Rightarrow> ext \<Rightarrow> 'w Deps \<Rightarrow> ('w handler \<Rightarrow> 'w handler) option \<Rightarrow> Readiness
    \<Rightarrow> route \<Rightarrow> 'w handler" where
  "NewRouter H E U guard g rt =
     (case rt of
        RHealthz \<Rightarrow> handleHealthz H
      | RReadyz \<Rightarrow> handleReadyz H g
      | RDefinePath \<Rightarrow> (case guard of Some m \<Rightarrow> m (handleDefinePath H E U) | None \<Rightarrow> handleDefinePath H E U)
      | RListPaths \<Rightarrow> handleListPaths H U
      | RGetPath \<Rightarrow> handleGetPath H U
      | RRevisePath \<Rightarrow> handleRevisePath H E U
      | RDeactivatePath \<Rightarrow> handleDeactivatePath H U
      | RDefineSchedule \<Rightarrow> handleDefineCPTSchedule H E U
      | RGetSchedule \<Rightarrow> handleGetCPTSchedule H U
      | RNone \<Rightarrow> (\<lambda>c r w. (writeProblem H 404 \<lparr>slug = ''route-not-found'',
          title = ''No route matches this request''\<rparr>
          ''the request path does not match any operation in this API'' (rq_path r), w)))"

definition sanitizeForLog :: "string \<Rightarrow> string" where
  "sanitizeForLog s = filter (\<lambda>c. c \<noteq> CHR 0x0A \<and> c \<noteq> CHR 0x0D) s"

text \<open>The route pattern of the matched route, if there is one.\<close>

definition chiRoutePattern :: "string option \<Rightarrow> http_request \<Rightarrow> string" where
  "chiRoutePattern pattern r = (case pattern of
     Some p \<Rightarrow> if p \<noteq> '''' then p else sanitizeForLog (rq_path r) | None \<Rightarrow> sanitizeForLog (rq_path r))"

record cors_options =
  AllowedOrigins :: "string list"
  AllowedMethods :: "string list"
  AllowedHeaders :: "string list"
  AllowCredentials :: bool
  MaxAge :: int

text \<open>The environment variable \<open>CORS_ALLOWED_ORIGINS\<close> is the argument.\<close>

definition allowedOrigins :: "string \<Rightarrow> string list" where
  "allowedOrigins v = (if v \<noteq> '''' then strings_Split CHR '','' v
     else [''http://localhost:5173'', ''http://localhost:5189''])"

definition corsMiddleware :: "string \<Rightarrow> cors_options" where
  "corsMiddleware v = \<lparr>AllowedOrigins = allowedOrigins v,
     AllowedMethods = [''GET'', ''POST'', ''PUT'', ''DELETE''],
     AllowedHeaders = [''Content-Type'', ''Authorization''], AllowCredentials = False, MaxAge = 300\<rparr>"

section \<open>The two tables of errors\<close>

lemma problemFor_internal:
  "problemFor e = internal_problem \<longleftrightarrow> list_all (\<lambda>(t, i). \<not> errors_Is e t) problemCatalog"
proof -
  have "list_all (\<lambda>(t, i). i \<noteq> internal_problem) problemCatalog"
    by (simp add: problemCatalog_def internal_problem_def)
  then have own: "i \<noteq> internal_problem" if "(t, i) \<in> set problemCatalog" for t i
    using that by (auto simp: list_all_iff)
  show ?thesis
  proof (cases "find (\<lambda>(t, i). errors_Is e t) problemCatalog")
    case None
    then have "problemFor e = internal_problem" by (simp add: problemFor_def)
    then show ?thesis using None by (auto simp: list_all_iff find_None_iff)
  next
    case (Some p)
    then obtain t i where p: "p = (t, i)" "(t, i) \<in> set problemCatalog" "errors_Is e t"
      by (cases p) (fastforce simp: find_Some_iff in_set_conv_nth)
    then show ?thesis
      using Some own by (auto simp: problemFor_def list_all_iff)
  qed
qed

lemma statusFor_500: "statusFor e = 500 \<longleftrightarrow> list_all (\<lambda>(t, i). \<not> errors_Is e t) problemCatalog"
  by (simp add: statusFor_def problemCatalog_def)

lemma catalog_sentinels: "list_all (\<lambda>(t, i). is_sentinel t) problemCatalog"
  by (simp add: problemCatalog_def)
lemma catalog_status: "list_all (\<lambda>(t, i). statusFor t \<in> {404, 409, 422}) problemCatalog"
  by (simp add: problemCatalog_def statusFor_def)
lemma catalog_targets: "distinct (map fst problemCatalog)"
  by (simp add: problemCatalog_def)
lemma catalog_distinct: "distinct (map (slug \<circ> snd) problemCatalog)"
  by (simp add: problemCatalog_def)

lemma find_own:
  assumes "list_all (\<lambda>(t, i). is_sentinel t) xs" "distinct (map fst xs)" "(t, i) \<in> set xs"
  shows "find (\<lambda>(t', i'). errors_Is t t') xs = Some (t, i)"
proof -
  have "is_sentinel t" using assms(1,3) by (auto simp: list_all_iff)
  then show ?thesis using assms(2,3)
    by (induction xs) (auto simp: errors_Is_sentinel rev_image_eqI)
qed

lemma catalog_own: "list_all (\<lambda>(t, i). problemFor t = i) problemCatalog"
  using find_own [OF catalog_sentinels catalog_targets]
  by (auto simp: list_all_iff problemFor_def)

end
