(* ===== verification/Idempotency.thy ===== *)
theory Idempotency
  imports Http PostgresRefine
begin

text \<open>
  The idempotency-key middleware (\<open>idempotency.go\<close>) around the creation endpoint: one transaction
  that first inserts the key, runs the handler inside (the use case's unit of work joins it),
  records the response in the key's row and commits; a key that is there already is answered from
  its row. A handler that panics is \<open>None\<close>. The hash of the body is the parameter \<open>sha\<close>.
\<close>

type_synonym 'w raw_handler = "ctx \<Rightarrow> http_request \<Rightarrow> 'w \<Rightarrow> response option \<times> 'w"

definition IdempotencyKeyHeader :: string where
  "IdempotencyKeyHeader = ''Idempotency-Key''"

section \<open>Statements\<close>

definition insert_key_stmt :: "string \<Rightarrow> string \<Rightarrow> string \<Rightarrow> string \<Rightarrow> (oltp, nat) stmt" where
  "insert_key_stmt key meth path hash db =
     (case insert_ignore ik_key \<lparr>ik_key = key, ik_method = meth, ik_path = path,
             ik_request_hash = hash, ik_outcome = None\<rparr> (t_idempotency db) of
        (n, rows) \<Rightarrow> Inr (n, db\<lparr>t_idempotency := rows\<rparr>))"

definition record_outcome_stmt :: "string \<Rightarrow> response \<Rightarrow> (oltp, unit) stmt" where
  "record_outcome_stmt key resp db = Inr ((), db\<lparr>t_idempotency := map (\<lambda>r. if ik_key r = key
     then r\<lparr>ik_outcome := Some (rs_status resp, rs_body resp, rs_headers resp)\<rparr> else r) (t_idempotency db)\<rparr>)"

section \<open>The middleware\<close>

definition internal_error :: "http_env \<Rightarrow> http_request \<Rightarrow> string \<Rightarrow> response" where
  "internal_error H r detail = writeProblem H 500 internal_problem detail (rq_path r)"

definition replayCachedResponse ::
    "http_env \<Rightarrow> pg_env \<Rightarrow> http_request \<Rightarrow> string \<Rightarrow> string \<Rightarrow> oltp pg \<Rightarrow> response \<times> oltp pg" where
  "replayCachedResponse H V r key requestHash w =
     (case sql_exec (v_faults V) Background
             (\<lambda>db. case select ik_key key (t_idempotency db) of
                None \<Rightarrow> Inl (PlainErr ''no rows in result set'') | Some row \<Rightarrow> Inr (row, db)) w of
        (Inl e, w1) \<Rightarrow> (internal_error H r (h_text H e), w1)
      | (Inr row, w1) \<Rightarrow>
          (if ik_request_hash row \<noteq> requestHash then
             (writeProblem H 422 \<lparr>slug = ''idempotency-key-reused'',
                title = ''Idempotency-Key was already used with a different request''\<rparr>
                (''The Idempotency-Key header on this request was already used with a request that had a different body. ''
                 @ ''Use a new Idempotency-Key for a genuinely different request.'') (rq_path r), w1)
           else (case ik_outcome row of
                   None \<Rightarrow> (internal_error H r
                     (''idempotency row committed with no recorded outcome '' @ [CHR 0xE2, CHR 0x80, CHR 0x94]
                      @ '' this should be impossible''), w1)
                 | Some (code, body, headers) \<Rightarrow>
                     (\<lparr>rs_status = code, rs_headers = headers, rs_body = body\<rparr>, w1))))"

definition runFreshRequest ::
    "http_env \<Rightarrow> pg_env \<Rightarrow> oltp pg raw_handler \<Rightarrow> http_request \<Rightarrow> string \<Rightarrow> oltp pg \<Rightarrow> response option \<times> oltp pg" where
  "runFreshRequest H V next_handler r key w =
     (case next_handler WithTx r w of
        (None, w1) \<Rightarrow> (None, snd (tx_Rollback (v_faults V) w1))
      | (Some resp, w1) \<Rightarrow>
          (case sql_exec (v_faults V) WithTx (record_outcome_stmt key resp) w1 of
             (Inl e, w2) \<Rightarrow> (Some (internal_error H r (h_text H e)), snd (tx_Rollback (v_faults V) w2))
           | (Inr _, w2) \<Rightarrow>
               (case tx_Commit (v_faults V) w2 of
                  (Inl e, w3) \<Rightarrow> (Some (internal_error H r (h_text H e)), w3)
                | (Inr _, w3) \<Rightarrow> (Some resp, w3))))"

definition RequireIdempotencyKey ::
    "http_env \<Rightarrow> pg_env \<Rightarrow> (string \<Rightarrow> string) \<Rightarrow> oltp pg raw_handler \<Rightarrow> oltp pg raw_handler" where
  "RequireIdempotencyKey H V sha next_handler c r w =
     (let key = header_get r IdempotencyKeyHeader in
      if key = '''' then
        (Some (writeProblem H 400 \<lparr>slug = ''idempotency-key-required'',
           title = ''Idempotency-Key header is required''\<rparr>
           (''This endpoint creates a new resource on every call and requires a caller-supplied ''
            @ IdempotencyKeyHeader @ '' header so a retried request is never applied twice.'') (rq_path r)), w)
      else case rq_read_error r of
        Some e \<Rightarrow> (Some (writeProblem H 400 \<lparr>slug = ''malformed-request-body'',
           title = ''The request body could not be read''\<rparr> (h_text H e) (rq_path r)), w)
      | None \<Rightarrow>
          (case pool_Begin (v_faults V) w of
             (Inl e, w1) \<Rightarrow> (Some (internal_error H r (h_text H e)), w1)
           | (Inr _, w1) \<Rightarrow>
               (case sql_exec (v_faults V) WithTx
                       (insert_key_stmt key (rq_method r) (rq_path r) (sha (rq_body r))) w1 of
                  (Inl e, w2) \<Rightarrow>
                    (Some (internal_error H r (h_text H e)), snd (tx_Rollback (v_faults V) w2))
                | (Inr affected, w2) \<Rightarrow>
                    if affected = 0 then
                      (case replayCachedResponse H V r key (sha (rq_body r)) (snd (tx_Rollback (v_faults V) w2)) of
                         (resp, w3) \<Rightarrow> (Some resp, w3))
                    else runFreshRequest H V next_handler r key w2)))"

section \<open>In the router\<close>

text \<open>The handler of the creation endpoint does not panic; chi's \<open>Recoverer\<close> answers for one that does.\<close>

definition raw :: "'w handler \<Rightarrow> 'w raw_handler" where
  "raw h c r w = (case h c r w of (resp, w') \<Rightarrow> (Some resp, w'))"

definition recovered :: "'w raw_handler \<Rightarrow> 'w handler" where
  "recovered h c r w = (case h c r w of
     (Some resp, w') \<Rightarrow> (resp, w')
   | (None, w') \<Rightarrow> (\<lparr>rs_status = 500, rs_headers = [], rs_body = ''''\<rparr>, w'))"

definition pg_router :: "http_env \<Rightarrow> pg_env \<Rightarrow> (string \<Rightarrow> string) \<Rightarrow> Readiness \<Rightarrow> route \<Rightarrow> oltp pg handler" where
  "pg_router H V sha g = NewRouter H (v_ext V) (pg_deps V)
     (Some (\<lambda>h. recovered (RequireIdempotencyKey H V sha (raw h)))) g"

definition post_path :: "http_env \<Rightarrow> pg_env \<Rightarrow> (string \<Rightarrow> string) \<Rightarrow> http_request \<Rightarrow> oltp pg \<Rightarrow> response \<times> oltp pg" where
  "post_path H V sha r = pg_router H V sha None RDefinePath Background r"

end
