(* ===== verification/IdempotencyRefine.thy ===== *)
theory IdempotencyRefine
  imports Idempotency
begin

text \<open>
  The use case inside the middleware's transaction, and what the middleware makes of it: the
  committed database is as before, or it is the handler's with the response in the key's row.
\<close>

section \<open>Joining a transaction\<close>

text \<open>
  \<open>joins\<close>: run with the caller's transaction, a call leaves the committed state and the idempotency
  table alone and neither ends nor repairs the transaction. \<open>aborts\<close>: where it fails, the
  transaction is aborted, so it cannot be committed any more.
\<close>

definition joins :: "(oltp pg, 'a) io \<Rightarrow> bool" where
  "joins m \<longleftrightarrow> (\<forall>w db b. open_tx w = Some (db, b) \<longrightarrow> committed (snd (m w)) = committed w
     \<and> (\<exists>db' b'. open_tx (snd (m w)) = Some (db', b') \<and> t_idempotency db' = t_idempotency db
          \<and> (b \<longrightarrow> b')))"

definition aborts :: "(oltp pg, 'a) io \<Rightarrow> bool" where
  "aborts m \<longleftrightarrow> (\<forall>w db b e w'. open_tx w = Some (db, b) \<longrightarrow> m w = (Inl e, w') \<longrightarrow>
     (\<exists>db'. open_tx w' = Some (db', True)))"

lemma joinsD:
  assumes "joins m" "m w = (r, w')" "open_tx w = Some (db, b)"
  obtains db' b' where "committed w' = committed w" "open_tx w' = Some (db', b')"
    "t_idempotency db' = t_idempotency db" "b \<Longrightarrow> b'"
  using assms by (fastforce simp: joins_def)

lemma abortsD:
  "aborts m \<Longrightarrow> m w = (Inl e, w') \<Longrightarrow> open_tx w = Some (db, b) \<Longrightarrow> \<exists>db'. open_tx w' = Some (db', True)"
  by (auto simp: aborts_def)

lemma joins_exec:
  assumes "\<And>db a db'. st db = Inr (a, db') \<Longrightarrow> t_idempotency db' = t_idempotency db"
  shows "joins (sql_exec F WithTx st)"
  using assms by (auto simp: joins_def sql_exec_def split: option.splits fault.splits sum.splits
      prod.splits bool.splits)

lemma aborts_exec: "aborts (sql_exec F WithTx st)"
  by (auto simp: aborts_def sql_exec_def split: option.splits fault.splits sum.splits prod.splits
      bool.splits)

lemma joins_bind: "joins m \<Longrightarrow> (\<And>a. joins (f a)) \<Longrightarrow> joins (io_bind m f)"
  unfolding joins_def io_bind_def
  by (intro allI impI) (auto split: prod.splits sum.splits; (metis snd_conv))

lemma aborts_bind:
  assumes "joins m" "aborts m" "\<And>a. aborts (f a)"
  shows "aborts (io_bind m f)"
  unfolding aborts_def
proof (intro allI impI)
  fix w db b e w'
  assume o: "open_tx w = Some (db, b)" and r: "io_bind m f w = (Inl e, w')"
  obtain x w1 where m: "m w = (x, w1)" by fastforce
  obtain db1 b1 where "open_tx w1 = Some (db1, b1)" using joinsD [OF assms(1) m o] by metis
  then show "\<exists>db'. open_tx w' = Some (db', True)"
    using r m abortsD [OF assms(2) _ o] abortsD [OF assms(3)] by (cases x) (auto simp: io_bind_def)
qed

lemma joins_pure: "joins (Pair r)" "aborts (Pair (Inr a))"
  by (simp_all add: joins_def aborts_def)

lemma enqueue_joins: "joins (enqueue V WithTx x at)" "aborts (enqueue V WithTx x at)"
proof -
  let ?m = "\<lambda>w. sql_exec (v_faults V) WithTx (enqueue_stmt (v_ext V) (calls w) (v_jsonb V) x at) w"
  have j: "joins (sql_exec (v_faults V) WithTx (enqueue_stmt (v_ext V) n (v_jsonb V) x at))" for n
    by (rule joins_exec) (auto simp: enqueue_stmt_def)
  have same: "snd (enqueue V WithTx x at w) = snd (?m w)"
    "(\<exists>e. fst (enqueue V WithTx x at w) = Inl e) \<longleftrightarrow> (\<exists>e. fst (?m w) = Inl e)" for w
    by (auto simp: enqueue_def split: prod.splits sum.splits)
  show "joins (enqueue V WithTx x at)"
    using j by (auto simp: joins_def same)
  show "aborts (enqueue V WithTx x at)"
    unfolding aborts_def
  proof (intro allI impI)
    fix w db b e w'
    assume "open_tx w = Some (db, b)" and r: "enqueue V WithTx x at w = (Inl e, w')"
    moreover obtain e' where "?m w = (Inl e', w')" using same [of w] r by (metis fst_conv prod.collapse snd_conv)
    ultimately show "\<exists>db'. open_tx w' = Some (db', True)" using abortsD [OF aborts_exec] by blast
  qed
qed

lemma enqueue_all_joins: "joins (enqueue_all V WithTx ev i encs)"
proof (induction encs)
  case (Cons enc encs)
  then show ?case by (cases "enc ev i") (auto intro!: joins_bind enqueue_joins simp: io_fail_def joins_pure)
qed (simp add: joins_pure)

lemma enqueue_all_aborts:
  "\<forall>enc \<in> set encs. \<exists>x. enc ev i = Inr x \<Longrightarrow> aborts (enqueue_all V WithTx ev i encs)"
proof (induction encs)
  case (Cons enc encs)
  then show ?case by (auto intro!: aborts_bind enqueue_joins)
qed (simp add: joins_pure)

lemma save_joins: "joins (pg_Save V WithTx p)" "aborts (pg_Save V WithTx p)"
  unfolding pg_Save_def by (rule joins_exec aborts_exec; auto simp: save_path_stmt_def split: if_splits)+

lemma publish_joins: "joins (OutboxPublisher_Publish V WithTx ev)"
  using enqueue_all_joins [of V ev] by (auto simp: joins_def OutboxPublisher_Publish_def)

lemma publish_aborts:
  assumes "\<forall>enc \<in> set (v_encoders V). \<forall>k. \<exists>x. enc ev (v_id V k) = Inr x"
  shows "aborts (OutboxPublisher_Publish V WithTx ev)"
  unfolding aborts_def OutboxPublisher_Publish_def
  using enqueue_all_aborts [of "v_encoders V" ev _ V] assms by (auto intro!: abortsD)

text \<open>The encoders encode the event of every path a definition can accept.\<close>

definition encodes_created :: "pg_env \<Rightarrow> bool" where
  "encodes_created V \<longleftrightarrow> (\<forall>enc \<in> set (v_encoders V). \<forall>p t k. pp_id p \<noteq> '''' \<longrightarrow>
     (\<exists>x. enc (ProcessPathCreated (path_payload p t)) (v_id V k) = Inr x))"

section \<open>\<open>DefinePath\<close> inside the transaction\<close>

lemma joined_scope:
  "save_and_publish (pg_deps V) WithTx (\<lambda>c. repo_Save (pg_repo V) c p) ev
    = io_bind (pg_Save V WithTx p) (\<lambda>_. OutboxPublisher_Publish V WithTx ev)"
  by (simp add: save_and_publish_def atomically_def UnitOfWork_Execute_def)

lemma scope_joins: "joins (io_bind (pg_Save V WithTx p) (\<lambda>_. OutboxPublisher_Publish V WithTx ev))"
  by (intro joins_bind save_joins publish_joins)

lemma find_joins: "joins (pg_FindByID V WithTx i)" "aborts (pg_FindByID V WithTx i)"
  unfolding pg_FindByID_def by (rule joins_exec aborts_exec; auto)+

lemma find_tx:
  assumes "pg_FindByID V WithTx i w = (Inr x, w')" "open_tx w = Some (db, b)"
  shows "open_tx w' = open_tx w" "committed w' = committed w"
  using assms by (auto simp: pg_FindByID_def sql_exec_def split: option.splits fault.splits bool.splits)

lemma frames_tx [simp]:
  "open_tx (recordRejected (pg_deps V) c w) = open_tx w"
  "committed (recordRejected (pg_deps V) c w) = committed w"
  "open_tx (recordAccepted (pg_deps V) c w) = open_tx w"
  "committed (recordAccepted (pg_deps V) c w) = committed w"
  "open_tx (snd (pg_clock V w)) = open_tx w" "committed (snd (pg_clock V w)) = committed w"
  by (simp_all add: recordRejected_def recordAccepted_def pg_metrics_def pg_count_def pg_clock_def)

lemma clock_tx: "pg_clock V w = (now, w') \<Longrightarrow> open_tx w' = open_tx w \<and> committed w' = committed w"
  using frames_tx(5,6) [of V w] by auto

lemma define_joins:
  assumes run: "DefinePath_Execute E (pg_deps V) WithTx pid pr d cs ro ct el w = (r, w')"
    and o: "open_tx w = Some (db, b)"
  obtains db' b' where "committed w' = committed w" "open_tx w' = Some (db', b')"
    "t_idempotency db' = t_idempotency db" "b \<Longrightarrow> b'"
    "encodes_created V \<Longrightarrow> \<exists>e. r = Inl e \<Longrightarrow> b' \<or> db' = db \<and> b' = b"
proof -
  let ?goal = "\<lambda>w'. \<exists>db' b'. committed w' = committed w \<and> open_tx w' = Some (db', b')
    \<and> t_idempotency db' = t_idempotency db \<and> (b \<longrightarrow> b')
    \<and> (encodes_created V \<longrightarrow> (\<exists>e. r = Inl e) \<longrightarrow> b' \<or> db' = db \<and> b' = b)"
  obtain x w1 where f: "pg_FindByID V WithTx pid w = (x, w1)" by fastforce
  have "?goal w'"
  proof (cases x)
    case (Inl e)
    then have "r = Inl e" "w' = w1" using run f by (auto simp: DefinePath_Execute_def)
    moreover obtain db1 b1 where "committed w1 = committed w" "open_tx w1 = Some (db1, b1)"
      "t_idempotency db1 = t_idempotency db"
      using joinsD [OF find_joins(1) f o] by metis
    ultimately show ?thesis using abortsD [OF find_joins(2) f [unfolded Inl] o] by auto
  next
    case x: (Inr found)
    note w1 = find_tx [OF f [unfolded x] o]
    obtain now w2 where k: "pg_clock V w1 = (now, w2)" by fastforce
    note w2 = clock_tx [OF k]
    show ?thesis
    proof (cases "\<exists>p. found = None \<and> Define E pid pr d cs ro ct el now = Inr p")
      case False
      then have "open_tx w' = open_tx w1 \<and> committed w' = committed w1"
        using run f x k w2 by (auto simp: DefinePath_Execute_def split: option.splits sum.splits)
      then show ?thesis using w1 o by auto
    next
      case True
      then obtain p where none: "found = None" and p: "Define E pid pr d cs ro ct el now = Inr p"
        by blast
      let ?ev = "ProcessPathCreated (path_payload p now)"
      let ?m = "io_bind (pg_Save V WithTx p) (\<lambda>_. OutboxPublisher_Publish V WithTx ?ev)"
      obtain u w3 where s: "?m w2 = (u, w3)" by fastforce
      have eq: "open_tx w' = open_tx w3" "committed w' = committed w3" "(\<exists>e. r = Inl e) \<longleftrightarrow> (\<exists>e. u = Inl e)"
        using run f x k none p s joined_scope [of V p ?ev]
        by (auto simp: DefinePath_Execute_def split: sum.splits)
      have o2: "open_tx w2 = Some (db, b)" using w1 w2 o by simp
      obtain db' b' where j: "committed w3 = committed w2" "open_tx w3 = Some (db', b')"
        "t_idempotency db' = t_idempotency db" "b \<Longrightarrow> b'"
        using joinsD [OF scope_joins s o2] by metis
      have "b'" if "encodes_created V" "u = Inl e" for e
      proof -
        have "pp_id p \<noteq> ''''" using p by (auto simp: Define_Inr_iff)
        then have "aborts ?m"
          using that(1) by (intro aborts_bind save_joins publish_aborts) (auto simp: encodes_created_def)
        then show ?thesis using s that(2) o2 j(2) by (fastforce simp: aborts_def)
      qed
      then show ?thesis using j eq w1 w2 by auto
    qed
  qed
  then show ?thesis using that by blast
qed

section \<open>The handler\<close>

lemma response_status [simp]:
  "rs_status (writeJSON H n j) = n" "rs_status (writeProblem H n i d p) = n"
  "rs_status (writeError H r e) = statusFor e"
  by (simp_all add: writeJSON_def writeProblem_def writeError_def)

lemma statusFor_range: "statusFor e \<in> {404, 409, 422, 500}"
  by (simp add: statusFor_def)

lemma decode_400: "decodeJSON H r fs z = Inl resp \<Longrightarrow> rs_status resp = 400"
  by (auto simp: decodeJSON_def split: sum.splits)

text \<open>The request the body stands for, once it is decoded.\<close>

lemma handleDefinePath_cases:
  assumes "handleDefinePath H E U c r w = (resp, w')"
  obtains "w' = w" "rs_status resp \<in> {400, 422}"
  | pid pr d cs role ct el e where "DefinePath_Execute E U c pid pr d cs role ct el w = (Inl e, w')"
      "resp = writeError H r e"
  | pid pr d cs role ct el p where "DefinePath_Execute E U c pid pr d cs role ct el w = (Inr p, w')"
      "resp = writeJSON H 201 (processPathResponse_json (toProcessPathResponse H p))"
proof -
  have s: "statusFor (SharedErr x) = 422" "statusFor (PathErr ErrInvalidCycleTime) = 422" for x
    by (cases x; simp add: statusFor_def)+
  show ?thesis
  proof (cases "decodeJSON H r (define_fields H) zero_define")
    case (Inl bad)
    then show ?thesis using assms that(1) decode_400 [OF Inl] by (simp add: handleDefinePath_def)
  next
    case req: (Inr req)
    show ?thesis
    proof (cases "ParseDestinationLocationRole (dq_destinationLocationRole req)")
      case (Inl e)
      then have "e = SharedErr ErrInvalidDestinationLocationRole"
        by (auto simp: ParseDestinationLocationRole_def split: if_splits)
      then show ?thesis using assms that(1) req Inl s by (auto simp: handleDefinePath_def)
    next
      case role: (Inr role)
      show ?thesis
      proof (cases "parseCycleTimeP95 H (dq_cycleTimeP95 req)")
        case (Inl e)
        then have "e = PathErr ErrInvalidCycleTime"
          by (auto simp: parseCycleTimeP95_def split: option.splits)
        then show ?thesis using assms that(1) req role Inl s by (auto simp: handleDefinePath_def)
      next
        case ct: (Inr ct)
        show ?thesis
          using assms that(2,3) req role ct
          by (auto simp: handleDefinePath_def split: prod.splits sum.splits)
      qed
    qed
  qed
qed

text \<open>
  The handler inside the transaction: the committed state and the idempotency table stay, and the
  answer is 201 with one step of the catalogue in the transaction, or no 201 and then the
  transaction is aborted or as it was.
\<close>

lemma handler_in_tx:
  assumes i: "pg_keeps V Q w" and o: "open_tx w = Some (db, False)" and enc: "encodes_created V"
    and run: "handleDefinePath H (v_ext V) (pg_deps V) WithTx r w = (resp, w')"
  obtains db' b' where "committed w' = committed w" "open_tx w' = Some (db', b')"
    "t_idempotency db' = t_idempotency db"
    "rs_status resp = 201 \<Longrightarrow> cat_step (v_ext V) (pg_sp (v_ext V)) (pg_ss (v_ext V)) (outbox_emit V)
       (oltp_view (v_ext V) db) (oltp_view (v_ext V) db')"
    "rs_status resp \<noteq> 201 \<Longrightarrow> b' \<or> db' = db"
proof -
  have seen: "pg_view V WithTx v = oltp_view (v_ext V) d" if "open_tx v = Some (d, b)" for v d b
    using that by (simp add: pg_view_def seen_def)
  from run show ?thesis
  proof (cases rule: handleDefinePath_cases)
    case 1
    then show ?thesis using that [of db False] o by auto
  next
    case (2 pid pr d cs role ct el e)
    note j = define_joins [OF 2(1) o]
    have "rs_status resp \<noteq> 201" using statusFor_range [of e] 2(2) by auto
    then show ?thesis using j that enc by metis
  next
    case (3 pid pr d cs role ct el p)
    obtain db' b' where j: "committed w' = committed w" "open_tx w' = Some (db', b')"
      "t_idempotency db' = t_idempotency db" using define_joins [OF 3(1) o] by metis
    obtain now where "cat_paths (pg_view V WithTx w) pid = None"
      "Define (v_ext V) pid pr d cs role ct el now = Inr p"
      "published (outbox_emit V) (ProcessPathCreated (path_payload p now))
         (put_path (pg_sp (v_ext V)) p (pg_view V WithTx w)) (pg_view V WithTx w')"
      using pg_app.define_ok [OF i 3(1)] by blast
    then have "cat_step (v_ext V) (pg_sp (v_ext V)) (pg_ss (v_ext V)) (outbox_emit V)
       (oltp_view (v_ext V) db) (oltp_view (v_ext V) db')"
      unfolding seen [OF o] seen [OF j(2)] by (rule step_define)
    then show ?thesis using that j 3(2) by auto
  qed
qed

text \<open>Without the assumption on the encoders, what is left is the first part.\<close>

lemma handler_joins:
  assumes o: "open_tx w = Some (db, False)"
    and run: "handleDefinePath H (v_ext V) (pg_deps V) WithTx r w = (resp, w')"
  obtains db' b' where "committed w' = committed w" "open_tx w' = Some (db', b')"
    "t_idempotency db' = t_idempotency db"
  using run
  by (cases rule: handleDefinePath_cases) (use that o in auto, (metis define_joins)+)

section \<open>The middleware around any handler\<close>

definition key_row :: "(string \<Rightarrow> string) \<Rightarrow> http_request \<Rightarrow> (int \<times> string \<times> (string \<times> string) list) option
    \<Rightarrow> idem_row" where
  "key_row sha r out = \<lparr>ik_key = header_get r IdempotencyKeyHeader, ik_method = rq_method r,
     ik_path = rq_path r, ik_request_hash = sha (rq_body r), ik_outcome = out\<rparr>"

definition outcome_of :: "response \<Rightarrow> (int \<times> string \<times> (string \<times> string) list) option" where
  "outcome_of resp = Some (rs_status resp, rs_body resp, rs_headers resp)"

definition recorded :: "string \<Rightarrow> response \<Rightarrow> oltp \<Rightarrow> oltp" where
  "recorded key resp db = db\<lparr>t_idempotency := map (\<lambda>x. if ik_key x = key
     then x\<lparr>ik_outcome := outcome_of resp\<rparr> else x) (t_idempotency db)\<rparr>"

lemma record_stmt: "record_outcome_stmt key resp db = Inr ((), recorded key resp db)"
  by (simp add: record_outcome_stmt_def recorded_def outcome_of_def)

text \<open>The answer to a repeated key.\<close>

definition replayed :: "http_env \<Rightarrow> http_request \<Rightarrow> string \<Rightarrow> idem_row \<Rightarrow> response" where
  "replayed H r requestHash row =
     (if ik_request_hash row \<noteq> requestHash then
        writeProblem H 422 \<lparr>slug = ''idempotency-key-reused'',
          title = ''Idempotency-Key was already used with a different request''\<rparr>
          (''The Idempotency-Key header on this request was already used with a request that had a different body. ''
           @ ''Use a new Idempotency-Key for a genuinely different request.'') (rq_path r)
      else (case ik_outcome row of
        None \<Rightarrow> internal_error H r (''idempotency row committed with no recorded outcome ''
          @ [CHR 0xE2, CHR 0x80, CHR 0x94] @ '' this should be impossible'')
      | Some (code, body, headers) \<Rightarrow> \<lparr>rs_status = code, rs_headers = headers, rs_body = body\<rparr>))"

lemma internal_error_500 [simp]: "rs_status (internal_error H r d) = 500"
  by (simp add: internal_error_def)

lemma replay_result:
  assumes "replayCachedResponse H V r key h w = (resp, w')"
    and "select ik_key key (t_idempotency (committed w)) = Some row"
  shows "committed w' = committed w" "open_tx w' = open_tx w"
    "resp = replayed H r h row \<or> rs_status resp = 500"
    "v_faults V = (\<lambda>_. None) \<Longrightarrow> resp = replayed H r h row"
  using assms
  by (auto simp: replayCachedResponse_def sql_exec_def tick_def replayed_def internal_error_def
      split: option.splits fault.splits if_splits)

text \<open>The transaction after an insert of the key that did not fail.\<close>

lemma insert_key_tx:
  fixes V :: pg_env
  defines "F \<equiv> v_faults V"
  assumes b: "pool_Begin F w = (Inr u, w1)"
    and x: "sql_exec F WithTx (insert_key_stmt key m p h) w1 = (Inr n, w2)"
  shows "committed w2 = committed w" "pg_keeps V Q w \<Longrightarrow> pg_keeps V Q w2"
    "n = (if select ik_key key (t_idempotency (committed w)) = None then 1 else 0)"
    "select ik_key key (t_idempotency (committed w)) = None \<Longrightarrow> open_tx w2 = Some ((committed w)\<lparr>t_idempotency :=
       t_idempotency (committed w) @ [\<lparr>ik_key = key, ik_method = m, ik_path = p, ik_request_hash = h,
         ik_outcome = None\<rparr>]\<rparr>, False)"
proof -
  let ?st = "insert_key_stmt key m p h"
  note w1 = pool_Begin_Inr [OF b]
  show "committed w2 = committed w" using sql_exec_tx_committed [of F ?st w1] x w1 by simp
  have ins: "?st (committed w) = Inr (n, seen WithTx w2)"
    using sql_exec_InrD [OF x] w1 by (simp add: seen_def)
  have op: "open_tx w2 = Some (seen WithTx w2, False)"
    using x w1 by (auto simp: sql_exec_def seen_def split: fault.splits option.splits sum.splits)
  show "n = (if select ik_key key (t_idempotency (committed w)) = None then 1 else 0)"
    using ins by (auto simp: insert_key_stmt_def insert_ignore_def split: if_splits)
  show "open_tx w2 = Some ((committed w)\<lparr>t_idempotency := t_idempotency (committed w) @ [\<lparr>ik_key = key,
      ik_method = m, ik_path = p, ik_request_hash = h, ik_outcome = None\<rparr>]\<rparr>, False)"
    if "select ik_key key (t_idempotency (committed w)) = None"
    using ins op that by (auto simp: insert_key_stmt_def insert_ignore_def)
  show "pg_keeps V Q w2" if "pg_keeps V Q w"
  proof -
    have "pg_keeps V Q w1" using pg_inv_tx(1) [OF that, of F] b by simp
    moreover have "t_outbox db' = t_outbox db" if "?st db = Inr (a, db')" for db a db'
      using that by (auto simp: insert_key_stmt_def split: prod.splits)
    ultimately show ?thesis using pg_inv_exec [of V Q w1 ?st WithTx] x by (metis F_def snd_conv)
  qed
qed

lemma RequireIdempotencyKey_cases:
  assumes "RequireIdempotencyKey H V sha nh c r w = (res, w')"
  obtains (refused) resp where "res = Some resp" "rs_status resp \<in> {400, 500}" "committed w' = committed w"
      "open_tx w' = None \<or> open_tx w' = open_tx w"
      "v_faults V = (\<lambda>_. None) \<Longrightarrow> rq_read_error r = None \<Longrightarrow> header_get r IdempotencyKeyHeader = ''''"
      "rs_status resp = 400 \<longleftrightarrow> header_get r IdempotencyKeyHeader = '''' \<or> rq_read_error r \<noteq> None"
  | (known) resp row where "res = Some resp" "committed w' = committed w" "open_tx w' = None"
      "select ik_key (header_get r IdempotencyKeyHeader) (t_idempotency (committed w)) = Some row"
      "resp = replayed H r (sha (rq_body r)) row \<or> rs_status resp = 500"
      "v_faults V = (\<lambda>_. None) \<Longrightarrow> resp = replayed H r (sha (rq_body r)) row"
      "header_get r IdempotencyKeyHeader \<noteq> ''''" "rq_read_error r = None"
  | (fresh) w2 where
      "select ik_key (header_get r IdempotencyKeyHeader) (t_idempotency (committed w)) = None"
      "committed w2 = committed w"
      "open_tx w2 = Some ((committed w)\<lparr>t_idempotency := t_idempotency (committed w) @ [key_row sha r None]\<rparr>,
         False)"
      "\<And>Q. pg_keeps V Q w \<Longrightarrow> pg_keeps V Q w2"
      "header_get r IdempotencyKeyHeader \<noteq> ''''"
      "runFreshRequest H V nh r (header_get r IdempotencyKeyHeader) w2 = (res, w')"
      "rq_read_error r = None"
proof -
  let ?key = "header_get r IdempotencyKeyHeader" and ?F = "v_faults V" and ?h = "sha (rq_body r)"
  let ?st = "insert_key_stmt ?key (rq_method r) (rq_path r) ?h"
  show ?thesis
  proof (cases "?key = '''' \<or> rq_read_error r \<noteq> None")
    case True
    show ?thesis
      by (rule refused [of "the res"]) (use assms True in \<open>auto simp: RequireIdempotencyKey_def Let_def
          split: option.splits if_splits\<close>)
  next
    case ok: False
    obtain r1 w1 where b: "pool_Begin ?F w = (r1, w1)" by fastforce
    show ?thesis
    proof (cases r1)
      case (Inl e)
      show ?thesis
        by (rule refused [of "the res"]) (use assms ok b Inl in \<open>auto simp: RequireIdempotencyKey_def Let_def
            pool_Begin_def tick_def split: option.splits fault.splits\<close>)
    next
      case r1: (Inr u)
      note w1 = pool_Begin_Inr [OF b [unfolded r1]]
      obtain r2 w2 where x: "sql_exec ?F WithTx ?st w1 = (r2, w2)" by fastforce
      have cm: "committed w2 = committed w"
        using sql_exec_tx_committed [of ?F ?st w1] x w1 by simp
      show ?thesis
      proof (cases r2)
        case (Inl e)
        have "v_faults V \<noteq> (\<lambda>_. None)"
          using x Inl w1 by (auto simp: sql_exec_def insert_key_stmt_def split: fault.splits prod.splits)
        then show ?thesis
          using assms ok b r1 x Inl cm tx_committed(2) [of ?F w2] rollback_frame(4) [of ?F w2]
          by (intro refused [of "the res"]) (auto simp: RequireIdempotencyKey_def Let_def)
      next
        case r2: (Inr n)
        note tx = insert_key_tx [OF b [unfolded r1] x [unfolded r2]]
        show ?thesis
        proof (cases "select ik_key ?key (t_idempotency (committed w))")
          case None
          then show ?thesis
            using fresh [OF None tx(1) _ tx(2)] tx(3,4) assms ok b r1 x r2
            by (auto simp: RequireIdempotencyKey_def Let_def key_row_def split: prod.splits)
        next
          case (Some row)
          then have n: "n = 0" using tx(3) by simp
          let ?w = "snd (tx_Rollback ?F w2)"
          obtain resp w4 where rp: "replayCachedResponse H V r ?key ?h ?w = (resp, w4)" by fastforce
          have "res = Some resp" "w' = w4"
            using assms ok b r1 x r2 n rp by (auto simp: RequireIdempotencyKey_def Let_def)
          moreover have c: "committed ?w = committed w" "open_tx ?w = None"
            using cm by simp_all
          moreover have "select ik_key ?key (t_idempotency (committed ?w)) = Some row"
            using Some c by simp
          ultimately show ?thesis
            using known [of resp row] replay_result [OF rp] Some ok by metis
        qed
      qed
    qed
  qed
qed

text \<open>
  A fresh key: the handler's transaction is committed with its response, or the committed state is
  as before; a commit that took effect may still report an error.
\<close>

lemma runFreshRequest_cases:
  assumes run: "runFreshRequest H V nh r key w = (res, w')"
    and h: "nh WithTx r w = (out, w3)" "committed w3 = committed w" "open_tx w3 = Some (db, b)"
  shows "open_tx w' = None"
    "committed w' = committed w \<and> (\<forall>resp. res = Some resp \<longrightarrow> rs_status resp = 500) \<and> (out = None \<longrightarrow> res = None)
     \<or> (\<exists>resp. out = Some resp \<and> b = False \<and> committed w' = recorded key resp db
          \<and> (\<exists>resp'. res = Some resp' \<and> (resp' = resp \<or> rs_status resp' = 500)))"
    "v_faults V = (\<lambda>_. None) \<Longrightarrow> b = False \<Longrightarrow> res = out"
proof -
  let ?F = "v_faults V"
  have all: "open_tx w' = None \<and> (committed w' = committed w \<and> (\<forall>resp. res = Some resp \<longrightarrow> rs_status resp = 500)
       \<and> (out = None \<longrightarrow> res = None)
     \<or> (\<exists>resp. out = Some resp \<and> b = False \<and> committed w' = recorded key resp db
          \<and> (\<exists>resp'. res = Some resp' \<and> (resp' = resp \<or> rs_status resp' = 500))))
     \<and> (v_faults V = (\<lambda>_. None) \<longrightarrow> b = False \<longrightarrow> res = out)"
  proof (cases out)
    case None
    then show ?thesis using run h by (auto simp: runFreshRequest_def)
  next
    case (Some resp)
    obtain x w4 where x: "sql_exec ?F WithTx (record_outcome_stmt key resp) w3 = (x, w4)" by fastforce
    have c4: "committed w4 = committed w"
      using sql_exec_tx_committed [of ?F "record_outcome_stmt key resp" w3] x h by simp
    show ?thesis
    proof (cases x)
      case (Inl e)
      have "?F \<noteq> (\<lambda>_. None) \<or> b"
        using x Inl h(3) by (cases b) (auto simp: sql_exec_def record_stmt split: fault.splits)
      then show ?thesis using run h Some x Inl c4 by (auto simp: runFreshRequest_def)
    next
      case (Inr u)
      have o4: "b = False" "open_tx w4 = Some (recorded key resp db, False)"
        using x Inr h(3) by (auto simp: sql_exec_def record_stmt split: fault.splits option.splits bool.splits)
      then show ?thesis
        using run h Some x Inr c4
        by (auto simp: runFreshRequest_def tx_Commit_def tick_def split: option.splits fault.splits)
    qed
  qed
  then show "open_tx w' = None"
    "committed w' = committed w \<and> (\<forall>resp. res = Some resp \<longrightarrow> rs_status resp = 500) \<and> (out = None \<longrightarrow> res = None)
     \<or> (\<exists>resp. out = Some resp \<and> b = False \<and> committed w' = recorded key resp db
          \<and> (\<exists>resp'. res = Some resp' \<and> (resp' = resp \<or> rs_status resp' = 500)))"
    "v_faults V = (\<lambda>_. None) \<Longrightarrow> b = False \<Longrightarrow> res = out"
    by blast+
qed

lemma recorded_append:
  assumes "select ik_key (header_get r IdempotencyKeyHeader) rows = None"
    and "t_idempotency db = rows @ [key_row sha r None]"
  shows "recorded (header_get r IdempotencyKeyHeader) resp db
    = db\<lparr>t_idempotency := rows @ [key_row sha r (outcome_of resp)]\<rparr>"
proof -
  have "map (\<lambda>x. if ik_key x = header_get r IdempotencyKeyHeader then x\<lparr>ik_outcome := outcome_of resp\<rparr> else x)
      rows = rows"
    using assms(1) by (intro map_idI) (force simp: select_None_iff)
  then show ?thesis using assms(2) by (simp add: recorded_def key_row_def)
qed

lemma view_idempotency [simp]: "oltp_view E (db\<lparr>t_idempotency := rows\<rparr>) = oltp_view E db"
  by (simp add: oltp_view_def schedule_of_row_def [abs_def] cutoffs_query_def)

section \<open>The creation endpoint\<close>

text \<open>Every committed key has its outcome, keys are distinct, and no transaction is open between requests.\<close>

definition outcomes_known :: "oltp \<Rightarrow> bool" where
  "outcomes_known db \<longleftrightarrow> (\<forall>row \<in> set (t_idempotency db). ik_outcome row \<noteq> None)
     \<and> distinct (map ik_key (t_idempotency db))"

definition settled :: "oltp pg \<Rightarrow> bool" where
  "settled w \<longleftrightarrow> open_tx w = None \<and> outcomes_known (committed w)"

lemma post_path_eq:
  "post_path H V sha r w = recovered (RequireIdempotencyKey H V sha
     (raw (handleDefinePath H (v_ext V) (pg_deps V)))) Background r w"
  by (simp add: post_path_def pg_router_def NewRouter_def)

lemma outcomes_known_append:
  "outcomes_known db \<Longrightarrow> select ik_key (ik_key row) (t_idempotency db) = None \<Longrightarrow> ik_outcome row \<noteq> None \<Longrightarrow>
   t_idempotency db' = t_idempotency db @ [row] \<Longrightarrow> outcomes_known db'"
  by (auto simp: outcomes_known_def select_None_iff)

text \<open>
  One POST: refused, answered from the table, or run; what a run that reached the database left.
\<close>

lemma post_path_cases:
  assumes run: "post_path H V sha r w = (resp, w')"
  obtains (unchanged) "committed w' = committed w" "open_tx w' = None \<or> open_tx w' = open_tx w"
      "rs_status resp \<in> {400, 500}"
  | (known) row where "committed w' = committed w" "open_tx w' = None"
      "select ik_key (header_get r IdempotencyKeyHeader) (t_idempotency (committed w)) = Some row"
      "resp = replayed H r (sha (rq_body r)) row \<or> rs_status resp = 500"
      "v_faults V = (\<lambda>_. None) \<Longrightarrow> resp = replayed H r (sha (rq_body r)) row"
  | (ran) resp0 where "open_tx w' = None" "header_get r IdempotencyKeyHeader \<noteq> ''''"
      "select ik_key (header_get r IdempotencyKeyHeader) (t_idempotency (committed w)) = None"
      "t_idempotency (committed w') = t_idempotency (committed w) @ [key_row sha r (outcome_of resp0)]"
      "resp = resp0 \<or> rs_status resp = 500"
      "\<And>Q. pg_keeps V Q w \<Longrightarrow> encodes_created V \<Longrightarrow>
        if rs_status resp0 = 201
        then cat_step (v_ext V) (pg_sp (v_ext V)) (pg_ss (v_ext V)) (outbox_emit V)
               (pg_view V Background w) (pg_view V Background w')
        else pg_view V Background w' = pg_view V Background w"
proof -
  let ?E = "v_ext V" and ?key = "header_get r IdempotencyKeyHeader"
  let ?h = "handleDefinePath H ?E (pg_deps V)"
  obtain res v where mid: "RequireIdempotencyKey H V sha (raw ?h) Background r w = (res, v)" by fastforce
  have w': "w' = v" "\<And>x. res = Some x \<Longrightarrow> resp = x" "res = None \<Longrightarrow> rs_status resp = 500"
    using run mid by (auto simp: post_path_eq recovered_def split: option.splits)
  show ?thesis
    using mid
  proof (cases rule: RequireIdempotencyKey_cases)
    case (refused x)
    then show ?thesis using w' by (intro unchanged) auto
  next
    case (known x row)
    then show ?thesis using that(2) w' by metis
  next
    case (fresh w2)
    let ?db = "(committed w)\<lparr>t_idempotency := t_idempotency (committed w) @ [key_row sha r None]\<rparr>"
    obtain resp0 w3 where h: "?h WithTx r w2 = (resp0, w3)" by fastforce
    obtain db' b' where j: "committed w3 = committed w2" "open_tx w3 = Some (db', b')"
      "t_idempotency db' = t_idempotency ?db" using handler_joins [OF fresh(3) h] .
    have n: "raw ?h WithTx r w2 = (Some resp0, w3)" by (simp add: raw_def h)
    note rf = runFreshRequest_cases [OF fresh(6) n j(1,2)]
    show ?thesis
    proof (cases "committed v = committed w2 \<and> (\<forall>resp. res = Some resp \<longrightarrow> rs_status resp = 500)")
      case True
      then show ?thesis using unchanged rf(1) w' fresh(2) by (cases res) auto
    next
      case False
      then obtain x where b: "b' = False" "committed v = recorded ?key resp0 db'"
        and x: "res = Some x" "x = resp0 \<or> rs_status x = 500" using rf(2) by auto
      have rec: "committed v = db'\<lparr>t_idempotency := t_idempotency (committed w)
          @ [key_row sha r (outcome_of resp0)]\<rparr>"
        using b(2) recorded_append [OF fresh(1)] j(3) by simp
      have step: "if rs_status resp0 = 201
        then cat_step ?E (pg_sp ?E) (pg_ss ?E) (outbox_emit V)
               (pg_view V Background w) (pg_view V Background w')
        else pg_view V Background w' = pg_view V Background w"
        if k: "pg_keeps V Q w" "encodes_created V" for Q
      proof -
        obtain d b where d: "open_tx w3 = Some (d, b)"
          "rs_status resp0 = 201 \<Longrightarrow> cat_step ?E (pg_sp ?E) (pg_ss ?E) (outbox_emit V)
             (oltp_view ?E ?db) (oltp_view ?E d)"
          "rs_status resp0 \<noteq> 201 \<Longrightarrow> b \<or> d = ?db"
          using handler_in_tx [OF fresh(4) [OF k(1)] fresh(3) k(2) h] by metis
        have "pg_view V Background w' = oltp_view ?E db'"
          by (simp add: pg_view_def seen_def w'(1) rec)
        moreover have "pg_view V Background w = oltp_view ?E ?db"
          by (simp add: pg_view_def seen_def)
        ultimately show ?thesis using d j(2) b(1) by auto
      qed
      show ?thesis
        using ran [of resp0] rf(1) fresh(1,5) rec w' x step by auto
    qed
  qed
qed

section \<open>Every other request leaves the table alone\<close>

definition idem_rows :: "idem_row list \<Rightarrow> oltp pg \<Rightarrow> bool" where
  "idem_rows rows w \<longleftrightarrow> open_tx w = None \<and> t_idempotency (committed w) = rows"

lemma idem_rows_exec:
  assumes "\<And>db a db'. st db = Inr (a, db') \<Longrightarrow> t_idempotency db' = t_idempotency db" "idem_rows rows w"
  shows "idem_rows rows (snd (sql_exec F Background st w))"
  using assms by (auto simp: sql_exec_def idem_rows_def split: option.splits fault.splits sum.splits prod.splits)

lemma tx_ends [simp]: "open_tx (snd (tx_Commit F w)) = None"
  by (auto simp: tx_Commit_def split: option.splits fault.splits prod.splits bool.splits)

lemma idem_rows_uow:
  assumes "joins (fn WithTx)" "idem_rows rows w"
  shows "idem_rows rows (snd (UnitOfWork_Execute V Background fn w))"
proof -
  obtain r1 w1 where b: "pool_Begin (v_faults V) w = (r1, w1)" by fastforce
  obtain r2 w2 where g: "fn WithTx w1 = (r2, w2)" by fastforce
  show ?thesis
  proof (cases r1)
    case (Inl e)
    then show ?thesis
      using assms(2) b by (auto simp: UnitOfWork_Execute_def idem_rows_def pool_Begin_def
          split: option.splits fault.splits)
  next
    case (Inr u)
    note w1 = pool_Begin_Inr [OF b [unfolded Inr]]
    obtain db' b' where j: "committed w2 = committed w1" "open_tx w2 = Some (db', b')"
      "t_idempotency db' = t_idempotency (committed w)"
      using joinsD [OF assms(1) g, of "committed w" False] w1 by auto
    have c: "t_idempotency (committed (snd (tx_Commit (v_faults V) w2))) = rows"
      using tx_Commit_cases [OF prod.collapse [symmetric], of "v_faults V" w2] j w1 assms(2)
      by (auto simp: seen_def idem_rows_def)
    then show ?thesis
      using b g Inr j w1 assms(2)
      by (auto simp: UnitOfWork_Execute_def idem_rows_def rollback_joined_snd case_prod_beta
          split: sum.splits)
  qed
qed

lemma insert_cutoffs_joins: "joins (insert_cutoffs V WithTx rs)"
proof (induction rs)
  case (Cons r rs)
  then show ?case
    by (auto intro!: joins_bind joins_exec simp: insert_cutoff_stmt_def split: if_splits)
qed (simp add: joins_pure)

lemma schedule_save_joins: "joins (pg_sched_Save V WithTx s)"
  unfolding pg_sched_Save_def
  by (intro joins_bind joins_exec insert_cutoffs_joins)
    (auto simp: save_schedule_stmt_def delete_cutoffs_stmt_def)

lemma idem_rows_read: "idem_rows rows w \<Longrightarrow> idem_rows rows (snd (sql_exec F Background (\<lambda>db. Inr (f db, db)) w))"
  by (rule idem_rows_exec) auto

interpretation pg_between: between_requests "pg_deps V" "idem_rows rows"
proof (unfold_locales, goal_cases)
  case (4 w site)
  show ?case
    unfolding pg_sel pg_FindBySiteID_def
    by (rule io_bind_keeps [where P = "idem_rows rows", OF _ _ 4])
      (auto intro!: idem_rows_read io_bind_keeps [where P = "idem_rows rows"] split: option.splits sum.splits)
next
  case (8 w p ev)
  show ?case
    unfolding save_and_publish_def atomically_def pg_sel option.case
    by (rule idem_rows_uow [OF _ 8]) (intro joins_bind save_joins publish_joins)
next
  case (9 w s ev)
  show ?case
    unfolding save_and_publish_def atomically_def pg_sel option.case
    by (rule idem_rows_uow [OF _ 9]) (intro joins_bind schedule_save_joins publish_joins)
qed (auto simp: pg_FindByID_def pg_ListActive_def pg_ListAll_def pg_list_def pg_clock_def idem_rows_def
    recordAccepted_def recordRejected_def pg_metrics_def pg_count_def
    intro!: idem_rows_read [unfolded idem_rows_def])

lemma handlers_kept:
  assumes "idem_rows rows w"
  shows "idem_rows rows (snd (handleListPaths H (pg_deps V) Background r w))"
    "idem_rows rows (snd (handleGetPath H (pg_deps V) Background r w))"
    "idem_rows rows (snd (handleRevisePath H E (pg_deps V) Background r w))"
    "idem_rows rows (snd (handleDeactivatePath H (pg_deps V) Background r w))"
    "idem_rows rows (snd (handleDefineCPTSchedule H E (pg_deps V) Background r w))"
    "idem_rows rows (snd (handleGetCPTSchedule H (pg_deps V) Background r w))"
  using assms pg_between.reads_kept [OF assms, where V = V]
    pg_between.revise_kept [OF assms, where V = V] pg_between.deactivate_kept [OF assms, where V = V]
    pg_between.schedule_kept [OF assms, where V = V]
  by (auto simp: handleListPaths_def list_response_def handleGetPath_def handleRevisePath_def
      handleDeactivatePath_def handleDefineCPTSchedule_def handleGetCPTSchedule_def case_prod_beta
      split: sum.splits option.splits list.splits)

lemma router_settled:
  assumes "settled w"
  shows "settled (snd (pg_router H V sha g rt Background r w))"
proof (cases "rt = RDefinePath")
  case True
  obtain resp w' where run: "post_path H V sha r w = (resp, w')" by fastforce
  have "pg_router H V sha g rt Background r w = (resp, w')"
    using run True by (simp add: post_path_def pg_router_def NewRouter_def)
  moreover from run have "settled w'"
  proof (cases rule: post_path_cases)
    case (ran resp0)
    have "outcomes_known (committed w')"
      by (rule outcomes_known_append [OF _ _ _ ran(4)])
        (use assms ran(3) in \<open>auto simp: settled_def key_row_def outcome_of_def\<close>)
    then show ?thesis using ran(1) by (simp add: settled_def)
  qed (use assms in \<open>auto simp: settled_def\<close>)
  ultimately show ?thesis by simp
next
  case False
  let ?rows = "t_idempotency (committed w)"
  have i: "idem_rows ?rows w" using assms by (simp add: idem_rows_def settled_def)
  have "idem_rows ?rows (snd (pg_router H V sha g rt Background r w))"
    using handlers_kept [OF i, where H = H and V = V and r = r] i False
    by (cases rt) (auto simp: pg_router_def NewRouter_def handleHealthz_def handleReadyz_def)
  then show ?thesis using assms by (auto simp: settled_def idem_rows_def outcomes_known_def)
qed

section \<open>The invariant of the stores through the endpoint\<close>

lemma handler_inv:
  assumes "pg_keeps V Q w" "handleDefinePath H E (pg_deps V) c r w = (resp, w')"
  shows "pg_keeps V Q w'"
  using assms(2)
proof (cases rule: handleDefinePath_cases)
  case (2 pid pr d cs role ct el e)
  then show ?thesis using pg_app.define_inv [OF assms(1)] by (metis snd_conv)
next
  case (3 pid pr d cs role ct el p)
  then show ?thesis using pg_app.define_inv [OF assms(1)] by (metis snd_conv)
qed (use assms(1) in simp)

lemma insert_key_inv:
  "pg_keeps V Q w \<Longrightarrow> pg_keeps V Q (snd (sql_exec (v_faults V) c (insert_key_stmt key m p h) w))"
  by (rule pg_inv_exec) (auto simp: insert_key_stmt_def split: prod.splits)

lemma record_inv:
  "pg_keeps V Q w \<Longrightarrow> pg_keeps V Q (snd (sql_exec (v_faults V) c (record_outcome_stmt key resp) w))"
  by (rule pg_inv_exec) (auto simp: record_stmt recorded_def)

lemma replay_inv:
  assumes "pg_keeps V Q w"
  shows "pg_keeps V Q (snd (replayCachedResponse H V r key h w))"
proof -
  let ?st = "\<lambda>db. case select ik_key key (t_idempotency db) of
     None \<Rightarrow> Inl (PlainErr ''no rows in result set'') | Some row \<Rightarrow> Inr (row, db)"
  have "snd (replayCachedResponse H V r key h w) = snd (sql_exec (v_faults V) Background ?st w)"
    by (auto simp: replayCachedResponse_def split: prod.splits sum.splits option.splits)
  moreover have "pg_keeps V Q (snd (sql_exec (v_faults V) Background ?st w))"
    by (rule pg_inv_exec [OF assms]) (auto split: option.splits)
  ultimately show ?thesis by simp
qed

lemma post_path_inv:
  assumes "pg_keeps V Q w"
  shows "pg_keeps V Q (snd (post_path H V sha r w))"
proof -
  let ?F = "v_faults V" and ?key = "header_get r IdempotencyKeyHeader" and ?h = "sha (rq_body r)"
  let ?next = "raw (handleDefinePath H (v_ext V) (pg_deps V))"
  obtain r1 w1 where b: "pool_Begin ?F w = (r1, w1)" by fastforce
  obtain r2 w2 where x: "sql_exec ?F WithTx (insert_key_stmt ?key (rq_method r) (rq_path r) ?h) w1 = (r2, w2)"
    by fastforce
  obtain resp w3 where n: "handleDefinePath H (v_ext V) (pg_deps V) WithTx r w2 = (resp, w3)" by fastforce
  obtain r4 w4 where u: "sql_exec ?F WithTx (record_outcome_stmt ?key resp) w3 = (r4, w4)" by fastforce
  have i1: "pg_keeps V Q w1" using pg_inv_tx(1) [OF assms, of ?F] b by simp
  have i2: "pg_keeps V Q w2" using insert_key_inv [OF i1] x by (metis snd_conv)
  have i3: "pg_keeps V Q w3" using handler_inv [OF i2 n] .
  have i4: "pg_keeps V Q w4" using record_inv [OF i3] u by (metis snd_conv)
  have rf: "pg_keeps V Q (snd (runFreshRequest H V ?next r ?key w2))"
    using i4 u n pg_inv_tx(2,3) [where F = ?F and V = V and Q = Q]
    by (auto simp: runFreshRequest_def raw_def case_prod_beta split: sum.splits)
  have rp: "pg_keeps V Q (snd (replayCachedResponse H V r ?key ?h (snd (tx_Rollback ?F w2))))"
    using i2 by (intro replay_inv pg_inv_tx(3))
  have "pg_keeps V Q (snd (RequireIdempotencyKey H V sha ?next Background r w))"
    using assms b x i1 i2 rf rp pg_inv_tx(3) [OF i2, of ?F]
    by (auto simp: RequireIdempotencyKey_def Let_def case_prod_beta split: option.splits sum.splits)
  then show ?thesis
    by (auto simp: post_path_eq recovered_def split: prod.splits option.splits)
qed

section \<open>Retries\<close>

definition post_all :: "http_env \<Rightarrow> pg_env \<Rightarrow> (string \<Rightarrow> string) \<Rightarrow> http_request list \<Rightarrow> oltp pg \<Rightarrow> oltp pg" where
  "post_all H V sha rs w = fold (\<lambda>r w. snd (post_path H V sha r w)) rs w"

lemma post_all_known:
  assumes "settled w" "\<forall>r \<in> set rs. header_get r IdempotencyKeyHeader = key"
    and "select ik_key key (t_idempotency (committed w)) = Some row"
  shows "committed (post_all H V sha rs w) = committed w"
  using assms(1-3)
proof (induction rs arbitrary: w)
  case (Cons r rs)
  obtain resp w1 where run: "post_path H V sha r w = (resp, w1)" by fastforce
  have "committed w1 = committed w \<and> open_tx w1 = None"
    using run by (cases rule: post_path_cases) (use Cons.prems in \<open>auto simp: settled_def\<close>)
  moreover from this have "committed (post_all H V sha rs w1) = committed w1"
    using Cons.prems by (intro Cons.IH) (auto simp: settled_def)
  ultimately show ?case by (simp add: post_all_def run)
qed (simp add: post_all_def)

lemma post_all_once:
  assumes "pg_keeps V Q w" "settled w" "encodes_created V"
    and "\<forall>r \<in> set rs. header_get r IdempotencyKeyHeader = key"
  shows "pg_view V Background (post_all H V sha rs w) = pg_view V Background w
    \<or> cat_step (v_ext V) (pg_sp (v_ext V)) (pg_ss (v_ext V)) (outbox_emit V)
        (pg_view V Background w) (pg_view V Background (post_all H V sha rs w))"
  using assms
proof (induction rs arbitrary: w)
  case (Cons r rs)
  obtain resp w1 where run: "post_path H V sha r w = (resp, w1)" by fastforce
  have eq: "post_all H V sha (r # rs) w = post_all H V sha rs w1" by (simp add: post_all_def run)
  have i1: "pg_keeps V Q w1" using post_path_inv [OF Cons.prems(1)] run by (metis snd_conv)
  have s1: "settled w1"
    using router_settled [OF Cons.prems(2), of H V sha None RDefinePath r] run by (simp add: post_path_def)
  from run show ?case
  proof (cases rule: post_path_cases)
    case (ran resp0)
    have "select ik_key key (t_idempotency (committed w1)) = Some (key_row sha r (outcome_of resp0))"
      using ran(3,4) Cons.prems(4) by (simp add: select_append key_row_def)
    then have "committed (post_all H V sha rs w1) = committed w1"
      using post_all_known [OF s1, of rs key] Cons.prems(4) by auto
    then have "pg_view V Background (post_all H V sha rs w1) = pg_view V Background w1"
      by (simp add: pg_view_def seen_def)
    then show ?thesis using ran(6) [OF Cons.prems(1,3)] by (auto simp: eq split: if_splits)
  qed (use Cons.IH [OF i1 s1] Cons.prems in \<open>auto simp: eq pg_view_def seen_def\<close>)
qed (simp add: post_all_def)

end
