(* ===== verification/HttpErrors.thy ===== *)
theory HttpErrors
  imports IdempotencyRefine
begin

text \<open>
  Where the errors a client sees come from: nothing the database, the unit of work or the encoders
  report is one of the service's own error values, so it is answered with a 500 and a 4xx is always
  a decision taken before anything was written.
\<close>

section \<open>Errors that are not the service's own\<close>

definition opaque :: "('w, 'a) io \<Rightarrow> bool" where
  "opaque m \<longleftrightarrow> (\<forall>w e w'. m w = (Inl e, w') \<longrightarrow> statusFor e = 500)"

lemma opaqueD: "opaque m \<Longrightarrow> m w = (Inl e, w') \<Longrightarrow> statusFor e = 500"
  by (auto simp: opaque_def)

definition foreign_errors :: "pg_env \<Rightarrow> bool" where
  "foreign_errors V \<longleftrightarrow> (\<forall>n e. v_faults V n = Some (Refused e) \<or> v_faults V n = Some (Ambiguous e) \<longrightarrow>
       statusFor e = 500)
     \<and> (\<forall>enc \<in> set (v_encoders V). \<forall>ev i e. enc ev i = Inl e \<longrightarrow> statusFor e = 500)"

lemma statusFor_wrap [simp]:
  "statusFor (WrapErr s e) = statusFor e" "statusFor (PlainErr s) = 500"
  by (simp_all add: statusFor_def)

lemma statusFor_join: "statusFor a = 500 \<Longrightarrow> statusFor b = 500 \<Longrightarrow> statusFor (JoinErr a b) = 500"
  by (simp add: statusFor_500 list_all_iff problemCatalog_def)

lemma tx_errors [simp]:
  "statusFor ErrTxClosed = 500" "statusFor ErrTxAborted = 500" "statusFor ErrTxCommitRollback = 500"
  by (simp_all add: ErrTxClosed_def ErrTxAborted_def ErrTxCommitRollback_def)

lemma opaque_exec:
  assumes "foreign_errors V" "\<And>db e. st db = Inl e \<Longrightarrow> statusFor e = 500"
  shows "opaque (sql_exec (v_faults V) c st)"
  using assms by (auto simp: opaque_def foreign_errors_def sql_exec_def
      split: ctx.splits option.splits fault.splits sum.splits prod.splits bool.splits)

lemma opaque_bind: "opaque m \<Longrightarrow> (\<And>a. opaque (f a)) \<Longrightarrow> opaque (io_bind m f)"
  by (fastforce simp: opaque_def io_bind_def split: prod.splits sum.splits)

lemma opaque_pure: "opaque (Pair (Inr a))"
  by (simp add: opaque_def)

lemma opaque_tx:
  assumes "foreign_errors V"
  shows "opaque (pool_Begin (v_faults V))" "opaque (tx_Commit (v_faults V))" "opaque (tx_Rollback (v_faults V))"
  using assms by (auto simp: opaque_def foreign_errors_def pool_Begin_def tx_Commit_def tx_Rollback_def
      split: option.splits fault.splits prod.splits bool.splits)

lemma opaque_save: "foreign_errors V \<Longrightarrow> opaque (pg_Save V c p)"
  unfolding pg_Save_def by (rule opaque_exec) (auto simp: save_path_stmt_def split: if_splits)

lemma opaque_cutoffs: "foreign_errors V \<Longrightarrow> opaque (insert_cutoffs V c rs)"
  by (induction rs) (auto intro!: opaque_bind opaque_exec simp: opaque_pure insert_cutoff_stmt_def split: if_splits)

lemma opaque_schedule_save: "foreign_errors V \<Longrightarrow> opaque (pg_sched_Save V c s)"
  unfolding pg_sched_Save_def
  by (intro opaque_bind opaque_exec opaque_cutoffs) (auto simp: save_schedule_stmt_def delete_cutoffs_stmt_def)

lemma opaque_enqueue: "foreign_errors V \<Longrightarrow> opaque (enqueue V c x at)"
  using opaque_exec [of V "enqueue_stmt (v_ext V) n (v_jsonb V) x at" c for n]
  by (fastforce simp: opaque_def enqueue_def enqueue_stmt_def split: prod.splits sum.splits)

lemma opaque_enqueue_all:
  assumes "foreign_errors V" "set encs \<subseteq> set (v_encoders V)"
  shows "opaque (enqueue_all V c ev i encs)"
  using assms(2)
proof (induction encs)
  case (Cons enc encs)
  show ?case
  proof (cases "enc ev i")
    case (Inl e)
    then show ?thesis using Cons.prems assms(1) by (auto simp: opaque_def foreign_errors_def)
  next
    case (Inr x)
    then show ?thesis using Cons assms(1) by (auto intro!: opaque_bind opaque_enqueue)
  qed
qed (simp add: opaque_pure)

lemma opaque_publish: "foreign_errors V \<Longrightarrow> opaque (OutboxPublisher_Publish V c ev)"
  using opaque_enqueue_all [of V "v_encoders V"] by (auto simp: opaque_def OutboxPublisher_Publish_def)

lemma opaque_uow:
  assumes "foreign_errors V" "\<And>c. opaque (fn c)"
  shows "opaque (UnitOfWork_Execute V c fn)"
proof (cases c)
  case WithTx
  then show ?thesis using assms(2) by (simp add: UnitOfWork_Execute_def)
next
  case Background
  have rb: "statusFor e' = 500" if "rollback_joined V e w = (Inl e', w')" "statusFor e = 500" for e e' w w'
    using that
    by (auto simp: rollback_joined_def split: prod.splits sum.splits if_splits
        intro!: statusFor_join dest: opaqueD [OF opaque_tx(3) [OF assms(1)]])
  have ok: "fst (rollback_joined V e w) \<noteq> Inr u" for e w u using rollback_joined_snd(2) [of V e w] by auto
  show ?thesis
    unfolding Background opaque_def
  proof (intro allI impI)
    fix w e w'
    assume run: "UnitOfWork_Execute V Background fn w = (Inl e, w')"
    obtain r1 w1 where b: "pool_Begin (v_faults V) w = (r1, w1)" by fastforce
    obtain r2 w2 where g: "fn WithTx w1 = (r2, w2)" by fastforce
    obtain r3 w3 where k: "tx_Commit (v_faults V) w2 = (r3, w3)" by fastforce
    show "statusFor e = 500"
      using run b g k
      by (cases r1; cases r2; cases r3)
        (auto simp: UnitOfWork_Execute_def dest!: rb dest: opaqueD [OF assms(2)]
          opaqueD [OF opaque_tx(1) [OF assms(1)]] opaqueD [OF opaque_tx(2) [OF assms(1)]])
  qed
qed

lemma scope_errors:
  assumes "foreign_errors V"
  shows "opaque (save_and_publish (pg_deps V) c (\<lambda>c'. repo_Save (pg_repo V) c' p) ev)"
    "opaque (save_and_publish (pg_deps V) c (\<lambda>c'. sched_Save (pg_schedule_repo V) c' s) ev)"
  using assms
  by (auto simp: save_and_publish_def atomically_def
      intro!: opaque_uow opaque_bind opaque_save opaque_schedule_save opaque_publish)

section \<open>A 4xx changes nothing\<close>

text \<open>Every status a handler can answer with, other than 500, came with the view unchanged, or is a success.\<close>

lemma view_refused:
  assumes "pg_keeps V Q w" "foreign_errors V" "statusFor e < 500"
  shows "RevisePath_Execute (v_ext V) (pg_deps V) Background pid pr cs ct el w = (Inl e, w') \<Longrightarrow>
      pg_view V Background w' = pg_view V Background w"
    "DeactivatePath_Execute (pg_deps V) Background pid w = (Inl e, w') \<Longrightarrow>
      pg_view V Background w' = pg_view V Background w"
    "DefineCPTSchedule_Execute (v_ext V) (pg_deps V) Background site tz xs w = (Inl e, w') \<Longrightarrow>
      pg_view V Background w' = pg_view V Background w"
proof -
  have s: "statusFor e = 500"
    if "save_and_publish (pg_deps V) Background (\<lambda>c'. repo_Save (Repo (pg_deps V)) c' p) ev w = (Inl e, w')"
    for p ev w w' e
    using opaqueD [OF scope_errors(1) [OF assms(2)]] that by simp
  have s2: "statusFor e = 500"
    if "save_and_publish (pg_deps V) Background (\<lambda>c'. sched_Save (ScheduleRepo (pg_deps V)) c' q) ev w = (Inl e, w')"
    for q ev w w' e
    using opaqueD [OF scope_errors(2) [OF assms(2)]] that by simp
  show "RevisePath_Execute (v_ext V) (pg_deps V) Background pid pr cs ct el w = (Inl e, w') \<Longrightarrow>
      pg_view V Background w' = pg_view V Background w"
    by (rule pg_atomic.revise_refused [where bad = "\<lambda>e. statusFor e = 500", OF assms(1) _ less_imp_neq [OF assms(3)]]) (use s in auto)
  show "DeactivatePath_Execute (pg_deps V) Background pid w = (Inl e, w') \<Longrightarrow>
      pg_view V Background w' = pg_view V Background w"
    by (rule pg_atomic.deactivate_refused [where bad = "\<lambda>e. statusFor e = 500", OF assms(1) _ less_imp_neq [OF assms(3)]]) (use s in auto)
  show "DefineCPTSchedule_Execute (v_ext V) (pg_deps V) Background site tz xs w = (Inl e, w') \<Longrightarrow>
      pg_view V Background w' = pg_view V Background w"
    by (rule pg_atomic.schedule_refused [where bad = "\<lambda>e. statusFor e = 500", OF assms(1) _ less_imp_neq [OF assms(3)]]) (use s2 in auto)
qed

lemma reads_view:
  assumes "pg_keeps V Q w"
  shows "pg_view V Background (snd (handleListPaths H (pg_deps V) Background r w)) = pg_view V Background w"
    "pg_view V Background (snd (handleGetPath H (pg_deps V) Background r w)) = pg_view V Background w"
    "pg_view V Background (snd (handleGetCPTSchedule H (pg_deps V) Background r w)) = pg_view V Background w"
  by (auto simp: handleListPaths_def list_response_def handleGetPath_def handleGetCPTSchedule_def
      ListPaths_Execute_def GetPath_Execute_def GetCPTSchedule_Execute_def case_prod_beta pg_read_view
      split: option.splits sum.splits list.splits)

lemma refusal_changes_nothing:
  assumes "pg_keeps V Q w" "foreign_errors V" "encodes_created V"
    and run: "pg_router H V sha g rt Background r w = (resp, w')"
    and st: "400 \<le> rs_status resp" "rs_status resp < 500"
  shows "pg_view V Background w' = pg_view V Background w"
proof (cases rt)
  case RDefinePath
  then have "post_path H V sha r w = (resp, w')"
    using run by (simp add: post_path_def pg_router_def NewRouter_def)
  then show ?thesis
    by (cases rule: post_path_cases)
      (use assms(1,3) st in \<open>fastforce simp: pg_view_def seen_def split: if_splits\<close>)+
next
  case RRevisePath
  then show ?thesis
    using run st view_refused(1) [OF assms(1,2)]
    by (auto simp: pg_router_def NewRouter_def handleRevisePath_def split: sum.splits prod.splits)
next
  case RDeactivatePath
  then show ?thesis
    using run st view_refused(2) [OF assms(1,2)]
    by (auto simp: pg_router_def NewRouter_def handleDeactivatePath_def split: sum.splits prod.splits)
next
  case RDefineSchedule
  then show ?thesis
    using run st view_refused(3) [OF assms(1,2)]
    by (auto simp: pg_router_def NewRouter_def handleDefineCPTSchedule_def split: sum.splits prod.splits)
next
  case RListPaths
  then show ?thesis using run reads_view(1) [OF assms(1), of H r]
    by (simp add: pg_router_def NewRouter_def)
next
  case RGetPath
  then show ?thesis using run reads_view(2) [OF assms(1), of H r]
    by (simp add: pg_router_def NewRouter_def)
next
  case RGetSchedule
  then show ?thesis using run reads_view(3) [OF assms(1), of H r]
    by (simp add: pg_router_def NewRouter_def)
qed (use run in \<open>auto simp: pg_router_def NewRouter_def handleHealthz_def handleReadyz_def split: if_splits\<close>)

end
