(* ===== verification/HttpClaims.thy ===== *)
theory HttpClaims
  imports AppClaims HttpErrors
begin

text \<open>
  The properties of the HTTP adapter and of its idempotency middleware, with their witnesses over a
  small concrete environment.
\<close>

section \<open>A concrete environment\<close>

text \<open>
  Every non-empty body stands for one document, the definition of \<open>pick-pack\<close>; a document is
  rendered as its first field's name.
\<close>

definition demo_document :: json where
  "demo_document = JObj [(''pathId'', JStr ''pick-pack''), (''matchPrefix'', JStr ''pp''),
     (''requiredCapabilities'', JArr [JStr ''pick'']), (''cycleTimeP95'', JStr ''2h'')]"

definition demo_http :: http_env where
  "demo_http = \<lparr>h_parse = (\<lambda>e b. if b = '''' then Inl (PlainErr ''EOF'') else Inr demo_document),
     h_quote = id, h_render = (\<lambda>j. case j of JObj ((k, _) # _) \<Rightarrow> k | _ \<Rightarrow> ''''), h_fold = id,
     h_type_error = (\<lambda>n v. PlainErr n), h_time = (\<lambda>t. ''t''), h_parse_time = (\<lambda>s. Some (int (length s))),
     h_seconds = (\<lambda>d. ''0''), h_text = (\<lambda>e. ''error''),
     h_frac = (\<lambda>f u s. f)\<rparr>"

definition demo_post :: "string \<Rightarrow> string \<Rightarrow> http_request" where
  "demo_post key body = \<lparr>rq_path = ''/process-paths'', rq_method = ''POST'', rq_param = '''',
     rq_query = '''', rq_headers = [(IdempotencyKeyHeader, key)], rq_body = body, rq_read_error = None\<rparr>"

lemma demo_encodes: "encodes_created (demo_env F)"
proof -
  have "\<exists>x. encodeFor demo_sdk (ProcessPathCreated (path_payload p t)) (demo_id k) topic stream = Inr x"
    if "pp_id p \<noteq> ''''" for p t k topic stream
    using that
    by (simp add: encodeFor_def ce_New_def demo_sdk_def ce_required_def demo_id_def path_payload_def
        ce_Source_def ce_Type_def Let_def)
  then show ?thesis
    by (simp add: encodes_created_def Encode_def AnalyticsEncoder_Encode_def)
qed

lemma settled_init: "settled pg_init"
  by (simp add: settled_def pg_init_def outcomes_known_def empty_oltp_def)

section \<open>The idempotency middleware\<close>

text \<open>
  C7. The middleware's core claim: whatever requests are served on whatever routes and whatever
  database calls fail (commits that report an error included), a committed idempotency key always
  has its response recorded, keys are distinct and no transaction stays open.
\<close>

theorem outcomes_always_known:
  "settled (fold (\<lambda>(rt, g, r) w. snd (pg_router H V sha g rt Background r w)) ops pg_init)"
proof -
  have "settled w \<Longrightarrow> settled (fold (\<lambda>(rt, g, r) w. snd (pg_router H V sha g rt Background r w)) ops w)" for w
    by (induction ops arbitrary: w) (auto intro: router_settled)
  then show ?thesis using settled_init by blast
qed





text \<open>
  A known key never runs the handler: nothing committed changes, and as long as no call fails
  the answer to the same body is the recorded response, to a different body (by its hash) a 422.
\<close>

theorem known_key_replayed:
  assumes "select ik_key (header_get r IdempotencyKeyHeader) (t_idempotency (committed w)) = Some row"
    and "ik_outcome row = Some (code, body, headers)"
    and "header_get r IdempotencyKeyHeader \<noteq> ''''" "rq_read_error r = None" "v_faults V = (\<lambda>_. None)"
    and "RequireIdempotencyKey H V sha nh c r w = (res, w')"
  shows "committed w' = committed w \<and> (if ik_request_hash row = sha (rq_body r)
      then res = Some \<lparr>rs_status = code, rs_headers = headers, rs_body = body\<rparr>
      else map_option rs_status res = Some 422)"
  using assms(6)
proof (cases rule: RequireIdempotencyKey_cases)
  case (refused resp)
  then show ?thesis using assms(3-5) by blast
next
  case (known resp row')
  then show ?thesis using assms by (auto simp: replayed_def)
next
  case (fresh w2)
  then show ?thesis using assms(1) by simp
qed

definition one_key :: "oltp pg" where
  "one_key = pg_init\<lparr>committed := empty_oltp\<lparr>t_idempotency :=
     [\<lparr>ik_key = ''k'', ik_method = ''POST'', ik_path = ''/process-paths'', ik_request_hash = ''x'',
       ik_outcome = Some (201, ''created'', [])\<rparr>]\<rparr>\<rparr>"

lemma known_key_replayed_witness:
  "\<exists>w'. RequireIdempotencyKey demo_http (demo_env (\<lambda>_. None)) id (\<lambda>c r w. (None, pg_init)) Background
     (demo_post ''k'' ''x'') one_key = (Some \<lparr>rs_status = 201, rs_headers = [], rs_body = ''created''\<rparr>, w')"
proof -
  obtain res w' where run: "RequireIdempotencyKey demo_http (demo_env (\<lambda>_. None)) id (\<lambda>c r w. (None, pg_init))
     Background (demo_post ''k'' ''x'') one_key = (res, w')" by fastforce
  have "select ik_key (header_get (demo_post ''k'' ''x'') IdempotencyKeyHeader) (t_idempotency (committed one_key))
    = Some \<lparr>ik_key = ''k'', ik_method = ''POST'', ik_path = ''/process-paths'', ik_request_hash = ''x'',
       ik_outcome = Some (201, ''created'', [])\<rparr>"
    by (simp add: select_def header_get_def demo_post_def one_key_def)
  from known_key_replayed [OF this _ _ _ _ run] show ?thesis
    using run by (simp add: demo_post_def header_get_def)
qed

section \<open>A failing encoder inside the middleware\<close>

definition mute_sdk :: sdk where
  "mute_sdk = demo_sdk\<lparr>MarshalJSON := (\<lambda>e. Inl (PlainErr ''unsupported value''))\<rparr>"

definition mute_env :: pg_env where
  "mute_env = (demo_env no_faults)\<lparr>v_encoders := [Encode mute_sdk, AnalyticsEncoder_Encode mute_sdk]\<rparr>"

lemma demo_decoded:
  "decodeJSON demo_http (demo_post k ''x'') (define_fields demo_http) zero_define = Inr
     \<lparr>dq_pathId = ''pick-pack'', dq_matchPrefix = ''pp'', dq_direct = False, dq_requiredCapabilities = [''pick''],
      dq_destinationLocationRole = '''', dq_cycleTimeP95 = ''2h'', dq_eligibility = None\<rparr>"
  by (simp add: decodeJSON_def demo_http_def demo_post_def demo_document_def into_struct_def define_fields_def
      into_string_def into_bool_def into_slice_def into_struct_ptr_def string_element_def zero_define_def)

lemma demo_cycle: "parseCycleTimeP95 demo_http ''2h'' = Inr 7200000000000"
proof -
  have i: "leadingInt ''2h'' = Some (2, ''h'')"
    by (simp add: leadingInt_def is_digit_def digit_val_def char_code_def less_eq_char_def)
  have c: "parse_component f ''2h'' = Some (7200000000000, [])" for f
    by (simp add: parse_component_def parse_number_def i fraction_of_def unit_char_def is_digit_def
        duration_unit_def in_unit_def less_eq_char_def micro_sign_def)
  show ?thesis by (simp add: parseCycleTimeP95_def ParseDuration_def c)
qed

lemma mute_sel: "v_ext mute_env = demo_ext" "v_faults mute_env = no_faults"
    "v_now mute_env n = 1000 * int n" "v_id mute_env = demo_id" "v_jsonb mute_env = id"
    "v_encoders mute_env = [Encode mute_sdk, AnalyticsEncoder_Encode mute_sdk]"
  by (simp_all add: mute_env_def)

lemma mute_encode:
  "pp_id p \<noteq> '''' \<Longrightarrow> \<exists>e. Encode mute_sdk (ProcessPathCreated (path_payload p t)) (demo_id n) = Inl e
     \<and> statusFor e = 500"
  by (simp add: Encode_def encodeFor_def ce_New_def mute_sdk_def demo_sdk_def ce_required_def path_payload_def
      demo_id_def ce_Source_def ce_Type_def Let_def statusFor_def)

definition demo_created :: ProcessPath where
  "demo_created = sample_path\<lparr>requiredCapabilities := [''pick''], destinationLocationRole := '''',
     createdAt := 0, updatedAt := 0\<rparr>"

lemma demo_accepted:
  "Define demo_ext ''pick-pack'' ''pp'' False [''pick''] '''' 7200000000000 EligibilityZero 0 = Inr demo_created"
  by (simp add: Define_Inr_iff definition_ok_def strings_ToLower_def is_ascii_def char_code_def ascii_lower_def
      less_eq_char_def recognized_role_def role_defs sample_path_def demo_created_def)

text \<open>
  Under the middleware the unit of work only joins, so an error of it that is not a database error
  does not roll anything back: when the event cannot be encoded the client gets a 500, yet the path
  is committed without any event in the outbox, and the 500 is what every retry with this key gets.
\<close>

lemma encoder_failure_committed:
  "case post_path demo_http mute_env id (demo_post ''k'' ''x'') pg_init of (resp, w) \<Rightarrow>
     rs_status resp = 500 \<and> map pr_id (t_paths (committed w)) = [''pick-pack''] \<and> t_outbox (committed w) = []
     \<and> map ik_outcome (t_idempotency (committed w)) = [outcome_of resp]"
proof -
  have pid: "pp_id demo_created = ''pick-pack''" by (simp add: demo_created_def sample_path_def)
  obtain e where e: "Encode mute_sdk (ProcessPathCreated (path_payload demo_created 0)) (demo_id 0) = Inl e"
    "statusFor e = 500"
    using mute_encode [of demo_created 0 0] pid by auto
  have chk: "path_check (path_to_row demo_created)"
    by (simp add: demo_created_def sample_path_def path_check_def path_to_row_def StatusActive_def
        destinationLocationRoleToColumn_def role_defs)
  show ?thesis
    by (simp add: post_path_eq recovered_def RequireIdempotencyKey_def header_get_def demo_post_def mute_sel
        pool_Begin_def no_faults_def tick_def pg_init_def sql_exec_def insert_key_stmt_def insert_ignore_def
        empty_oltp_def runFreshRequest_def raw_def handleDefinePath_def demo_decoded [unfolded demo_post_def]
        ParseDestinationLocationRole_def DestinationLocationRoleUnset_def demo_cycle DefinePath_Execute_def
        toEligibility_def Let_def pg_FindByID_def pg_clock_def demo_accepted)
      (simp add: save_and_publish_def atomically_def UnitOfWork_Execute_def io_bind_def pg_Save_def sql_exec_def
        mute_sel no_faults_def save_path_stmt_def chk tick_def OutboxPublisher_Publish_def e
        record_outcome_stmt_def tx_Commit_def pid outcome_of_def writeError_def)
qed

section \<open>Errors\<close>

text \<open>
  \<open>statusFor\<close> and \<open>problemFor\<close> agree on every error value, wrapped and joined ones included: the
  status is 500 exactly when the problem is the generic one. Every entry of the catalogue is a
  sentinel that is answered by its own entry with a 4xx status, and no two entries share a type.
\<close>

lemma errors_map_one_for_one:
  "(statusFor e = 500 \<longleftrightarrow> problemFor e = internal_problem)
   \<and> list_all (\<lambda>(t, i). is_sentinel t \<and> problemFor t = i \<and> statusFor t \<in> {404, 409, 422}) problemCatalog
   \<and> distinct (map (slug \<circ> snd) problemCatalog)"
  using problemFor_internal statusFor_500 catalog_sentinels catalog_status catalog_own catalog_distinct
  by (auto simp: list_all_iff)

lemma demo_foreign: "foreign_errors (demo_env no_faults)"
proof -
  have "mapEvent ev \<noteq> Inl e" for ev e using mapEvent_Inr [of ev] by auto
  then show ?thesis
    by (auto simp: foreign_errors_def no_faults_def Encode_def AnalyticsEncoder_Encode_def encodeFor_def
        ce_New_def demo_sdk_def Let_def split: sum.splits if_splits)
qed



end
