(* ===== verification/Analytics.thy ===== *)
theory Analytics
  imports Sql GoText "HOL-Library.AList"
begin

text \<open>
  The analytical read model (\<open>internal/analytics/report\<close>) and its stores
  (\<open>internal/adapters/outbound/analyticsstore\<close>): the in-memory store, the Postgres projection that
  writes the daily rollup, the reader, and the consumer's deduplication table. What the projections
  implement, and their contract, is in \<open>AnalyticsRefine\<close>.
\<close>

section \<open>Reports (catalogue.go, ports.go)\<close>

record RowKey =
  DayBucket :: time

record Row =
  Key :: RowKey
  PathsDefined :: "64 word"
  PathsRevised :: "64 word"
  PathsDeactivated :: "64 word"

type_synonym CatalogueReport = "Row list"

record ReportQuery =
  q_From :: time
  q_To :: time
  q_Granularity :: string

record 'w ReportStore =
  rep_Query :: "ReportQuery \<Rightarrow> ('w, CatalogueReport) io"
  rep_FreshnessLag :: "('w, duration) io"

record 'w ProjectionStore =
  ApplyProcessPathCreated :: "string \<Rightarrow> time \<Rightarrow> ('w, unit) io"
  ApplyProcessPathUpdated :: "string \<Rightarrow> time \<Rightarrow> ('w, unit) io"
  ApplyProcessPathDeactivated :: "string \<Rightarrow> time \<Rightarrow> ('w, unit) io"

definition GranularityDay :: string where
  "GranularityDay = ''day''"

definition hours24 :: int where
  "hours24 = 86400000000000"

text \<open>\<open>Truncate\<close> rounds down to a multiple since the zero time; \<open>Sub\<close> saturates.\<close>

definition dayBucket :: "time \<Rightarrow> time" where
  "dayBucket t = t - t mod hours24"

definition time_Sub :: "time \<Rightarrow> time \<Rightarrow> duration" where
  "time_Sub t u = word_of_int (max (- (2 ^ 63)) (min (2 ^ 63 - 1) (t - u)))"

section \<open>memory_store.go\<close>

record MemoryStore =
  ms_seen :: "string set"
  ms_rows :: "(RowKey \<times> Row) list"
  ms_latest :: time

definition NewMemoryStore :: MemoryStore where
  "NewMemoryStore = \<lparr>ms_seen = {}, ms_rows = [], ms_latest = 0\<rparr>"

definition firstApply :: "string \<Rightarrow> time \<Rightarrow> MemoryStore \<Rightarrow> bool \<times> MemoryStore" where
  "firstApply eventId at s =
     (if eventId \<in> ms_seen s then (False, s)
      else (True, s\<lparr>ms_seen := insert eventId (ms_seen s),
              ms_latest := (if at > ms_latest s then at else ms_latest s)\<rparr>))"

definition empty_row :: "RowKey \<Rightarrow> Row" where
  "empty_row k = \<lparr>Key = k, PathsDefined = 0, PathsRevised = 0, PathsDeactivated = 0\<rparr>"

text \<open>\<open>fn(s.row(at))\<close>: the row of the day, created when missing, is changed in place.\<close>

definition on_row :: "(Row \<Rightarrow> Row) \<Rightarrow> time \<Rightarrow> MemoryStore \<Rightarrow> MemoryStore" where
  "on_row fn at s =
     (let k = \<lparr>DayBucket = dayBucket at\<rparr>;
          r = (case map_of (ms_rows s) k of None \<Rightarrow> empty_row k | Some r \<Rightarrow> r)
      in s\<lparr>ms_rows := AList.update k (fn r) (ms_rows s)\<rparr>)"

definition mutate :: "string \<Rightarrow> time \<Rightarrow> (Row \<Rightarrow> Row) \<Rightarrow> (MemoryStore, unit) io" where
  "mutate eventId at fn s =
     (case firstApply eventId at s of
        (False, s1) \<Rightarrow> (Inr (), s1) | (True, s1) \<Rightarrow> (Inr (), on_row fn at s1))"

definition mem_projection :: "MemoryStore ProjectionStore" where
  "mem_projection = \<lparr>
     ApplyProcessPathCreated = (\<lambda>i at. mutate i at (\<lambda>r. r\<lparr>PathsDefined := PathsDefined r + 1\<rparr>)),
     ApplyProcessPathUpdated = (\<lambda>i at. mutate i at (\<lambda>r. r\<lparr>PathsRevised := PathsRevised r + 1\<rparr>)),
     ApplyProcessPathDeactivated =
       (\<lambda>i at. mutate i at (\<lambda>r. r\<lparr>PathsDeactivated := PathsDeactivated r + 1\<rparr>))\<rparr>"

text \<open>\<open>range\<close> over the map visits the rows in any order, \<open>now\<close> is the store's clock.\<close>

definition mem_Query :: "((RowKey \<times> Row) list \<Rightarrow> (RowKey \<times> Row) list) \<Rightarrow> ReportQuery
    \<Rightarrow> (MemoryStore, CatalogueReport) io" where
  "mem_Query order q s = (Inr (map snd (filter
     (\<lambda>(k, r). \<not> (DayBucket k < q_From q \<or> \<not> DayBucket k < q_To q)) (order (ms_rows s)))), s)"

definition lag_from :: "time \<Rightarrow> time \<Rightarrow> duration" where
  "lag_from now latest = (let lag = time_Sub now latest in if sint lag < 0 then 0 else lag)"

definition mem_FreshnessLag :: "time \<Rightarrow> (MemoryStore, duration) io" where
  "mem_FreshnessLag now s = (Inr (if ms_latest s = 0 then 0 else lag_from now (ms_latest s)), s)"

definition mem_report :: "((RowKey \<times> Row) list \<Rightarrow> (RowKey \<times> Row) list) \<Rightarrow> time \<Rightarrow> MemoryStore ReportStore" where
  "mem_report order now = \<lparr>rep_Query = mem_Query order, rep_FreshnessLag = mem_FreshnessLag now\<rparr>"

section \<open>The analytical database\<close>

text \<open>The tables of \<open>migrations/analytics\<close>; a \<open>BIGINT\<close> out of range is an error of the statement.\<close>

record rollup_row =
  ru_day :: time
  ru_defined :: int
  ru_revised :: int
  ru_deactivated :: int

record adb =
  a_processed :: "(string \<times> time) list"
  a_consumed :: "string list"
  a_rollup :: "rollup_row list"

definition empty_adb :: adb where
  "empty_adb = \<lparr>a_processed = [], a_consumed = [], a_rollup = []\<rparr>"

record analytics_env =
  ae_ext :: ext
  ae_faults :: faults
  ae_now :: "nat \<Rightarrow> time"

definition bigint :: "int \<Rightarrow> bool" where
  "bigint n \<longleftrightarrow> - (2 ^ 63) \<le> n \<and> n < 2 ^ 63"

section \<open>postgres_projection.go\<close>

definition claim_stmt :: "ext \<Rightarrow> string \<Rightarrow> time \<Rightarrow> (adb, bool) stmt" where
  "claim_stmt E eventId at db =
     (case insert_ignore fst (eventId, stored_time E at) (a_processed db) of
        (n, rows) \<Rightarrow> Inr (n > 0, db\<lparr>a_processed := rows\<rparr>))"

definition inTx :: "analytics_env \<Rightarrow> (adb pg, unit) io \<Rightarrow> (adb pg, unit) io" where
  "inTx A fn = (\<lambda>w.
     case pool_Begin (ae_faults A) w of
       (Inl e, w1) \<Rightarrow> (Inl e, w1)
     | (Inr _, w1) \<Rightarrow>
         (case fn w1 of
            (Inl e, w2) \<Rightarrow> (Inl e, snd (tx_Rollback (ae_faults A) w2))
          | (Inr _, w2) \<Rightarrow> tx_Commit (ae_faults A) w2))"

record rollupDelta =
  rd_defined :: int
  rd_revised :: int
  rd_deactivated :: int

definition add_rollup :: "rollup_row \<Rightarrow> rollup_row \<Rightarrow> rollup_row" where
  "add_rollup old new = old\<lparr>ru_defined := ru_defined old + ru_defined new,
     ru_revised := ru_revised old + ru_revised new,
     ru_deactivated := ru_deactivated old + ru_deactivated new\<rparr>"

definition rollup_ok :: "rollup_row \<Rightarrow> bool" where
  "rollup_ok r \<longleftrightarrow> bigint (ru_defined r) \<and> bigint (ru_revised r) \<and> bigint (ru_deactivated r)"

definition upsert_stmt :: "ext \<Rightarrow> time \<Rightarrow> rollupDelta \<Rightarrow> (adb, unit) stmt" where
  "upsert_stmt E at delta db =
     (let rows = upsert ru_day add_rollup \<lparr>ru_day = stored_time E (dayBucket at), ru_defined = rd_defined delta,
            ru_revised = rd_revised delta, ru_deactivated = rd_deactivated delta\<rparr> (a_rollup db)
      in if list_all rollup_ok rows then Inr ((), db\<lparr>a_rollup := rows\<rparr>)
         else Inl (PlainErr ''bigint out of range''))"

definition upsertRollup :: "analytics_env \<Rightarrow> time \<Rightarrow> rollupDelta \<Rightarrow> (adb pg, unit) io" where
  "upsertRollup A at delta = (\<lambda>w.
     case sql_exec (ae_faults A) WithTx (upsert_stmt (ae_ext A) at delta) w of
       (Inl e, w') \<Rightarrow> (Inl (WrapErr ''analyticsstore: upsert rollup'' e), w')
     | (Inr _, w') \<Rightarrow> (Inr (), w'))"

definition projection_apply ::
    "analytics_env \<Rightarrow> string \<Rightarrow> time \<Rightarrow> rollupDelta \<Rightarrow> (adb pg, unit) io" where
  "projection_apply A eventId at delta = inTx A (\<lambda>w.
     case sql_exec (ae_faults A) WithTx (claim_stmt (ae_ext A) eventId at) w of
       (Inl e, w') \<Rightarrow> (Inl (WrapErr ''analyticsstore: claim event'' e), w')
     | (Inr isNew, w') \<Rightarrow> if \<not> isNew then (Inr (), w') else upsertRollup A at delta w')"

definition pg_projection :: "analytics_env \<Rightarrow> adb pg ProjectionStore" where
  "pg_projection A = \<lparr>
     ApplyProcessPathCreated = (\<lambda>i at. projection_apply A i at
        \<lparr>rd_defined = 1, rd_revised = 0, rd_deactivated = 0\<rparr>),
     ApplyProcessPathUpdated = (\<lambda>i at. projection_apply A i at
        \<lparr>rd_defined = 0, rd_revised = 1, rd_deactivated = 0\<rparr>),
     ApplyProcessPathDeactivated = (\<lambda>i at. projection_apply A i at
        \<lparr>rd_defined = 0, rd_revised = 0, rd_deactivated = 1\<rparr>)\<rparr>"

section \<open>consumed_events_repo.go\<close>

definition consume_stmt :: "string \<Rightarrow> (adb, bool) stmt" where
  "consume_stmt eventId db =
     (case insert_ignore id eventId (a_consumed db) of (n, rows) \<Rightarrow> Inr (n > 0, db\<lparr>a_consumed := rows\<rparr>))"

definition MarkProcessed :: "analytics_env \<Rightarrow> string \<Rightarrow> (adb pg, bool) io" where
  "MarkProcessed A eventId = sql_exec (ae_faults A) Background (consume_stmt eventId)"

section \<open>postgres_report.go\<close>

definition row_of :: "rollup_row \<Rightarrow> Row" where
  "row_of r = \<lparr>Key = \<lparr>DayBucket = ru_day r\<rparr>, PathsDefined = word_of_int (ru_defined r),
     PathsRevised = word_of_int (ru_revised r), PathsDeactivated = word_of_int (ru_deactivated r)\<rparr>"

text \<open>The end of the iteration may report an error of its own (\<open>rows.Err\<close>): a second answer of the driver.\<close>

definition pg_Query :: "analytics_env \<Rightarrow> ReportQuery \<Rightarrow> (adb pg, CatalogueReport) io" where
  "pg_Query A q = (\<lambda>w.
     case sql_exec (ae_faults A) Background (\<lambda>db. Inr (map row_of (sort_key ru_day
            (filter (\<lambda>r. stored_time (ae_ext A) (q_From q) \<le> ru_day r
               \<and> ru_day r < stored_time (ae_ext A) (q_To q)) (a_rollup db))), db)) w of
       (Inl e, w1) \<Rightarrow> (Inl (WrapErr ''analyticsstore: query rollup'' e), w1)
     | (Inr rows, w1) \<Rightarrow>
         (case sql_exec (ae_faults A) Background (\<lambda>db. Inr ((), db)) w1 of
            (Inl e, w2) \<Rightarrow> (Inl (WrapErr ''analyticsstore: iterate rows'' e), w2)
          | (Inr _, w2) \<Rightarrow> (Inr rows, w2)))"

text \<open>\<open>max\<close> of no rows is one NULL; the time is read after the query.\<close>

definition pg_FreshnessLag :: "analytics_env \<Rightarrow> (adb pg, duration) io" where
  "pg_FreshnessLag A = (\<lambda>w.
     case sql_exec (ae_faults A) Background (\<lambda>db. Inr (if a_processed db = [] then None
             else Some (Max (snd ` set (a_processed db))), db)) w of
       (Inl e, w1) \<Rightarrow> (Inl (WrapErr ''analyticsstore: freshness query'' e), w1)
     | (Inr None, w1) \<Rightarrow> (Inr 0, w1)
     | (Inr (Some latest), w1) \<Rightarrow>
         if latest = 0 then (Inr 0, w1)
         else (Inr (lag_from (ae_now A (ticks w1)) latest), w1\<lparr>ticks := Suc (ticks w1)\<rparr>))"

definition pg_report :: "analytics_env \<Rightarrow> adb pg ReportStore" where
  "pg_report A = \<lparr>rep_Query = pg_Query A, rep_FreshnessLag = pg_FreshnessLag A\<rparr>"

end
