(* ===== verification/AnalyticsConsumer.thy ===== *)
theory AnalyticsConsumer
  imports Analytics Kafka
begin

text \<open>
  The consumer of the analytics topic (\<open>internal/adapters/inbound/kafka/analytics_consumer.go\<close>):
  decoding, the deduplication gate, the bounded retries and the dead-letter topic. The Kafka reader
  and writer, and \<open>backoff.Retry\<close>, are not under \<open>src/\<close> and are parameters; what the code relies on
  of the latter is \<open>retry_ok\<close>. Logging is left out.
\<close>

section \<open>Errors of kafka-go\<close>

definition UnknownTopicOrPartition :: err where
  "UnknownTopicOrPartition = PlainErr ''[3] Unknown Topic Or Partition''"

definition LeaderNotAvailable :: err where
  "LeaderNotAvailable = PlainErr ''[5] Leader Not Available''"

definition context_Canceled :: err where
  "context_Canceled = PlainErr ''context canceled''"

text \<open>\<open>errors.As(err, &werrs)\<close>: the first \<open>WriteErrors\<close> of the tree, depth first.\<close>

fun as_WriteErrors :: "err \<Rightarrow> err option list option" where
  "as_WriteErrors (WriteErrors es) = Some es"
| "as_WriteErrors (WrapErr s e) = as_WriteErrors e"
| "as_WriteErrors (SuffixErr e s) = as_WriteErrors e"
| "as_WriteErrors (JoinErr a b) =
     (case as_WriteErrors a of Some es \<Rightarrow> Some es | None \<Rightarrow> as_WriteErrors b)"
| "as_WriteErrors _ = None"

lemma size_WriteErrors:
  "as_WriteErrors e = Some es \<Longrightarrow> Some x \<in> set es \<Longrightarrow> size x < size e"
proof (induction e rule: as_WriteErrors.induct)
  case (1 es')
  then have "size_option size (Some x) \<le> size_list (size_option size) es'"
    by (intro size_list_estimation' [of "Some x"]) auto
  then show ?case by simp
qed (auto split: option.splits)

function (sequential) isTopicNotReady :: "err \<Rightarrow> bool" where
  "isTopicNotReady err =
     (case as_WriteErrors err of
        Some werrs \<Rightarrow>
          (if list_all (\<lambda>x. case x of None \<Rightarrow> True | Some e \<Rightarrow> isTopicNotReady e) werrs
           then length (filter (\<lambda>x. x \<noteq> None) werrs) > 0 else False)
      | None \<Rightarrow> errors_Is err UnknownTopicOrPartition \<or> errors_Is err LeaderNotAvailable)"
  by pat_completeness auto
termination
  by (relation "measure size") (auto intro: size_WriteErrors)

declare isTopicNotReady.simps [simp del]

section \<open>The consumer\<close>

definition AnalyticsConsumerGroup :: string where
  "AnalyticsConsumerGroup = ''process-path-management-analytics''"

definition analyticsDlqTopicSuffix :: string where
  "analyticsDlqTopicSuffix = ''.dlq''"

definition maxAnalyticsHandlerAttempts :: nat where
  "maxAnalyticsHandlerAttempts = 3"

record fetched =
  f_msg :: kafka_message
  f_Partition :: int
  f_Offset :: int

record analyticsEvent =
  ev_Id :: string
  ev_Type :: string
  ev_Time :: time

type_synonym 'w ProcessedEvents = "string \<Rightarrow> ('w, bool) io"

text \<open>
  The reader is its \<open>FetchMessage\<close>, its \<open>CommitMessages\<close> and its topic (\<open>None\<close> is the \<open>nil\<close>
  reader of the unit tests). The last four fields are the surroundings: \<open>time.Now\<close> as RFC 3339 text,
  the wait of \<open>writeDLQ\<close> (with the context's error when it ends first), the decoder with the texts
  of errors, and \<open>backoff.Retry\<close> for a number of retries. What runs under it is a closure over the
  variable \<open>isNew\<close>, so its state is the pair of the world and that variable.
\<close>

record 'w AnalyticsConsumer =
  ac_FetchMessage :: "('w, fetched) io"
  ac_CommitMessages :: "fetched \<Rightarrow> ('w, unit) io"
  ac_Topic :: "string option"
  ac_Projection :: "'w ProjectionStore"
  ac_Processed :: "'w ProcessedEvents"
  ac_dlqWriter :: "'w Writer option"
  ac_sdk :: sdk
  ac_text :: "err \<Rightarrow> string"
  ac_now :: "'w \<Rightarrow> string \<times> 'w"
  ac_wait :: "'w \<Rightarrow> err option \<times> 'w"
  ac_Retry :: "nat \<Rightarrow> ('w \<times> bool, unit) io \<Rightarrow> ('w \<times> bool, unit) io"

section \<open>Decoding and dispatch\<close>

definition decodeAnalyticsEvent :: "'w AnalyticsConsumer \<Rightarrow> string \<Rightarrow> err + analyticsEvent" where
  "decodeAnalyticsEvent C raw =
     (case ce_Decode (ac_text C) (ac_sdk C) raw of
        Inl er \<Rightarrow> Inl (WrapErr ''analytics'' er)
      | Inr e \<Rightarrow> Inr \<lparr>ev_Id = ce_id e, ev_Type = ce_type e, ev_Time = ce_time e\<rparr>)"

definition isProjectingEventType :: "string \<Rightarrow> bool" where
  "isProjectingEventType t \<longleftrightarrow>
     t = TypeProcessPathCreated \<or> t = TypeProcessPathUpdated \<or> t = TypeProcessPathDeactivated"

definition applyProjection :: "'w AnalyticsConsumer \<Rightarrow> analyticsEvent \<Rightarrow> ('w, unit) io" where
  "applyProjection C env =
     (if ev_Type env = TypeProcessPathCreated then
        ApplyProcessPathCreated (ac_Projection C) (ev_Id env) (ev_Time env)
      else if ev_Type env = TypeProcessPathUpdated then
        ApplyProcessPathUpdated (ac_Projection C) (ev_Id env) (ev_Time env)
      else if ev_Type env = TypeProcessPathDeactivated then
        ApplyProcessPathDeactivated (ac_Projection C) (ev_Id env) (ev_Time env)
      else io_return ())"

definition HandleMessage :: "'w AnalyticsConsumer \<Rightarrow> string \<Rightarrow> ('w, unit) io" where
  "HandleMessage C raw =
     (case decodeAnalyticsEvent C raw of
        Inl e \<Rightarrow> io_fail e
      | Inr env \<Rightarrow>
          if \<not> isProjectingEventType (ev_Type env) then io_return ()
          else (\<lambda>w. case ac_Processed C (ev_Id env) w of
             (Inl e, w') \<Rightarrow> (Inl (WrapErr ''analytics: mark processed'' e), w')
           | (Inr isNew, w') \<Rightarrow> if \<not> isNew then (Inr (), w') else applyProjection C env w'))"

section \<open>Bounded retries\<close>

definition retryBounded :: "'w AnalyticsConsumer \<Rightarrow> ('w \<times> bool, unit) io \<Rightarrow> ('w \<times> bool, unit) io" where
  "retryBounded C fn = ac_Retry C (maxAnalyticsHandlerAttempts - 1) fn"

text \<open>The results of the failing call are \<open>false\<close> and its error; \<open>isNew\<close> keeps what the last call gave.\<close>

definition mark_closure :: "'w AnalyticsConsumer \<Rightarrow> string \<Rightarrow> ('w \<times> bool, unit) io" where
  "mark_closure C eventId = (\<lambda>(w, isNew).
     case ac_Processed C eventId w of
       (Inl e, w') \<Rightarrow> (Inl e, (w', False))
     | (Inr b, w') \<Rightarrow> (Inr (), (w', b)))"

definition markProcessedWithRetry :: "'w AnalyticsConsumer \<Rightarrow> string \<Rightarrow> ('w, bool) io" where
  "markProcessedWithRetry C eventId = (\<lambda>w.
     case retryBounded C (mark_closure C eventId) (w, False) of
       (Inl e, (w', isNew)) \<Rightarrow> (Inl e, w')
     | (Inr _, (w', isNew)) \<Rightarrow> (Inr isNew, w'))"

definition apply_closure :: "'w AnalyticsConsumer \<Rightarrow> analyticsEvent \<Rightarrow> ('w \<times> bool, unit) io" where
  "apply_closure C env = (\<lambda>(w, b). case applyProjection C env w of (r, w') \<Rightarrow> (r, (w', b)))"

definition applyProjectionWithRetry :: "'w AnalyticsConsumer \<Rightarrow> analyticsEvent \<Rightarrow> ('w, unit) io" where
  "applyProjectionWithRetry C env = (\<lambda>w.
     case retryBounded C (apply_closure C env) (w, False) of (r, (w', _)) \<Rightarrow> (r, w'))"

section \<open>The dead-letter topic\<close>

definition sourceTopic :: "'w AnalyticsConsumer \<Rightarrow> string" where
  "sourceTopic C = (case ac_Topic C of None \<Rightarrow> '''' | Some t \<Rightarrow> t)"

definition dlqTopic :: "'w AnalyticsConsumer \<Rightarrow> string" where
  "dlqTopic C = sourceTopic C @ analyticsDlqTopicSuffix"

definition dlqTopicReadyAttempts :: nat where
  "dlqTopicReadyAttempts = 40"

text \<open>The loop of \<open>writeDLQ\<close>, from the attempts that are left; after the last one \<open>err\<close> is its error.\<close>

fun dlq_attempts :: "('w \<Rightarrow> err option \<times> 'w) \<Rightarrow> 'w Writer \<Rightarrow> kafka_message \<Rightarrow> nat \<Rightarrow> err + unit
    \<Rightarrow> ('w, unit) io" where
  "dlq_attempts wait write msg 0 err = (\<lambda>w. (err, w))"
| "dlq_attempts wait write msg (Suc n) err = (\<lambda>w.
     case write msg w of
       (Inr _, w1) \<Rightarrow> (Inr (), w1)
     | (Inl e, w1) \<Rightarrow>
         if \<not> isTopicNotReady e then (Inl e, w1)
         else (case wait w1 of
                 (Some c, w2) \<Rightarrow> (Inl (JoinErr e c), w2)
               | (None, w2) \<Rightarrow> dlq_attempts wait write msg n (Inl e) w2))"

definition writeDLQ :: "('w \<Rightarrow> err option \<times> 'w) \<Rightarrow> 'w Writer \<Rightarrow> kafka_message \<Rightarrow> ('w, unit) io" where
  "writeDLQ wait write msg = dlq_attempts wait write msg dlqTopicReadyAttempts (Inr ())"

text \<open>The writer is pinned to the dead-letter topic, so the message itself carries none.\<close>

definition dlq_message :: "'w AnalyticsConsumer \<Rightarrow> fetched \<Rightarrow> err \<Rightarrow> string \<Rightarrow> kafka_message" where
  "dlq_message C m cause failed_at = \<lparr>msg_Topic = '''', msg_Key = msg_Key (f_msg m),
     msg_Value = msg_Value (f_msg m),
     msg_Headers = msg_Headers (f_msg m) @ [(''x-dlq-source-topic'', sourceTopic C),
       (''x-dlq-error'', ac_text C cause), (''x-dlq-failed-at'', failed_at)]\<rparr>"

definition dlqPublish :: "'w AnalyticsConsumer \<Rightarrow> fetched \<Rightarrow> err \<Rightarrow> ('w, unit) io" where
  "dlqPublish C m cause =
     (case ac_dlqWriter C of
        None \<Rightarrow> io_return ()
      | Some write \<Rightarrow> (\<lambda>w. case ac_now C w of (t, w1) \<Rightarrow>
          writeDLQ (ac_wait C) write (dlq_message C m cause t) w1))"

definition ac_commit :: "'w AnalyticsConsumer \<Rightarrow> fetched \<Rightarrow> ('w, unit) io" where
  "ac_commit C m = ac_CommitMessages C m"

definition deadLetterAndCommit :: "'w AnalyticsConsumer \<Rightarrow> fetched \<Rightarrow> err \<Rightarrow> ('w, unit) io" where
  "deadLetterAndCommit C m cause = (\<lambda>w.
     case dlqPublish C m cause w of
       (Inl e, w') \<Rightarrow> (Inl (WrapErr ''analytics: publish to dead-letter topic'' e), w')
     | (Inr _, w') \<Rightarrow> ac_commit C m w')"

section \<open>One message, and the loop\<close>

definition handleFetchedMessage :: "'w AnalyticsConsumer \<Rightarrow> fetched \<Rightarrow> ('w, unit) io" where
  "handleFetchedMessage C m =
     (case decodeAnalyticsEvent C (msg_Value (f_msg m)) of
        Inl decodeErr \<Rightarrow> deadLetterAndCommit C m decodeErr
      | Inr env \<Rightarrow>
          if \<not> isProjectingEventType (ev_Type env) then ac_commit C m
          else (\<lambda>w. case markProcessedWithRetry C (ev_Id env) w of
             (Inl e, w1) \<Rightarrow> deadLetterAndCommit C m (WrapErr ''mark processed'' e) w1
           | (Inr isNew, w1) \<Rightarrow>
               if \<not> isNew then ac_commit C m w1
               else (case applyProjectionWithRetry C env w1 of
                  (Inl e, w2) \<Rightarrow> deadLetterAndCommit C m (WrapErr ''apply projection'' e) w2
                | (Inr _, w2) \<Rightarrow> ac_commit C m w2)))"

text \<open>\<open>Run\<close> may go on for ever: \<open>None\<close> is that it still runs after \<open>n\<close> messages.\<close>

fun consumer_Run :: "nat \<Rightarrow> 'w AnalyticsConsumer \<Rightarrow> 'w \<Rightarrow> (err + unit) option \<times> 'w" where
  "consumer_Run 0 C w = (None, w)"
| "consumer_Run (Suc n) C w =
     (case ac_FetchMessage C w of
        (Inl e, w1) \<Rightarrow> (Some (if errors_Is e context_Canceled then Inr () else Inl e), w1)
      | (Inr m, w1) \<Rightarrow>
          (case handleFetchedMessage C m w1 of
             (Inl e, w2) \<Rightarrow> (Some (Inl e), w2)
           | (Inr _, w2) \<Rightarrow> consumer_Run n C w2))"

section \<open>The contract of backoff.Retry\<close>

text \<open>
  With at most \<open>n\<close> calls of \<open>fn\<close>: a success ends it with \<open>nil\<close>; after a failure it calls again, or
  ends with an error (that of the call, or of the context).
\<close>

inductive attempts :: "('s, unit) io \<Rightarrow> nat \<Rightarrow> 's \<Rightarrow> err + unit \<Rightarrow> 's \<Rightarrow> bool" for fn where
  success: "fn s = (Inr (), s') \<Longrightarrow> attempts fn (Suc n) s (Inr ()) s'"
| stop: "fn s = (Inl e, s') \<Longrightarrow> attempts fn (Suc n) s (Inl e') s'"
| again: "fn s = (Inl e, s1) \<Longrightarrow> attempts fn n s1 r s' \<Longrightarrow> attempts fn (Suc n) s r s'"

definition retry_ok :: "(nat \<Rightarrow> ('s, unit) io \<Rightarrow> ('s, unit) io) \<Rightarrow> bool" where
  "retry_ok R \<longleftrightarrow> (\<forall>n fn s. case R n fn s of (r, s') \<Rightarrow> attempts fn (Suc n) s r s')"

lemma retry_okD: "retry_ok R \<Longrightarrow> R n fn s = (r, s') \<Longrightarrow> attempts fn (Suc n) s r s'"
  unfolding retry_ok_def by (metis case_prod_conv)

text \<open>A retry without waiting, for closed examples.\<close>

fun retry_at_once :: "nat \<Rightarrow> ('s, unit) io \<Rightarrow> ('s, unit) io" where
  "retry_at_once 0 fn s = fn s"
| "retry_at_once (Suc n) fn s = (case fn s of (Inr _, s') \<Rightarrow> (Inr (), s') | (Inl e, s') \<Rightarrow> retry_at_once n fn s')"

lemma retry_at_once_ok: "retry_ok retry_at_once"
proof -
  have "attempts fn (Suc n) s r s'" if "retry_at_once n fn s = (r, s')" for n r s s' and fn :: "('s, unit) io"
    using that
  proof (induction n arbitrary: s)
    case 0
    then show ?case by (cases r) (auto intro: attempts.intros)
  next
    case (Suc n)
    then show ?case by (auto split: prod.splits sum.splits intro: attempts.intros)
  qed
  then show ?thesis by (auto simp: retry_ok_def)
qed

section \<open>NewAnalyticsConsumer\<close>

text \<open>
  The two sides of the consumer's world: the analytical database and whatever is behind Kafka, of
  any type. A writer adds its pinned topic to a message.
\<close>

record 'k kafka_side =
  k_Fetch :: "('k, fetched) io"
  k_Commit :: "fetched \<Rightarrow> ('k, unit) io"
  k_Write :: "'k Writer"
  k_now :: "'k \<Rightarrow> string \<times> 'k"
  k_wait :: "'k \<Rightarrow> err option \<times> 'k"

definition on_db :: "('d \<Rightarrow> 'a \<times> 'd) \<Rightarrow> 'd \<times> 'k \<Rightarrow> 'a \<times> ('d \<times> 'k)" where
  "on_db f = (\<lambda>(d, k). case f d of (r, d') \<Rightarrow> (r, (d', k)))"

definition on_kafka :: "('k \<Rightarrow> 'a \<times> 'k) \<Rightarrow> 'd \<times> 'k \<Rightarrow> 'a \<times> ('d \<times> 'k)" where
  "on_kafka f = (\<lambda>(d, k). case f k of (r, k') \<Rightarrow> (r, (d, k')))"

definition db_projection :: "'d ProjectionStore \<Rightarrow> ('d \<times> 'k) ProjectionStore" where
  "db_projection P = \<lparr>ApplyProcessPathCreated = (\<lambda>i at. on_db (ApplyProcessPathCreated P i at)),
     ApplyProcessPathUpdated = (\<lambda>i at. on_db (ApplyProcessPathUpdated P i at)),
     ApplyProcessPathDeactivated = (\<lambda>i at. on_db (ApplyProcessPathDeactivated P i at))\<rparr>"

definition newDLQWriter :: "'w Writer \<Rightarrow> string \<Rightarrow> 'w Writer" where
  "newDLQWriter produce dlq_topic = (\<lambda>m. produce (m\<lparr>msg_Topic := dlq_topic\<rparr>))"

definition NewAnalyticsConsumer ::
    "'k kafka_side \<Rightarrow> string \<Rightarrow> 'd ProjectionStore \<Rightarrow> 'd ProcessedEvents \<Rightarrow> sdk \<Rightarrow> (err \<Rightarrow> string)
     \<Rightarrow> (nat \<Rightarrow> (('d \<times> 'k) \<times> bool, unit) io \<Rightarrow> (('d \<times> 'k) \<times> bool, unit) io) \<Rightarrow> ('d \<times> 'k) AnalyticsConsumer" where
  "NewAnalyticsConsumer K topic projection processed S text_of R = \<lparr>
     ac_FetchMessage = on_kafka (k_Fetch K),
     ac_CommitMessages = (\<lambda>m. on_kafka (k_Commit K m)),
     ac_Topic = Some topic,
     ac_Projection = db_projection projection,
     ac_Processed = (\<lambda>i. on_db (processed i)),
     ac_dlqWriter = Some (newDLQWriter (\<lambda>m. on_kafka (k_Write K m)) (topic @ analyticsDlqTopicSuffix)),
     ac_sdk = S, ac_text = text_of,
     ac_now = on_kafka (k_now K), ac_wait = on_kafka (k_wait K), ac_Retry = R\<rparr>"

text \<open>Closing the reader and, if there is one, the writer of the dead-letter topic.\<close>

definition consumer_Close :: "('w \<Rightarrow> err option \<times> 'w) \<Rightarrow> ('w \<Rightarrow> err option \<times> 'w) option \<Rightarrow> 'w \<Rightarrow> err option \<times> 'w" where
  "consumer_Close close_reader close_dlq w =
     (case close_reader w of (e, w1) \<Rightarrow>
        (case close_dlq of None \<Rightarrow> (e, w1)
         | Some c \<Rightarrow> (case c w1 of (e', w2) \<Rightarrow> (errors_Join [e, e'], w2))))"

end
