(* ===== verification/AnalyticsRefine.thy ===== *)
theory AnalyticsRefine
  imports Analytics "HOL-Library.Multiset"
begin

text \<open>
  What the two projections of the analytical read model implement: the set of event ids already
  counted and the counters of each day. The contract is the locale \<open>projection_store\<close>; both stores
  interpret it, and what the counters are after any run of deliveries is proved once inside it.
\<close>

section \<open>The abstract read model\<close>

datatype kind = Defined | Revised | Deactivated

type_synonym fact = "string \<times> kind \<times> time"

record growth =
  g_seen :: "string set"
  g_rows :: "time \<Rightarrow> Row option"

definition no_growth :: growth where
  "no_growth = \<lparr>g_seen = {}, g_rows = (\<lambda>_. None)\<rparr>"

fun bump :: "kind \<Rightarrow> Row \<Rightarrow> Row" where
  "bump Defined r = r\<lparr>PathsDefined := PathsDefined r + 1\<rparr>"
| "bump Revised r = r\<lparr>PathsRevised := PathsRevised r + 1\<rparr>"
| "bump Deactivated r = r\<lparr>PathsDeactivated := PathsDeactivated r + 1\<rparr>"

definition row_on :: "time \<Rightarrow> Row option \<Rightarrow> Row" where
  "row_on d r = (case r of None \<Rightarrow> empty_row \<lparr>DayBucket = d\<rparr> | Some r \<Rightarrow> r)"

fun grow :: "fact \<Rightarrow> growth \<Rightarrow> growth" where
  "grow (i, k, at) g =
     (if i \<in> g_seen g then g
      else g\<lparr>g_seen := insert i (g_seen g),
             g_rows := (g_rows g)(dayBucket at \<mapsto> bump k (row_on (dayBucket at) (g_rows g (dayBucket at))))\<rparr>)"

fun apply_fact :: "'w ProjectionStore \<Rightarrow> fact \<Rightarrow> ('w, unit) io" where
  "apply_fact P (i, Defined, at) = ApplyProcessPathCreated P i at"
| "apply_fact P (i, Revised, at) = ApplyProcessPathUpdated P i at"
| "apply_fact P (i, Deactivated, at) = ApplyProcessPathDeactivated P i at"

text \<open>A run of deliveries: each is answered, and a failed one may be repeated later.\<close>

fun apply_facts :: "'w ProjectionStore \<Rightarrow> fact list \<Rightarrow> 'w \<Rightarrow> (err + unit) list \<times> 'w" where
  "apply_facts P [] w = ([], w)"
| "apply_facts P (f # fs) w =
     (case apply_fact P f w of (r, w1) \<Rightarrow>
        (case apply_facts P fs w1 of (rs, w2) \<Rightarrow> (r # rs, w2)))"

text \<open>The events whose delivery was answered with success.\<close>

definition delivered :: "fact list \<Rightarrow> (err + unit) list \<Rightarrow> fact set" where
  "delivered fs rs = set (map fst (filter (\<lambda>(f, r). r = Inr ()) (zip fs rs)))"

lemma delivered_simps [simp]:
  "delivered [] rs = {}"
  "delivered (f # fs) (r # rs) = (if r = Inr () then insert f (delivered fs rs) else delivered fs rs)"
  by (simp_all add: delivered_def)

text \<open>The row of a day after the events \<open>fs\<close>: every distinct event of the day counts once.\<close>

definition counted :: "kind \<Rightarrow> time \<Rightarrow> fact list \<Rightarrow> nat" where
  "counted K d fs = card (set (filter (\<lambda>(i, k, at). k = K \<and> dayBucket at = d) fs))"

definition tally :: "time \<Rightarrow> fact list \<Rightarrow> Row option" where
  "tally d fs = (if list_all (\<lambda>(i, k, at). dayBucket at \<noteq> d) fs then None
     else Some \<lparr>Key = \<lparr>DayBucket = d\<rparr>, PathsDefined = of_nat (counted Defined d fs),
       PathsRevised = of_nat (counted Revised d fs),
       PathsDeactivated = of_nat (counted Deactivated d fs)\<rparr>)"

text \<open>An event id names one event: what two deliveries with one id say is the same.\<close>

definition one_event_per_id :: "fact list \<Rightarrow> bool" where
  "one_event_per_id fs \<longleftrightarrow> inj_on fst (set fs)"

lemma grow_seen [simp]: "g_seen (grow f g) = insert (fst f) (g_seen g)"
  by (cases f) auto

lemma grow_again: "fst f \<in> g_seen g \<Longrightarrow> grow f g = g"
  by (cases f) auto

lemma fold_grow_seen: "g_seen (fold grow fs g) = g_seen g \<union> fst ` set fs"
  by (induction fs arbitrary: g) auto

lemma counted_cong: "set fs = set gs \<Longrightarrow> counted K d fs = counted K d gs"
  by (simp add: counted_def)

lemma tally_cong: "set fs = set gs \<Longrightarrow> tally d fs = tally d gs"
  by (simp add: tally_def counted_cong [of fs gs] list_all_iff)

lemma counted_append:
  "counted K d (fs @ [(i, k, at)]) =
    (if k = K \<and> dayBucket at = d \<and> (i, k, at) \<notin> set fs then Suc (counted K d fs) else counted K d fs)"
  by (auto simp: counted_def insert_absorb card_insert_if)

lemma tally_append:
  "tally d (fs @ [(i, k, at)]) =
    (if dayBucket at = d \<and> (i, k, at) \<notin> set fs then Some (bump k (row_on d (tally d fs))) else tally d fs)"
proof (cases "(i, k, at) \<in> set fs")
  case True
  then have "set (fs @ [(i, k, at)]) = set fs" by auto
  from tally_cong [OF this] True show ?thesis by simp
next
  case False
  have none: "counted K d fs = 0" if "list_all (\<lambda>(i, k, at). dayBucket at \<noteq> d) fs" for K
    using that by (auto simp: counted_def list_all_iff filter_empty_conv)
  show ?thesis
    using False none by (cases k) (auto simp: tally_def counted_append row_on_def empty_row_def)
qed

lemma one_event_append:
  assumes "one_event_per_id (fs @ [f])"
  shows "one_event_per_id fs" "fst f \<in> fst ` set fs \<longleftrightarrow> f \<in> set fs"
  using assms by (auto simp: one_event_per_id_def inj_on_def image_iff)

lemma fold_grow_tally:
  "one_event_per_id fs \<Longrightarrow> g_rows (fold grow fs no_growth) d = tally d fs"
proof (induction fs rule: rev_induct)
  case Nil
  then show ?case by (simp add: no_growth_def tally_def)
next
  case (snoc f fs)
  obtain i k at where f: "f = (i, k, at)" by (cases f)
  have seen: "i \<in> g_seen (fold grow fs no_growth) \<longleftrightarrow> f \<in> set fs"
    using one_event_append(2) [OF snoc.prems] by (simp add: fold_grow_seen no_growth_def f)
  have "g_rows (fold grow fs no_growth) d = tally d fs"
    using snoc.IH one_event_append(1) [OF snoc.prems] by simp
  with seen show ?case by (auto simp: f tally_append)
qed

section \<open>The contract of a projection\<close>

locale projection_store =
  fixes P :: "'w ProjectionStore"
    and inv :: "'w \<Rightarrow> bool"
    and abs :: "'w \<Rightarrow> growth"
  assumes keeps: "inv w \<Longrightarrow> inv (snd (apply_fact P f w))"
    and applied: "inv w \<Longrightarrow> apply_fact P f w = (Inr u, w') \<Longrightarrow> abs w' = grow f (abs w)"
    and refused: "inv w \<Longrightarrow> apply_fact P f w = (Inl e, w') \<Longrightarrow> abs w' = abs w \<or> abs w' = grow f (abs w)"
begin

lemma step:
  assumes "inv w" "apply_fact P f w = (r, w')"
  shows "inv w'" "abs w' = abs w \<and> r \<noteq> Inr () \<or> abs w' = grow f (abs w)"
proof -
  show "inv w'" using keeps [OF assms(1), of f] assms(2) by simp
  show "abs w' = abs w \<and> r \<noteq> Inr () \<or> abs w' = grow f (abs w)"
    using applied [OF assms(1)] refused [OF assms(1)] assms(2) by (cases r) blast+
qed

text \<open>What a run adds is a part of its deliveries that holds every successful one.\<close>

lemma run:
  assumes "apply_facts P fs w = (rs, w')" "inv w"
  shows "inv w' \<and> (\<exists>gs. abs w' = fold grow gs (abs w) \<and> set gs \<subseteq> set fs \<and> delivered fs rs \<subseteq> set gs)"
  using assms
proof (induction fs arbitrary: w rs)
  case Nil
  then show ?case by (auto intro: exI [of _ "[]"])
next
  case (Cons f fs)
  obtain r w1 where 1: "apply_fact P f w = (r, w1)" by (cases "apply_fact P f w")
  obtain rs' where 2: "apply_facts P fs w1 = (rs', w')" "rs = r # rs'"
    using Cons.prems(1) 1 by (auto split: prod.splits)
  note s = step [OF Cons.prems(2) 1]
  obtain gs where gs: "inv w'" "abs w' = fold grow gs (abs w1)" "set gs \<subseteq> set fs" "delivered fs rs' \<subseteq> set gs"
    using Cons.IH [OF 2(1) s(1)] by blast
  from s(2) show ?case
  proof
    assume "abs w1 = abs w \<and> r \<noteq> Inr ()"
    then have "abs w' = fold grow gs (abs w) \<and> set gs \<subseteq> set (f # fs) \<and> delivered (f # fs) rs \<subseteq> set gs"
      using gs(2-4) 2(2) by auto
    with gs(1) show ?thesis by blast
  next
    assume "abs w1 = grow f (abs w)"
    then have "abs w' = fold grow (f # gs) (abs w)" using gs(2) by simp
    moreover have "set (f # gs) \<subseteq> set (f # fs) \<and> delivered (f # fs) rs \<subseteq> set (f # gs)"
      using gs(3,4) 2(2) by auto
    ultimately show ?thesis using gs(1) by blast
  qed
qed

text \<open>Once every event has been answered with success, however often it came, the rows are its tally.\<close>

lemma exact:
  assumes "apply_facts P fs w = (rs, w')" "inv w" "abs w = no_growth" "one_event_per_id fs"
    and all: "set fs \<subseteq> delivered fs rs"
  shows "inv w'" "g_rows (abs w') d = tally d fs" "g_seen (abs w') = fst ` set fs"
proof -
  obtain gs where gs: "inv w'" "abs w' = fold grow gs no_growth" "set gs \<subseteq> set fs" "delivered fs rs \<subseteq> set gs"
    using run [OF assms(1,2)] assms(3) by auto
  have set: "set gs = set fs" using gs(3,4) all by blast
  then have "one_event_per_id gs" using assms(4) by (simp add: one_event_per_id_def)
  from fold_grow_tally [OF this] set show "g_rows (abs w') d = tally d fs"
    by (simp add: gs(2) tally_cong [of gs fs])
  show "g_seen (abs w') = fst ` set fs" by (simp add: gs(2) fold_grow_seen set no_growth_def)
qed (use run [OF assms(1,2)] in simp)

lemma at_most:
  assumes "apply_facts P fs w = (rs, w')" "inv w" "abs w = no_growth" "one_event_per_id fs"
  obtains gs where "set gs \<subseteq> set fs" "\<And>d. g_rows (abs w') d = tally d gs"
    "delivered fs rs \<subseteq> set gs"
proof -
  obtain gs where gs: "abs w' = fold grow gs no_growth" "set gs \<subseteq> set fs" "delivered fs rs \<subseteq> set gs"
    using run [OF assms(1,2)] assms(3) by auto
  have "one_event_per_id gs"
    using assms(4) gs(2) by (auto simp: one_event_per_id_def intro: inj_on_subset)
  from fold_grow_tally [OF this] gs that show thesis by simp
qed

end

section \<open>The in-memory store\<close>

definition mem_ok :: "MemoryStore \<Rightarrow> bool" where
  "mem_ok s \<longleftrightarrow> distinct (map fst (ms_rows s)) \<and> list_all (\<lambda>(k, r). Key r = k) (ms_rows s)"

definition mem_growth :: "MemoryStore \<Rightarrow> growth" where
  "mem_growth s = \<lparr>g_seen = ms_seen s, g_rows = (\<lambda>d. map_of (ms_rows s) \<lparr>DayBucket = d\<rparr>)\<rparr>"

lemma mem_apply: "apply_fact mem_projection f = (case f of (i, k, at) \<Rightarrow> mutate i at (bump k))"
proof -
  obtain i k at where f: "f = (i, k, at)" by (cases f)
  have "bump k = (case k of Defined \<Rightarrow> (\<lambda>r. r\<lparr>PathsDefined := PathsDefined r + 1\<rparr>)
    | Revised \<Rightarrow> (\<lambda>r. r\<lparr>PathsRevised := PathsRevised r + 1\<rparr>)
    | Deactivated \<Rightarrow> (\<lambda>r. r\<lparr>PathsDeactivated := PathsDeactivated r + 1\<rparr>))"
    by (cases k) auto
  then show ?thesis by (cases k) (simp_all add: f mem_projection_def)
qed

lemma bump_Key [simp]: "Key (bump k r) = Key r"
  by (cases k) auto

lemma set_AList_update:
  "distinct (map fst xs) \<Longrightarrow> x \<in> set (AList.update k v xs) \<Longrightarrow> x = (k, v) \<or> x \<in> set xs \<and> fst x \<noteq> k"
  by (induction xs) (auto split: if_splits intro: rev_image_eqI)

lemma map_of_Key: "list_all (\<lambda>(k, r). Key r = k) xs \<Longrightarrow> map_of xs k = Some r \<Longrightarrow> Key r = k"
  by (auto simp: list_all_iff dest!: map_of_SomeD)

lemma mutate_step:
  assumes "mem_ok s"
  shows "\<exists>s'. mutate i at (bump k) s = (Inr (), s') \<and> mem_ok s' \<and> mem_growth s' = grow (i, k, at) (mem_growth s)"
proof (cases "i \<in> ms_seen s")
  case True
  then show ?thesis using assms by (simp add: mutate_def firstApply_def mem_growth_def)
next
  case False
  let ?k = "\<lparr>DayBucket = dayBucket at\<rparr>"
  let ?r = "row_on (dayBucket at) (map_of (ms_rows s) ?k)"
  let ?s = "s\<lparr>ms_seen := insert i (ms_seen s), ms_latest := (if at > ms_latest s then at else ms_latest s),
    ms_rows := AList.update ?k (bump k ?r) (ms_rows s)\<rparr>"
  have run: "mutate i at (bump k) s = (Inr (), ?s)"
    using False by (simp add: mutate_def firstApply_def on_row_def row_on_def Let_def)
  have "Key ?r = ?k"
    using assms by (auto simp: row_on_def empty_row_def mem_ok_def split: option.splits dest: map_of_Key)
  then have "list_all (\<lambda>(k, r). Key r = k) (ms_rows ?s)"
    using assms set_AList_update [of "ms_rows s"] by (fastforce simp: mem_ok_def list_all_iff)
  then have "mem_ok ?s"
    using assms by (simp add: mem_ok_def distinct_update)
  moreover have "mem_growth ?s = grow (i, k, at) (mem_growth s)"
    using False by (auto simp: mem_growth_def update_conv' intro!: ext)
  ultimately show ?thesis using run by blast
qed

interpretation mem_store: projection_store mem_projection mem_ok mem_growth
proof unfold_locales
  fix s :: MemoryStore and f assume "mem_ok s"
  then obtain s' where "apply_fact mem_projection f s = (Inr (), s')" "mem_ok s'"
    "mem_growth s' = grow f (mem_growth s)"
    using mutate_step [of s "fst f" "snd (snd f)" "fst (snd f)"]
    by (auto simp: mem_apply split_beta simp del: grow.simps)
  then show "mem_ok (snd (apply_fact mem_projection f s))"
    "\<And>u s'. apply_fact mem_projection f s = (Inr u, s') \<Longrightarrow> mem_growth s' = grow f (mem_growth s)"
    "\<And>e s'. apply_fact mem_projection f s = (Inl e, s') \<Longrightarrow>
       mem_growth s' = mem_growth s \<or> mem_growth s' = grow f (mem_growth s)"
    by auto
qed

section \<open>The Postgres projection\<close>

text \<open>A midnight has no fraction of a second, so its column holds it exactly.\<close>

definition whole_days :: "ext \<Rightarrow> bool" where
  "whole_days E \<longleftrightarrow> (\<forall>t. stored_time E (dayBucket t) = dayBucket t)"

definition adb_growth :: "adb \<Rightarrow> growth" where
  "adb_growth db = \<lparr>g_seen = fst ` set (a_processed db),
     g_rows = (\<lambda>d. map_option row_of (select ru_day d (a_rollup db)))\<rparr>"

text \<open>
  A database as the projection leaves it: one row per day and per event id, and no counter is negative
  or above the number of events processed.
\<close>

definition counters_in :: "nat \<Rightarrow> rollup_row \<Rightarrow> bool" where
  "counters_in n r \<longleftrightarrow> ru_defined r \<in> {0..int n} \<and> ru_revised r \<in> {0..int n} \<and> ru_deactivated r \<in> {0..int n}"

definition adb_ok :: "adb \<Rightarrow> bool" where
  "adb_ok db \<longleftrightarrow> distinct (map ru_day (a_rollup db)) \<and> distinct (map fst (a_processed db))
     \<and> (\<forall>r \<in> set (a_rollup db). counters_in (length (a_processed db)) r)"

lemma adb_ok_empty [simp]: "adb_ok empty_adb"
  by (simp add: adb_ok_def empty_adb_def)

lemma adb_ok_consumed [simp]: "adb_ok (db\<lparr>a_consumed := xs\<rparr>) = adb_ok db"
  by (simp add: adb_ok_def)

definition pg_ok :: "analytics_env \<Rightarrow> adb pg \<Rightarrow> bool" where
  "pg_ok A w \<longleftrightarrow> whole_days (ae_ext A) \<and> adb_ok (committed w)"

text \<open>What one transaction does to the database when it commits.\<close>

definition apply_db :: "ext \<Rightarrow> string \<Rightarrow> time \<Rightarrow> rollupDelta \<Rightarrow> adb \<Rightarrow> err + adb" where
  "apply_db E i at \<delta> db =
     (if i \<in> fst ` set (a_processed db) then Inr db
      else map_sum id snd (upsert_stmt E at \<delta> (db\<lparr>a_processed := a_processed db @ [(i, stored_time E at)]\<rparr>)))"

lemma claim_stmt_eq:
  "claim_stmt E i at db = Inr (if i \<in> fst ` set (a_processed db) then (False, db)
     else (True, db\<lparr>a_processed := a_processed db @ [(i, stored_time E at)]\<rparr>))"
  by (auto simp: claim_stmt_def insert_ignore_def select_None_iff)

lemma inTx_cases:
  assumes "inTx A fn w = (r, w')"
    and body: "\<And>w1 r2 w2. seen WithTx w1 = committed w \<Longrightarrow> committed w1 = committed w \<Longrightarrow> fn w1 = (r2, w2)
      \<Longrightarrow> committed w2 = committed w \<and> (r2 = Inr () \<longrightarrow> Q (seen WithTx w2))"
  shows "committed w' = committed w \<and> r \<noteq> Inr () \<or> Q (committed w')"
proof (cases "pool_Begin (ae_faults A) w")
  case (Pair b w1)
  show ?thesis
  proof (cases b)
    case (Inl e)
    then show ?thesis using assms(1) Pair tx_committed(1) [of "ae_faults A" w] by (auto simp: inTx_def)
  next
    case (Inr u)
    then have w1: "seen WithTx w1 = committed w" "committed w1 = committed w"
      using pool_Begin_Inr [of "ae_faults A" w u w1] Pair by (simp_all add: seen_def)
    obtain r2 w2 where 2: "fn w1 = (r2, w2)" by (cases "fn w1")
    note b2 = body [OF w1 2]
    show ?thesis
    proof (cases r2)
      case (Inl e)
      then show ?thesis
        using assms(1) Pair Inr 2 b2 tx_committed(2) [of "ae_faults A" w2] by (auto simp: inTx_def)
    next
      case r2: (Inr v)
      then have "tx_Commit (ae_faults A) w2 = (r, w')" using assms(1) Pair Inr 2 by (simp add: inTx_def)
      from tx_Commit_cases [OF this] show ?thesis using b2 r2 by auto
    qed
  qed
qed

lemma projection_apply_cases:
  assumes "projection_apply A i at \<delta> w = (r, w')"
  shows "committed w' = committed w \<and> r \<noteq> Inr () \<or> apply_db (ae_ext A) i at \<delta> (committed w) = Inr (committed w')"
proof (rule inTx_cases [OF assms [unfolded projection_apply_def]])
  fix w1 r2 w2
  assume w1: "seen WithTx w1 = committed w" "committed w1 = committed w"
    and body: "(case sql_exec (ae_faults A) WithTx (claim_stmt (ae_ext A) i at) w1 of
      (Inl e, w') \<Rightarrow> (Inl (WrapErr ''analyticsstore: claim event'' e), w')
    | (Inr isNew, w') \<Rightarrow> if \<not> isNew then (Inr (), w') else upsertRollup A at \<delta> w') = (r2, w2)"
  obtain c w3 where 3: "sql_exec (ae_faults A) WithTx (claim_stmt (ae_ext A) i at) w1 = (c, w3)"
    by (cases "sql_exec (ae_faults A) WithTx (claim_stmt (ae_ext A) i at) w1")
  have c3: "committed w3 = committed w"
    using sql_exec_tx_committed [of "ae_faults A" "claim_stmt (ae_ext A) i at" w1] 3 w1 by simp
  obtain u w4 where 4: "sql_exec (ae_faults A) WithTx (upsert_stmt (ae_ext A) at \<delta>) w3 = (u, w4)"
    by (cases "sql_exec (ae_faults A) WithTx (upsert_stmt (ae_ext A) at \<delta>) w3")
  have c4: "committed w4 = committed w"
    using sql_exec_tx_committed [of "ae_faults A" "upsert_stmt (ae_ext A) at \<delta>" w3] 4 c3 by simp
  show "committed w2 = committed w
      \<and> (r2 = Inr () \<longrightarrow> apply_db (ae_ext A) i at \<delta> (committed w) = Inr (seen WithTx w2))"
  proof (cases c)
    case (Inl e)
    then show ?thesis using body 3 c3 by auto
  next
    case (Inr isNew)
    have s3: "claim_stmt (ae_ext A) i at (committed w) = Inr (isNew, seen WithTx w3)"
      using sql_exec_Inr [of "ae_faults A" WithTx "claim_stmt (ae_ext A) i at" w1 isNew w3] 3 Inr w1 by auto
    show ?thesis
    proof (cases isNew)
      case False
      then show ?thesis
        using body 3 c3 Inr s3 by (auto simp: claim_stmt_eq apply_db_def split: if_splits)
    next
      case True
      then have up: "upsertRollup A at \<delta> w3 = (r2, w2)" using body 3 Inr by simp
      show ?thesis
      proof (cases u)
        case (Inl e)
        then show ?thesis using up 4 c4 by (auto simp: upsertRollup_def)
      next
        case u: (Inr v)
        have "upsert_stmt (ae_ext A) at \<delta> (seen WithTx w3) = Inr (v, seen WithTx w4)"
          using sql_exec_Inr [of "ae_faults A" WithTx "upsert_stmt (ae_ext A) at \<delta>" w3 v w4] 4 u by auto
        then show ?thesis
          using up 4 c4 u s3 True
          by (auto simp: upsertRollup_def claim_stmt_eq apply_db_def split: if_splits)
      qed
    qed
  qed
qed

lemma row_of_add:
  "row_of (add_rollup r r') = (row_of r)\<lparr>PathsDefined := PathsDefined (row_of r) + PathsDefined (row_of r'),
     PathsRevised := PathsRevised (row_of r) + PathsRevised (row_of r'),
     PathsDeactivated := PathsDeactivated (row_of r) + PathsDeactivated (row_of r')\<rparr>"
  by (simp add: row_of_def add_rollup_def)

lemma add_rollup_day [simp]: "ru_day (add_rollup r r') = ru_day r"
  by (simp add: add_rollup_def)

definition delta_of :: "kind \<Rightarrow> rollupDelta" where
  "delta_of k = \<lparr>rd_defined = (if k = Defined then 1 else 0), rd_revised = (if k = Revised then 1 else 0),
     rd_deactivated = (if k = Deactivated then 1 else 0)\<rparr>"

lemma pg_apply:
  fixes f :: fact
  shows "apply_fact (pg_projection A) f = (case f of (i, k, at) \<Rightarrow> projection_apply A i at (delta_of k))"
  by (cases "(pg_projection A, f)" rule: apply_fact.cases) (simp_all add: pg_projection_def delta_of_def)

lemma upsert_stmt_Inr:
  assumes "upsert_stmt E at \<delta> db = Inr (u, db')"
  shows "db' = db\<lparr>a_rollup := upsert ru_day add_rollup \<lparr>ru_day = stored_time E (dayBucket at),
    ru_defined = rd_defined \<delta>, ru_revised = rd_revised \<delta>, ru_deactivated = rd_deactivated \<delta>\<rparr> (a_rollup db)\<rparr>"
  using assms by (simp add: upsert_stmt_def Let_def split: if_splits)

lemma upsert_members:
  "r \<in> set (upsert key conflict new rs) \<Longrightarrow> r \<in> set rs \<or> r = new \<or> (\<exists>old \<in> set rs. r = conflict old new)"
  by (induction rs) (auto split: if_splits)

abbreviation one_of :: "kind \<Rightarrow> time \<Rightarrow> rollup_row" where
  "one_of k d \<equiv> \<lparr>ru_day = d, ru_defined = rd_defined (delta_of k), ru_revised = rd_revised (delta_of k),
     ru_deactivated = rd_deactivated (delta_of k)\<rparr>"

lemma counters_add: "counters_in n r \<Longrightarrow> counters_in (Suc n) (add_rollup r (one_of k d))"
  by (cases k) (auto simp: counters_in_def add_rollup_def delta_of_def)

lemma counters_upsert:
  assumes "\<forall>r \<in> set rs. counters_in n r" "r \<in> set (upsert ru_day add_rollup (one_of k d) rs)"
  shows "counters_in (Suc n) r"
proof -
  have "counters_in n r \<Longrightarrow> counters_in (Suc n) r" for r by (auto simp: counters_in_def)
  moreover have "counters_in (Suc n) (one_of k d)" by (cases k) (auto simp: counters_in_def delta_of_def)
  ultimately show ?thesis using upsert_members [OF assms(2)] assms(1) counters_add by blast
qed

lemma apply_db_grow:
  assumes "apply_db E i at (delta_of k) db = Inr db'" "whole_days E" "adb_ok db"
  shows "adb_growth db' = grow (i, k, at) (adb_growth db)" "adb_ok db'"
proof -
  let ?new = "one_of k (dayBucket at)"
  have db': "db' = db \<and> i \<in> fst ` set (a_processed db) \<or> i \<notin> fst ` set (a_processed db)
      \<and> db' = db\<lparr>a_processed := a_processed db @ [(i, stored_time E at)],
                  a_rollup := upsert ru_day add_rollup ?new (a_rollup db)\<rparr>"
    using assms(1,2) by (auto simp: apply_db_def whole_days_def map_sum_def split: if_splits sum.splits
        dest!: upsert_stmt_Inr)
  have "counters_in (Suc (length (a_processed db))) r" if "r \<in> set (upsert ru_day add_rollup ?new (a_rollup db))" for r
    using counters_upsert [OF _ that] assms(3) by (simp add: adb_ok_def)
  then show "adb_ok db'"
    using db' assms(3) upsert_keys_distinct [of ru_day add_rollup "a_rollup db" ?new, OF add_rollup_day]
    by (auto simp: adb_ok_def)
  have bump: "row_of (add_rollup r ?new) = bump k (row_of r)" "row_of ?new = bump k (empty_row \<lparr>DayBucket = dayBucket at\<rparr>)"
    for r by (cases k; simp add: row_of_add; simp add: row_of_def delta_of_def empty_row_def)+
  from db' show "adb_growth db' = grow (i, k, at) (adb_growth db)"
    by (auto simp: adb_growth_def select_upsert [where conflict = add_rollup, OF add_rollup_day] bump row_on_def intro!: ext split: option.splits)
qed

text \<open>Below the range of \<open>bigint\<close> the transaction cannot fail by itself.\<close>

lemma apply_db_room:
  assumes "adb_ok db" "whole_days E" "card (g_seen (adb_growth db)) < 2 ^ 62"
  obtains db' where "apply_db E i at (delta_of k) db = Inr db'"
proof -
  have n: "length (a_processed db) < 2 ^ 62"
    using assms(1,3) distinct_card [of "map fst (a_processed db)"] by (simp add: adb_ok_def adb_growth_def)
  have "rollup_ok r" if "counters_in (Suc (length (a_processed db))) r" for r
    using that n by (auto simp: counters_in_def rollup_ok_def bigint_def)
  moreover have "counters_in (Suc (length (a_processed db))) r"
    if "r \<in> set (upsert ru_day add_rollup (one_of k d) (a_rollup db))" for r d
    using counters_upsert [OF _ that] assms(1) by (simp add: adb_ok_def)
  ultimately have "list_all rollup_ok (upsert ru_day add_rollup (one_of k d) (a_rollup db))" for d
    by (auto simp: list_all_iff)
  then have "\<exists>db'. apply_db E i at (delta_of k) db = Inr db'" by (simp add: apply_db_def upsert_stmt_def Let_def)
  then show thesis using that by blast
qed

lemma projection_answers:
  assumes "ae_faults A = (\<lambda>_. None)" "pg_ok A w" "card (g_seen (adb_growth (committed w))) < 2 ^ 62"
  shows "apply_fact (pg_projection A) f w \<noteq> (Inl e, w')"
proof -
  obtain i k at where f: "f = (i, k, at)" by (cases f)
  have ok: "adb_ok (committed w)" "whole_days (ae_ext A)" using assms(2) by (simp_all add: pg_ok_def)
  obtain db' where "apply_db (ae_ext A) i at (delta_of k) (committed w) = Inr db'"
    by (rule apply_db_room [OF ok assms(3)])
  then have "fst (projection_apply A i at (delta_of k) w) = Inr ()"
    by (auto simp: projection_apply_def inTx_def sql_defs upsertRollup_def claim_stmt_eq apply_db_def assms(1) map_sum_def
        split: if_splits sum.splits prod.splits)
  then show ?thesis by (auto simp: f pg_apply)
qed

interpretation pg_store: projection_store "pg_projection A" "pg_ok A" "\<lambda>w. adb_growth (committed w)"
proof unfold_locales
  fix w and f :: fact assume ok: "pg_ok A w"
  obtain i k at where f: "f = (i, k, at)" by (cases f)
  obtain r w' where run: "apply_fact (pg_projection A) f w = (r, w')" by (cases "apply_fact (pg_projection A) f w")
  have cases: "committed w' = committed w \<and> r \<noteq> Inr ()
      \<or> apply_db (ae_ext A) i at (delta_of k) (committed w) = Inr (committed w')"
    using projection_apply_cases run by (simp add: pg_apply f)
  then have "pg_ok A w'" "committed w' = committed w \<and> r \<noteq> Inr ()
      \<or> adb_growth (committed w') = grow f (adb_growth (committed w))"
    using ok apply_db_grow by (auto simp: pg_ok_def f simp del: grow.simps)
  then show "pg_ok A (snd (apply_fact (pg_projection A) f w))"
    "\<And>u w'. apply_fact (pg_projection A) f w = (Inr u, w') \<Longrightarrow>
       adb_growth (committed w') = grow f (adb_growth (committed w))"
    "\<And>e w'. apply_fact (pg_projection A) f w = (Inl e, w') \<Longrightarrow>
       adb_growth (committed w') = adb_growth (committed w)
       \<or> adb_growth (committed w') = grow f (adb_growth (committed w))"
    by (auto simp: run)
qed

section \<open>Reports\<close>

text \<open>The rows a query asks of the read model: those of the days from \<open>From\<close> up to before \<open>To\<close>.\<close>

definition rows_between :: "growth \<Rightarrow> ReportQuery \<Rightarrow> Row set" where
  "rows_between g q = {r. \<exists>d. q_From q \<le> d \<and> d < q_To q \<and> g_rows g d = Some r}"

lemma distinct_map_via: "distinct (map f xs) \<Longrightarrow> (\<And>x. x \<in> set xs \<Longrightarrow> f x = h (g x)) \<Longrightarrow> distinct (map g xs)"
  by (auto simp: distinct_map inj_on_def)

lemma ex_RowKey: "(\<exists>k. Q k) \<longleftrightarrow> (\<exists>d. Q \<lparr>DayBucket = d\<rparr>)"
  by (metis RowKey.cases)

lemma mem_Query_rows:
  assumes "mem_ok s" "\<And>xs. mset (order xs) = mset xs" "mem_Query order q s = (r, s')"
  obtains rows where "r = Inr rows" "s' = s" "distinct rows" "set rows = rows_between (mem_growth s) q"
proof -
  let ?in = "\<lambda>(k, r). \<not> (DayBucket k < q_From q \<or> \<not> DayBucket k < q_To q)"
  let ?rows = "map snd (filter ?in (order (ms_rows s)))"
  have r: "r = Inr ?rows" "s' = s" using assms(3) by (auto simp: mem_Query_def)
  have perm: "set (order (ms_rows s)) = set (ms_rows s)" "distinct (map fst (order (ms_rows s)))"
    using assms(1,2) by (metis mset_eq_setD) (metis assms mem_ok_def mset_eq_imp_distinct_iff mset_map)
  have "distinct (map fst (filter ?in (order (ms_rows s))))"
    using perm(2) by (simp add: distinct_map_filter)
  then have "distinct ?rows"
    by (rule distinct_map_via [where h = Key]) (use assms(1) perm(1) in \<open>auto simp: mem_ok_def list_all_iff\<close>)
  moreover have "set ?rows = rows_between (mem_growth s) q"
  proof -
    have "map_of (ms_rows s) k = Some x \<longleftrightarrow> (k, x) \<in> set (ms_rows s)" for k x
      using assms(1) by (simp add: mem_ok_def)
    then have "rows_between (mem_growth s) q
        = {r. \<exists>d. q_From q \<le> d \<and> d < q_To q \<and> (\<lparr>DayBucket = d\<rparr>, r) \<in> set (ms_rows s)}"
      by (simp add: rows_between_def mem_growth_def)
    also have "\<dots> = {r. \<exists>k. q_From q \<le> DayBucket k \<and> DayBucket k < q_To q \<and> (k, r) \<in> set (ms_rows s)}"
      by (simp add: ex_RowKey)
    also have "\<dots> = set ?rows"
      by (simp add: perm(1) image_iff Bex_def not_less set_eq_iff) (simp add: linorder_not_le [symmetric] conj_commute conj_left_commute)
    finally show ?thesis ..
  qed
  ultimately show thesis using that r by blast
qed

lemma select_distinct:
  "distinct (map key rs) \<Longrightarrow> select key k rs = Some r \<longleftrightarrow> r \<in> set rs \<and> key r = k"
  by (induction rs) (auto simp: select_def)

text \<open>The instants a query names are instants a \<open>TIMESTAMPTZ\<close> can hold.\<close>

definition storable :: "ext \<Rightarrow> ReportQuery \<Rightarrow> bool" where
  "storable E q \<longleftrightarrow> stored_time E (q_From q) = q_From q \<and> stored_time E (q_To q) = q_To q"

lemma pg_Query_rows:
  assumes "distinct (map ru_day (a_rollup (committed w)))" "storable (ae_ext A) q"
    "pg_Query A q w = (Inr rows, w')"
  shows "distinct rows" "set rows = rows_between (adb_growth (committed w)) q"
    "sorted (map (\<lambda>r. DayBucket (Key r)) rows)"
proof -
  let ?in = "\<lambda>r. q_From q \<le> ru_day r \<and> ru_day r < q_To q"
  let ?rows = "sort_key ru_day (filter ?in (a_rollup (committed w)))"
  have rows: "rows = map row_of ?rows"
    using assms(2,3) by (auto simp: pg_Query_def sql_exec_def storable_def
        split: sum.splits prod.splits option.splits fault.splits)
  have day: "ru_day r = DayBucket (Key (row_of r))" for r by (simp add: row_of_def)
  have "distinct (map ru_day ?rows)"
    using assms(1) by (simp add: distinct_map_filter distinct_map inj_on_def)
  then have "distinct (map row_of ?rows)" by (rule distinct_map_via) (rule day)
  then show "distinct rows" by (simp add: rows)
  show "set rows = rows_between (adb_growth (committed w)) q"
    by (auto simp: rows rows_between_def adb_growth_def select_distinct [OF assms(1)])
  have "map (\<lambda>r. DayBucket (Key r)) rows = map ru_day ?rows" by (simp add: rows day comp_def)
  then show "sorted (map (\<lambda>r. DayBucket (Key r)) rows)" by simp
qed

lemma lag_nonneg: "0 \<le> sint (lag_from now latest)"
  by (simp add: lag_from_def Let_def)

lemma fresh_lag_nonneg:
  "mem_FreshnessLag now s = (Inr d, s') \<Longrightarrow> 0 \<le> sint d"
  "pg_FreshnessLag A w = (Inr d, w') \<Longrightarrow> 0 \<le> sint d"
  by (auto simp: mem_FreshnessLag_def pg_FreshnessLag_def lag_nonneg split: prod.splits sum.splits
      option.splits if_splits)

lemma mem_delivered: "mem_ok s \<Longrightarrow> apply_facts mem_projection fs s = (rs, s') \<Longrightarrow> set fs \<subseteq> delivered fs rs"
proof (induction fs arbitrary: s rs)
  case (Cons f fs)
  obtain s1 where 1: "apply_fact mem_projection f s = (Inr (), s1)" "mem_ok s1"
    using mutate_step [OF Cons.prems(1), of "fst f" "snd (snd f)" "fst (snd f)"]
    by (auto simp: mem_apply split_beta)
  obtain rs' where 2: "apply_facts mem_projection fs s1 = (rs', s')" "rs = Inr () # rs'"
    using Cons.prems(2) 1 by (auto split: prod.splits)
  from Cons.IH [OF 1(2) 2(1)] show ?case by (auto simp: 2(2))
qed simp

end
