(* ===== verification/ConsumerRefine.thy ===== *)
theory ConsumerRefine
  imports AnalyticsConsumer AnalyticsRefine
begin

text \<open>
  What the analytics consumer makes of a read model: the locale \<open>consuming\<close> adds to the contract of
  a projection that of the deduplication gate, and shows what one handled message changes. It is
  interpreted on \<open>NewAnalyticsConsumer\<close> over the Postgres stores, whatever Kafka does.
\<close>

section \<open>Retrying\<close>

lemma attempts_rule:
  assumes "attempts fn n s r s'" "I s"
    and "\<And>s e s'. I s \<Longrightarrow> fn s = (Inl e, s') \<Longrightarrow> I s'"
    and "\<And>s s'. I s \<Longrightarrow> fn s = (Inr (), s') \<Longrightarrow> Q s'"
  shows "if r = Inr () then Q s' else I s'"
  using assms by (induction rule: attempts.induct) auto

lemma attempts_first: "attempts fn n s r s' \<Longrightarrow> fn s = (Inr (), t) \<Longrightarrow> r = Inr ()"
  by (erule attempts.cases) auto

section \<open>The event of a message\<close>

definition kind_of :: "string \<Rightarrow> kind option" where
  "kind_of t = (if t = TypeProcessPathCreated then Some Defined
     else if t = TypeProcessPathUpdated then Some Revised
     else if t = TypeProcessPathDeactivated then Some Deactivated else None)"

definition fact_of :: "'w AnalyticsConsumer \<Rightarrow> fetched \<Rightarrow> fact option" where
  "fact_of C m = (case decodeAnalyticsEvent C (msg_Value (f_msg m)) of
     Inl _ \<Rightarrow> None
   | Inr env \<Rightarrow> map_option (\<lambda>k. (ev_Id env, k, ev_Time env)) (kind_of (ev_Type env)))"

lemma projecting_kind: "isProjectingEventType t \<longleftrightarrow> kind_of t \<noteq> None"
  by (simp add: isProjectingEventType_def kind_of_def)

lemma applyProjection_fact:
  "kind_of (ev_Type env) = Some k \<Longrightarrow>
     applyProjection C env = apply_fact (ac_Projection C) (ev_Id env, k, ev_Time env)"
  by (auto simp: kind_of_def applyProjection_def type_defs split: if_splits)

text \<open>The calls a message with a projected event makes, in order.\<close>

lemma handle_cases:
  assumes "handleFetchedMessage C m w = (r, w')" "fact_of C m = Some f"
  obtains (unmarked) e w1 where "markProcessedWithRetry C (fst f) w = (Inl e, w1)"
      "deadLetterAndCommit C m (WrapErr ''mark processed'' e) w1 = (r, w')"
    | (duplicate) w1 where "markProcessedWithRetry C (fst f) w = (Inr False, w1)" "ac_commit C m w1 = (r, w')"
    | (unapplied) env e w1 w2 where "markProcessedWithRetry C (fst f) w = (Inr True, w1)"
      "ev_Id env = fst f" "kind_of (ev_Type env) = Some (fst (snd f))" "ev_Time env = snd (snd f)"
      "applyProjectionWithRetry C env w1 = (Inl e, w2)"
      "deadLetterAndCommit C m (WrapErr ''apply projection'' e) w2 = (r, w')"
    | (counted_once) env w1 w2 where "markProcessedWithRetry C (fst f) w = (Inr True, w1)"
      "ev_Id env = fst f" "kind_of (ev_Type env) = Some (fst (snd f))" "ev_Time env = snd (snd f)"
      "applyProjectionWithRetry C env w1 = (Inr (), w2)" "ac_commit C m w2 = (r, w')"
proof -
  obtain env where env: "decodeAnalyticsEvent C (msg_Value (f_msg m)) = Inr env"
    and f: "ev_Id env = fst f" "kind_of (ev_Type env) = Some (fst (snd f))" "ev_Time env = snd (snd f)"
    using assms(2) by (auto simp: fact_of_def split: sum.splits)
  obtain g w1 where 1: "markProcessedWithRetry C (fst f) w = (g, w1)"
    by (cases "markProcessedWithRetry C (fst f) w")
  obtain q w2 where 2: "applyProjectionWithRetry C env w1 = (q, w2)"
    by (cases "applyProjectionWithRetry C env w1")
  have run: "(case g of Inl e \<Rightarrow> deadLetterAndCommit C m (WrapErr ''mark processed'' e) w1
      | Inr isNew \<Rightarrow> if \<not> isNew then ac_commit C m w1
          else (case q of Inl e \<Rightarrow> deadLetterAndCommit C m (WrapErr ''apply projection'' e) w2
                | Inr _ \<Rightarrow> ac_commit C m w2)) = (r, w')"
    using assms(1) env f 1 2 by (cases g; cases q; auto simp: handleFetchedMessage_def projecting_kind split: if_splits)
  show thesis
  proof (cases g)
    case (Inl e)
    then show thesis using unmarked 1 run by simp
  next
    case g: (Inr isNew)
    show thesis
    proof (cases isNew)
      case False
      then show thesis using duplicate 1 run g by simp
    next
      case True
      show thesis using 1 2 run g True f unapplied counted_once by (cases q) auto
    qed
  qed
qed

lemma handle_other:
  assumes "handleFetchedMessage C m w = (r, w')" "fact_of C m = None"
  shows "ac_commit C m w = (r, w') \<or> (\<exists>e. deadLetterAndCommit C m e w = (r, w'))"
  using assms by (auto simp: handleFetchedMessage_def fact_of_def projecting_kind split: sum.splits)

section \<open>Dead letters\<close>

lemma dlq_attempts_Inr:
  "dlq_attempts wait wr m n e w = (Inr (), w') \<Longrightarrow> e \<noteq> Inr () \<or> 0 < n \<Longrightarrow> \<exists>w1. wr m w1 = (Inr (), w')"
  by (induction n arbitrary: e w)
     (auto split: prod.splits sum.splits if_splits option.splits)

lemma dlq_attempts_keeps:
  assumes "dlq_attempts wait wr m n e w = (r, w')" "I w"
    and "\<And>w. I w \<Longrightarrow> I (snd (wr m w))" "\<And>w. I w \<Longrightarrow> I (snd (wait w))"
  shows "I w'"
  using assms(1,2)
proof (induction n arbitrary: e w)
  case (Suc n)
  then show ?case using assms(3) [of w] assms(4) [of "snd (wr m w)"]
    by (auto split: prod.splits sum.splits if_splits option.splits)
qed simp

text \<open>The message is in the dead-letter topic: its own key and value, with the cause in a header.\<close>

definition dead_lettered :: "'w AnalyticsConsumer \<Rightarrow> fetched \<Rightarrow> bool" where
  "dead_lettered C m \<longleftrightarrow> (case ac_dlqWriter C of None \<Rightarrow> True
     | Some wr \<Rightarrow> \<exists>cause t w1 w2. wr (dlq_message C m cause t) w1 = (Inr (), w2))"

lemma dlqPublish_Inr: "dlqPublish C m cause w = (Inr (), w') \<Longrightarrow> dead_lettered C m"
  unfolding dlqPublish_def dead_lettered_def writeDLQ_def dlqTopicReadyAttempts_def
  by (force split: option.splits prod.splits dest!: dlq_attempts_Inr)

section \<open>The contract of a consumer\<close>

locale consuming = projection_store P inv abs
  for P :: "'w ProjectionStore" and inv and abs +
  fixes C :: "'w AnalyticsConsumer"
    and marked :: "'w \<Rightarrow> string set"
  assumes projection [simp]: "ac_Projection C = P"
    and retrying: "inv w \<Longrightarrow> retry_ok (ac_Retry C)"
    and gate: "inv w \<Longrightarrow> ac_Processed C i w = (g, w') \<Longrightarrow> inv w' \<and> abs w' = abs w
      \<and> (case g of Inr b \<Rightarrow> b = (i \<notin> marked w) \<and> marked w' = insert i (marked w)
           | Inl e \<Rightarrow> marked w' = marked w \<or> marked w' = insert i (marked w))"
    and apply_marked: "inv w \<Longrightarrow> marked (snd (apply_fact P f w)) = marked w"
    and elsewhere:
      "ac_CommitMessages C m w = (r, w') \<Longrightarrow> inv w \<Longrightarrow> inv w' \<and> abs w' = abs w \<and> marked w' = marked w"
      "ac_dlqWriter C = Some wr \<Longrightarrow> wr dm w = (r, w') \<Longrightarrow> inv w \<Longrightarrow> inv w' \<and> abs w' = abs w \<and> marked w' = marked w"
      "ac_now C w = (t, w') \<Longrightarrow> inv w \<Longrightarrow> inv w' \<and> abs w' = abs w \<and> marked w' = marked w"
      "ac_wait C w = (c, w') \<Longrightarrow> inv w \<Longrightarrow> inv w' \<and> abs w' = abs w \<and> marked w' = marked w"
begin

definition same :: "'w \<Rightarrow> 'w \<Rightarrow> bool" where
  "same w w' \<longleftrightarrow> inv w' \<and> abs w' = abs w \<and> marked w' = marked w"

lemma dlqPublish_same: "dlqPublish C m cause w = (r, w') \<Longrightarrow> inv w \<Longrightarrow> same w w'"
proof (cases "ac_dlqWriter C")
  case (Some wr)
  assume run: "dlqPublish C m cause w = (r, w')" and "inv w"
  obtain t w1 where now: "ac_now C w = (t, w1)" by (cases "ac_now C w")
  have "same w w1" using elsewhere(3) [OF now] \<open>inv w\<close> by (simp add: same_def)
  moreover have "same w (snd (wr dm v))" if "same w v" for dm v
    using elsewhere(2) [OF Some, of dm v "fst (wr dm v)" "snd (wr dm v)"] that by (simp add: same_def)
  moreover have "same w (snd (ac_wait C v))" if "same w v" for v
    using elsewhere(4) [of v "fst (ac_wait C v)" "snd (ac_wait C v)"] that by (simp add: same_def)
  ultimately show "same w w'"
    using run Some now by (auto simp: dlqPublish_def writeDLQ_def intro: dlq_attempts_keeps [where I = "same w"])
qed (auto simp: dlqPublish_def same_def)

lemma commit_same: "ac_commit C m w = (r, w') \<Longrightarrow> inv w \<Longrightarrow> same w w'"
  using elsewhere(1) [of m w r w'] by (simp add: ac_commit_def same_def)

lemma deadLetter_same:
  assumes "deadLetterAndCommit C m cause w = (r, w')" "inv w"
  shows "same w w'" "r = Inr () \<Longrightarrow> dead_lettered C m"
proof -
  obtain q w1 where pub: "dlqPublish C m cause w = (q, w1)" by (cases "dlqPublish C m cause w")
  have 1: "same w w1" using dlqPublish_same [OF pub assms(2)] .
  show "same w w'"
    using assms(1) pub 1 commit_same [of m w1 r w'] by (cases q) (auto simp: deadLetterAndCommit_def same_def)
  show "r = Inr () \<Longrightarrow> dead_lettered C m"
    using assms(1) pub dlqPublish_Inr [of C m cause w w1] by (cases q) (auto simp: deadLetterAndCommit_def)
qed

lemma marking:
  assumes "markProcessedWithRetry C i w = (r, w')" "inv w"
  shows "inv w' \<and> abs w' = abs w \<and> marked w \<subseteq> marked w' \<and> marked w' \<subseteq> insert i (marked w)
    \<and> (\<forall>b. r = Inr b \<longrightarrow> i \<in> marked w' \<and> (b \<longrightarrow> i \<notin> marked w))"
proof -
  let ?I = "\<lambda>(v, b). inv v \<and> abs v = abs w \<and> marked w \<subseteq> marked v \<and> marked v \<subseteq> insert i (marked w)"
  let ?Q = "\<lambda>(v, b). ?I (v, b) \<and> i \<in> marked v \<and> (b \<longrightarrow> i \<notin> marked w)"
  obtain q v b where R: "ac_Retry C (maxAnalyticsHandlerAttempts - 1) (mark_closure C i) (w, False) = (q, (v, b))"
    by (metis prod.exhaust)
  have "attempts (mark_closure C i) (Suc (maxAnalyticsHandlerAttempts - 1)) (w, False) q (v, b)"
    using retry_okD [OF retrying [OF assms(2)] R] .
  then have "if q = Inr () then ?Q (v, b) else ?I (v, b)"
  proof (rule attempts_rule)
    show "?I (w, False)" using assms(2) by auto
    show "?I s'" if I: "?I s" and call: "mark_closure C i s = (Inl e, s')" for s e s'
    proof -
      obtain v b where s: "s = (v, b)" by (cases s)
      obtain v' where "ac_Processed C i v = (Inl e, v')" "s' = (v', False)"
        using call by (auto simp: mark_closure_def s split: prod.splits sum.splits)
      with gate [OF _ this(1)] I show ?thesis by (auto simp: s)
    qed
    show "?Q s'" if I: "?I s" and call: "mark_closure C i s = (Inr (), s')" for s s'
    proof -
      obtain v b where s: "s = (v, b)" by (cases s)
      obtain v' b' where "ac_Processed C i v = (Inr b', v')" "s' = (v', b')"
        using call by (auto simp: mark_closure_def s split: prod.splits sum.splits)
      with gate [OF _ this(1)] I show ?thesis by (auto simp: s)
    qed
  qed
  then show ?thesis
    using assms(1) R by (cases q) (auto simp: markProcessedWithRetry_def retryBounded_def)
qed

lemma applying:
  assumes "applyProjectionWithRetry C env w = (r, w')" "inv w" "kind_of (ev_Type env) = Some k"
  defines "f \<equiv> (ev_Id env, k, ev_Time env)"
  shows "inv w' \<and> marked w' = marked w \<and> (abs w' = grow f (abs w) \<or> abs w' = abs w \<and> r \<noteq> Inr ())"
proof -
  let ?I = "\<lambda>(v, b). inv v \<and> marked v = marked w \<and> (abs v = abs w \<or> abs v = grow f (abs w))"
  let ?Q = "\<lambda>(v, b). inv v \<and> marked v = marked w \<and> abs v = grow f (abs w)"
  obtain q v b where R: "ac_Retry C (maxAnalyticsHandlerAttempts - 1) (apply_closure C env) (w, False) = (q, (v, b))"
    by (metis prod.exhaust)
  have closure: "\<exists>v'. apply_fact P f v = (q, v') \<and> s' = (v', b)"
    if "apply_closure C env (v, b) = (q, s')" for v b q s'
    using that applyProjection_fact [OF assms(3), of C] by (auto simp: apply_closure_def f_def split: prod.splits)
  have again: "grow f (grow f g) = grow f g" for g by (rule grow_again) simp
  have "attempts (apply_closure C env) (Suc (maxAnalyticsHandlerAttempts - 1)) (w, False) q (v, b)"
    using retry_okD [OF retrying [OF assms(2)] R] .
  then have "if q = Inr () then ?Q (v, b) else ?I (v, b)"
  proof (rule attempts_rule)
    show "?I (w, False)" using assms(2) by simp
  next
    fix s e s' assume I: "?I s" and call: "apply_closure C env s = (Inl e, s')"
    obtain u c where s: "s = (u, c)" by (cases s)
    obtain u' where u': "apply_fact P f u = (Inl e, u')" "s' = (u', c)" using closure call s by blast
    then show "?I s'"
      using I s keeps [of u f] refused [OF _ u'(1)] apply_marked [of u f] again by (auto simp: u')
  next
    fix s s' assume I: "?I s" and call: "apply_closure C env s = (Inr (), s')"
    obtain u c where s: "s = (u, c)" by (cases s)
    obtain u' where u': "apply_fact P f u = (Inr (), u')" "s' = (u', c)" using closure call s by blast
    then show "?Q s'"
      using I s keeps [of u f] applied [OF _ u'(1)] apply_marked [of u f] again by (auto simp: u')
  qed
  then show ?thesis
    using assms(1) R by (cases q) (auto simp: applyProjectionWithRetry_def retryBounded_def)
qed

text \<open>What one handled message changes of the read model: nothing, or its own event is counted.\<close>

lemma handling:
  assumes "handleFetchedMessage C m w = (r, w')" "inv w"
  shows "inv w' \<and> (abs w' = abs w \<or> (\<exists>f. fact_of C m = Some f \<and> abs w' = grow f (abs w)))"
proof (cases "fact_of C m")
  case None
  from handle_other [OF assms(1) this] show ?thesis
    using assms(2) commit_same deadLetter_same(1) by (auto simp: same_def)
next
  case (Some f)
  note marked = marking [OF _ assms(2)]
  from assms(1) Some show ?thesis
  proof (cases rule: handle_cases)
    case (unmarked e w1)
    then show ?thesis using marked deadLetter_same(1) by (fastforce simp: same_def)
  next
    case (duplicate w1)
    then show ?thesis using marked commit_same by (fastforce simp: same_def)
  next
    case (unapplied env e w1 w2)
    have f: "(ev_Id env, fst (snd f), ev_Time env) = f" using unapplied(2,4) by (simp add: prod_eq_iff)
    show ?thesis
      using marked [OF unapplied(1)] applying [OF unapplied(5) _ unapplied(3)] deadLetter_same(1) [OF unapplied(6)] Some f
      by (auto simp: same_def simp del: grow.simps)
  next
    case (counted_once env w1 w2)
    have f: "(ev_Id env, fst (snd f), ev_Time env) = f" using counted_once(2,4) by (simp add: prod_eq_iff)
    show ?thesis
      using marked [OF counted_once(1)] applying [OF counted_once(5) _ counted_once(3)] commit_same [OF counted_once(6)] Some f
      by (auto simp: same_def simp del: grow.simps)
  qed
qed

lemma marking_clean:
  assumes "markProcessedWithRetry C i w = (r, w')" "inv w"
    and clean: "\<And>w e w'. ac_Processed C i w = (Inl e, w') \<Longrightarrow> marked w' = marked w"
  shows "inv w' \<and> abs w' = abs w \<and> (\<forall>b. r = Inr b \<longrightarrow> b = (i \<notin> marked w))"
proof -
  let ?I = "\<lambda>(v, b :: bool). inv v \<and> abs v = abs w \<and> marked v = marked w"
  let ?Q = "\<lambda>(v, b). inv v \<and> abs v = abs w \<and> b = (i \<notin> marked w)"
  obtain q v b where R: "ac_Retry C (maxAnalyticsHandlerAttempts - 1) (mark_closure C i) (w, False) = (q, (v, b))"
    by (metis prod.exhaust)
  have "attempts (mark_closure C i) (Suc (maxAnalyticsHandlerAttempts - 1)) (w, False) q (v, b)"
    using retry_okD [OF retrying [OF assms(2)] R] .
  then have "if q = Inr () then ?Q (v, b) else ?I (v, b)"
  proof (rule attempts_rule)
    show "?I (w, False)" using assms(2) by simp
    show "?I s'" if I: "?I s" and call: "mark_closure C i s = (Inl e, s')" for s e s'
    proof -
      obtain v b where s: "s = (v, b)" by (cases s)
      obtain v' where v': "ac_Processed C i v = (Inl e, v')" "s' = (v', False)"
        using call by (auto simp: mark_closure_def s split: prod.splits sum.splits)
      with gate [OF _ v'(1)] clean [OF v'(1)] I show ?thesis by (auto simp: s)
    qed
    show "?Q s'" if I: "?I s" and call: "mark_closure C i s = (Inr (), s')" for s s'
    proof -
      obtain v b where s: "s = (v, b)" by (cases s)
      obtain v' b' where "ac_Processed C i v = (Inr b', v')" "s' = (v', b')"
        using call by (auto simp: mark_closure_def s split: prod.splits sum.splits)
      with gate [OF _ this(1)] I show ?thesis by (auto simp: s)
    qed
  qed
  then show ?thesis
    using assms(1) R by (cases q) (auto simp: markProcessedWithRetry_def retryBounded_def)
qed

text \<open>
  The offset of a message is only committed (the consumer answers without an error) once its event
  is counted, is in the dead-letter topic, is not projected, or came with an id marked before.
\<close>

lemma committed_settled:
  assumes "handleFetchedMessage C m w = (Inr (), w')" "inv w" "fact_of C m = Some f"
    and clean: "\<And>w e w'. ac_Processed C (fst f) w = (Inl e, w') \<Longrightarrow> marked w' = marked w"
    and new: "fst f \<notin> marked w"
  shows "abs w' = grow f (abs w) \<or> dead_lettered C m"
proof -
  have clean_mark: "inv w1 \<and> abs w1 = abs w \<and> (\<forall>b. g = Inr b \<longrightarrow> b = (fst f \<notin> marked w))"
    if "markProcessedWithRetry C (fst f) w = (g, w1)" for g w1
    using marking_clean [OF that assms(2)] clean by blast
  from assms(1,3) show ?thesis
  proof (cases rule: handle_cases)
    case (unmarked e w1)
    then show ?thesis using clean_mark [OF unmarked(1)] deadLetter_same(2) by blast
  next
    case (duplicate w1)
    then show ?thesis using clean_mark [OF duplicate(1)] new by blast
  next
    case (unapplied env e w1 w2)
    have "inv w2"
      using applying [OF unapplied(5) _ unapplied(3)] clean_mark [OF unapplied(1)] by blast
    then show ?thesis using deadLetter_same(2) [OF unapplied(6)] by simp
  next
    case (counted_once env w1 w2)
    have f: "(ev_Id env, fst (snd f), ev_Time env) = f" using counted_once(2,4) by (simp add: prod_eq_iff)
    show ?thesis
      using clean_mark [OF counted_once(1)] applying [OF counted_once(5) _ counted_once(3)] commit_same [OF counted_once(6)] f
      by (auto simp: same_def simp del: grow.simps)
  qed
qed

text \<open>
  With a gate and a projection that answer every call, a message is counted exactly when its event
  was not counted before, and what is marked is what is counted.
\<close>

lemma healthy:
  assumes "handleFetchedMessage C m w = (r, w')" "inv w" "marked w = g_seen (abs w)"
    and quiet: "\<And>i v e v'. ac_Processed C i v \<noteq> (Inl e, v')" "\<And>f v e v'. inv v \<Longrightarrow> abs v = abs w \<Longrightarrow> apply_fact P f v \<noteq> (Inl e, v')"
  shows "inv w' \<and> marked w' = g_seen (abs w')
    \<and> abs w' = (case fact_of C m of None \<Rightarrow> abs w | Some f \<Rightarrow> grow f (abs w))"
proof (cases "fact_of C m")
  case None
  from handle_other [OF assms(1) this] show ?thesis
    using assms(2,3) None commit_same deadLetter_same(1) by (auto simp: same_def)
next
  case (Some f)
  have answered: "g \<noteq> Inl e" if run: "markProcessedWithRetry C i w = (g, w1)" for i g w1 e
  proof -
    obtain b v where gate: "ac_Processed C i w = (Inr b, v)"
      using quiet(1) [of i w] by (metis obj_sumE surj_pair)
    obtain q v1 c where R: "ac_Retry C (maxAnalyticsHandlerAttempts - 1) (mark_closure C i) (w, False) = (q, (v1, c))"
      by (metis prod.exhaust)
    have "attempts (mark_closure C i) (Suc (maxAnalyticsHandlerAttempts - 1)) (w, False) q (v1, c)"
      using retry_okD [OF retrying [OF assms(2)] R] .
    then have "q = Inr ()" by (rule attempts_first) (simp add: mark_closure_def gate)
    with run R show ?thesis by (auto simp: markProcessedWithRetry_def retryBounded_def)
  qed
  have applied: "q \<noteq> Inl e" if run: "applyProjectionWithRetry C env v = (q, w2)" and v: "inv v" "abs v = abs w"
    and kind: "kind_of (ev_Type env) = Some k" for env v q w2 e k
  proof -
    obtain v1 where one: "applyProjection C env v = (Inr (), v1)"
      using quiet(2) [OF v, of "(ev_Id env, k, ev_Time env)"] applyProjection_fact [OF kind, of C]
      by (metis (full_types) obj_sumE old.unit.exhaust projection surj_pair)
    obtain q1 v2 c where R: "ac_Retry C (maxAnalyticsHandlerAttempts - 1) (apply_closure C env) (v, False) = (q1, (v2, c))"
      by (metis prod.exhaust)
    have "attempts (apply_closure C env) (Suc (maxAnalyticsHandlerAttempts - 1)) (v, False) q1 (v2, c)"
      using retry_okD [OF retrying [OF v(1)] R] .
    then have "q1 = Inr ()" by (rule attempts_first) (simp add: apply_closure_def one)
    with run R show ?thesis by (auto simp: applyProjectionWithRetry_def retryBounded_def)
  qed
  note mark = marking [OF _ assms(2)]
  from assms(1) Some show ?thesis
  proof (cases rule: handle_cases)
    case (unmarked e w1)
    then show ?thesis using answered by blast
  next
    case (duplicate w1)
    have "fst f \<in> marked w"
      using marking_clean [OF duplicate(1) assms(2)] quiet(1) by blast
    then have "marked w1 = marked w" "abs w1 = abs w" "inv w1" using mark [OF duplicate(1)] by auto
    moreover have "grow f (abs w) = abs w" using \<open>fst f \<in> marked w\<close> assms(3) by (simp add: grow_again)
    ultimately show ?thesis using commit_same [OF duplicate(2)] assms(3) Some by (auto simp: same_def)
  next
    case (unapplied env e w1 w2)
    then show ?thesis using applied [OF unapplied(5) _ _ unapplied(3)] mark [OF unapplied(1)] by blast
  next
    case (counted_once env w1 w2)
    have f: "(ev_Id env, fst (snd f), ev_Time env) = f" using counted_once(2,4) by (simp add: prod_eq_iff)
    have "marked w1 = insert (fst f) (marked w)" "abs w1 = abs w" "inv w1" using mark [OF counted_once(1)] by auto
    then show ?thesis
      using applying [OF counted_once(5) _ counted_once(3)] commit_same [OF counted_once(6)] f assms(3) Some
      by (auto simp: same_def simp del: grow.simps)
  qed
qed

end

section \<open>The projector's consumer\<close>

definition consumed_ids :: "adb pg \<times> 'k \<Rightarrow> string set" where
  "consumed_ids w = set (a_consumed (committed (fst w)))"

definition consumer_ok :: "analytics_env \<Rightarrow> (nat \<Rightarrow> (('d \<times> 'k) \<times> bool, unit) io \<Rightarrow> (('d \<times> 'k) \<times> bool, unit) io)
    \<Rightarrow> adb pg \<times> 'k \<Rightarrow> bool" where
  "consumer_ok A R w \<longleftrightarrow> pg_ok A (fst w) \<and> retry_ok R"

lemma db_apply_fact: "apply_fact (db_projection P) f = on_db (apply_fact P f)"
  by (cases "(P, f)" rule: apply_fact.cases) (simp_all add: db_projection_def)

lemma on_db_eq: "on_db f w = (r, w') \<longleftrightarrow> f (fst w) = (r, fst w') \<and> snd w' = snd w"
  by (auto simp: on_db_def split: prod.splits)

lemma on_kafka_eq: "on_kafka f w = (r, w') \<longleftrightarrow> f (snd w) = (r, snd w') \<and> fst w' = fst w"
  by (auto simp: on_kafka_def split: prod.splits)

lemma apply_consumed: "a_consumed (committed (snd (apply_fact (pg_projection A) f d))) = a_consumed (committed d)"
proof -
  obtain i k at where f: "f = (i, k, at)" by (cases f)
  obtain r d' where run: "projection_apply A i at (delta_of k) d = (r, d')"
    by (cases "projection_apply A i at (delta_of k) d")
  have "a_consumed db' = a_consumed db" if "apply_db E i at \<delta> db = Inr db'" for E \<delta> db db'
    using that by (auto simp: apply_db_def map_sum_def split: if_splits sum.splits dest!: upsert_stmt_Inr)
  then show ?thesis using projection_apply_cases [OF run] by (auto simp: pg_apply f run)
qed

lemma consume_stmt_eq:
  "consume_stmt i db = Inr (i \<notin> set (a_consumed db),
     if i \<in> set (a_consumed db) then db else db\<lparr>a_consumed := a_consumed db @ [i]\<rparr>)"
  by (auto simp: consume_stmt_def insert_ignore_def select_None_iff)

lemma MarkProcessed_gate:
  assumes "MarkProcessed A i d = (g, d')"
  shows "pg_ok A d' = pg_ok A d \<and> adb_growth (committed d') = adb_growth (committed d)
    \<and> (case g of Inr b \<Rightarrow> b = (i \<notin> set (a_consumed (committed d)))
          \<and> set (a_consumed (committed d')) = insert i (set (a_consumed (committed d)))
        | Inl e \<Rightarrow> set (a_consumed (committed d')) = set (a_consumed (committed d))
          \<or> set (a_consumed (committed d')) = insert i (set (a_consumed (committed d))))"
  using assms
  by (auto simp: MarkProcessed_def sql_exec_def consume_stmt_eq pg_ok_def adb_growth_def
      split: option.splits fault.splits if_splits)

lemma MarkProcessed_clean:
  assumes "\<And>n e. ae_faults A n \<noteq> Some (Ambiguous e)" "MarkProcessed A i d = (Inl e, d')"
  shows "committed d' = committed d"
  using assms by (auto simp: MarkProcessed_def sql_exec_def consume_stmt_eq split: option.splits fault.splits)

interpretation projector: consuming "db_projection (pg_projection A)" "consumer_ok A R"
  "\<lambda>w. adb_growth (committed (fst w))"
  "NewAnalyticsConsumer K topic (pg_projection A) (MarkProcessed A) S X R" consumed_ids
proof unfold_locales
  fix w w' and f :: fact and e u r
  let ?C = "NewAnalyticsConsumer K topic (pg_projection A) (MarkProcessed A) S X R"
  show "consumer_ok A R w \<Longrightarrow> consumer_ok A R (snd (apply_fact (db_projection (pg_projection A)) f w))"
    using pg_store.keeps [of A "fst w" f] by (auto simp: consumer_ok_def db_apply_fact on_db_def split: prod.splits)
  show "consumer_ok A R w \<Longrightarrow> apply_fact (db_projection (pg_projection A)) f w = (Inr u, w')
      \<Longrightarrow> adb_growth (committed (fst w')) = grow f (adb_growth (committed (fst w)))"
    using pg_store.applied [of A "fst w" f u "fst w'"] by (simp add: consumer_ok_def db_apply_fact on_db_eq)
  show "consumer_ok A R w \<Longrightarrow> apply_fact (db_projection (pg_projection A)) f w = (Inl e, w')
      \<Longrightarrow> adb_growth (committed (fst w')) = adb_growth (committed (fst w))
        \<or> adb_growth (committed (fst w')) = grow f (adb_growth (committed (fst w)))"
    using pg_store.refused [of A "fst w" f e "fst w'"] by (simp add: consumer_ok_def db_apply_fact on_db_eq)
  show "consumed_ids (snd (apply_fact (db_projection (pg_projection A)) f w)) = consumed_ids w"
    using apply_consumed [of A f "fst w"]
    by (auto simp: consumed_ids_def db_apply_fact on_db_def split: prod.splits)
next
  fix w i g w'
  assume "consumer_ok A R w"
    "ac_Processed (NewAnalyticsConsumer K topic (pg_projection A) (MarkProcessed A) S X R) i w = (g, w')"
  with MarkProcessed_gate [of A i "fst w" g "fst w'"]
  show "consumer_ok A R w' \<and> adb_growth (committed (fst w')) = adb_growth (committed (fst w))
      \<and> (case g of Inr b \<Rightarrow> b = (i \<notin> consumed_ids w) \<and> consumed_ids w' = insert i (consumed_ids w)
         | Inl e \<Rightarrow> consumed_ids w' = consumed_ids w \<or> consumed_ids w' = insert i (consumed_ids w))"
    by (cases g) (simp_all add: NewAnalyticsConsumer_def consumer_ok_def consumed_ids_def on_db_eq)
next
  show "ac_Projection (NewAnalyticsConsumer K topic (pg_projection A) (MarkProcessed A) S X R)
    = db_projection (pg_projection A)" by (simp add: NewAnalyticsConsumer_def)
qed (auto simp: NewAnalyticsConsumer_def consumer_ok_def consumed_ids_def on_db_eq on_kafka_eq
    newDLQWriter_def)

section \<open>A life of the projector\<close>

text \<open>
  The messages handled so far and the world they left, from an empty analytical database. A message
  may come again, also after an error ended the process; the process may die after the gate and
  before the projection; and the broker's side changes on its own.
\<close>

inductive projected :: "analytics_env \<Rightarrow> (adb pg \<times> 'k) AnalyticsConsumer \<Rightarrow> fetched list \<Rightarrow> adb pg \<times> 'k \<Rightarrow> bool"
  for A C where
  start: "committed d = empty_adb \<Longrightarrow> projected A C [] (d, k)"
| handled: "projected A C ms w \<Longrightarrow> handleFetchedMessage C m w = (r, w') \<Longrightarrow> projected A C (ms @ [m]) w'"
| died: "projected A C ms (d, k) \<Longrightarrow> fact_of C m = Some f \<Longrightarrow> MarkProcessed A (fst f) d = (g, d')
    \<Longrightarrow> projected A C (ms @ [m]) (d', k)"
| elsewhere: "projected A C ms (d, k) \<Longrightarrow> projected A C ms (d, k')"

inductive_cases projected_startE: "projected A C [] w"

definition facts_of :: "'w AnalyticsConsumer \<Rightarrow> fetched list \<Rightarrow> fact list" where
  "facts_of C ms = List.map_filter (fact_of C) ms"

lemma facts_of_append [simp]:
  "facts_of C (ms @ [m]) = facts_of C ms @ (case fact_of C m of None \<Rightarrow> [] | Some f \<Rightarrow> [f])"
  by (auto simp: facts_of_def List.map_filter_def split: option.splits)

lemma projected_growth:
  assumes "projected A C ms w"
    and "C = NewAnalyticsConsumer K topic (pg_projection A) (MarkProcessed A) S X R"
    and "whole_days (ae_ext A)" "retry_ok R"
  shows "consumer_ok A R w \<and> (\<exists>gs. adb_growth (committed (fst w)) = fold grow gs no_growth
    \<and> set gs \<subseteq> set (facts_of C ms))"
  using assms(1)
proof induction
  case (start d k)
  have "adb_growth (committed d) = fold grow [] no_growth"
    by (simp add: start adb_growth_def no_growth_def empty_adb_def)
  then show ?case using assms(3,4) start
    by (auto simp: consumer_ok_def pg_ok_def intro!: exI [of _ "[]"])
next
  case (handled ms w m r w')
  then obtain gs where gs: "consumer_ok A R w" "adb_growth (committed (fst w)) = fold grow gs no_growth"
    "set gs \<subseteq> set (facts_of C ms)" by blast
  from projector.handling [OF handled.hyps(2) [unfolded assms(2)] gs(1)]
  consider "consumer_ok A R w'" "adb_growth (committed (fst w')) = adb_growth (committed (fst w))"
    | f where "consumer_ok A R w'" "fact_of C m = Some f" "adb_growth (committed (fst w')) = grow f (adb_growth (committed (fst w)))"
    by (auto simp: assms(2))
  then show ?case
  proof cases
    case 1
    with gs show ?thesis by (auto intro!: exI [of _ gs])
  next
    case (2 f)
    have "adb_growth (committed (fst w')) = fold grow (gs @ [f]) no_growth" using 2 gs by simp
    moreover have "set (gs @ [f]) \<subseteq> set (facts_of C (ms @ [m]))" using 2 gs by auto
    ultimately show ?thesis using 2(1) by blast
  qed
next
  case (died ms d k m f g d')
  have "pg_ok A d' = pg_ok A d \<and> adb_growth (committed d') = adb_growth (committed d)"
    using MarkProcessed_gate [OF died.hyps(3)] by blast
  then show ?case using died.IH by (auto simp: consumer_ok_def split: option.splits)
next
  case (elsewhere ms d k k')
  then show ?case by (simp add: consumer_ok_def)
qed

section \<open>Bounds\<close>

lemma attempts_count:
  fixes c :: "'s \<Rightarrow> nat"
  assumes "attempts fn n s r s'" "\<And>s. c (snd (fn s)) \<le> c s + k"
  shows "c s' \<le> c s + n * k"
  using assms(1)
proof induction
  case (success s s' n)
  with assms(2) [of s] show ?case by simp
next
  case (stop s e s' n e')
  with assms(2) [of s] show ?case by simp
next
  case (again s e s1 n r s')
  with assms(2) [of s] show ?case by simp
qed

lemma pool_calls:
  "calls (snd (pool_Begin F w)) = Suc (calls w)" "calls (snd (tx_Commit F w)) = Suc (calls w)"
  "calls (snd (tx_Rollback F w)) = Suc (calls w)"
  by (auto simp: pool_Begin_def tx_Commit_def tx_Rollback_def split: option.splits fault.splits bool.splits prod.splits)

text \<open>One attempt of a projection makes at most four calls of the database.\<close>

lemma projection_apply_calls: "calls (snd (projection_apply A i at \<delta> w)) \<le> calls w + 4"
proof -
  obtain b w1 where 1: "pool_Begin (ae_faults A) w = (b, w1)" by (cases "pool_Begin (ae_faults A) w")
  obtain c w2 where 2: "sql_exec (ae_faults A) WithTx (claim_stmt (ae_ext A) i at) w1 = (c, w2)"
    by (cases "sql_exec (ae_faults A) WithTx (claim_stmt (ae_ext A) i at) w1")
  obtain u w3 where 3: "sql_exec (ae_faults A) WithTx (upsert_stmt (ae_ext A) at \<delta>) w2 = (u, w3)"
    by (cases "sql_exec (ae_faults A) WithTx (upsert_stmt (ae_ext A) at \<delta>) w2")
  have calls: "calls w1 = Suc (calls w)" "calls w2 = Suc (calls w1)" "calls w3 = Suc (calls w2)"
    using pool_calls(1) [of "ae_faults A" w] 1 2 3
      sql_exec_frame(4) [of "ae_faults A" WithTx "claim_stmt (ae_ext A) i at" w1]
      sql_exec_frame(4) [of "ae_faults A" WithTx "upsert_stmt (ae_ext A) at \<delta>" w2] by simp_all
  show ?thesis
    by (auto simp: projection_apply_def inTx_def upsertRollup_def 1 2 3 calls pool_calls split: sum.splits)
qed

lemma retried_calls:
  assumes "retry_ok (ac_Retry C)" "\<And>s. c (snd (fn s)) \<le> c s + k" "retryBounded C fn s = (r, s')"
  shows "c s' \<le> c s + maxAnalyticsHandlerAttempts * (k :: nat)"
proof -
  have "attempts fn (Suc (maxAnalyticsHandlerAttempts - 1)) s r s'"
    using retry_okD [OF assms(1)] assms(3) by (simp add: retryBounded_def)
  from attempts_count [OF this, of c k] assms(2) show ?thesis by (simp add: maxAnalyticsHandlerAttempts_def)
qed

lemma kafka_calls:
  assumes "C = NewAnalyticsConsumer K topic P M S X R"
  shows "ac_commit C m w = (r, w') \<Longrightarrow> fst w' = fst w" "deadLetterAndCommit C m e w = (r, w') \<Longrightarrow> fst w' = fst w"
proof -
  show commit: "ac_commit C m w = (r, w') \<Longrightarrow> fst w' = fst w" for w
    by (simp add: assms ac_commit_def NewAnalyticsConsumer_def on_kafka_eq)
  have publish: "fst v' = fst v" if pub: "dlqPublish C m e v = (q, v')" for v v' q
  proof -
    let ?wr = "newDLQWriter (\<lambda>m. on_kafka (k_Write K m)) (topic @ analyticsDlqTopicSuffix)"
    obtain t v1 where now: "on_kafka (k_now K) v = (t, v1)" by (cases "on_kafka (k_now K) v")
    have "dlq_attempts (on_kafka (k_wait K)) ?wr (dlq_message C m e t) dlqTopicReadyAttempts (Inr ()) v1 = (q, v')"
      using pub now by (simp add: dlqPublish_def assms NewAnalyticsConsumer_def writeDLQ_def)
    moreover have "fst v1 = fst v" using now by (simp add: on_kafka_eq)
    ultimately show ?thesis
      by (rule dlq_attempts_keeps [where I = "\<lambda>u. fst u = fst v"])
        (auto simp: newDLQWriter_def on_kafka_def split: prod.splits)
  qed
  show "deadLetterAndCommit C m e w = (r, w') \<Longrightarrow> fst w' = fst w"
    using publish [of w] commit
    by (auto simp: deadLetterAndCommit_def split: prod.splits sum.splits)
qed

lemma handle_calls:
  assumes "handleFetchedMessage C m w = (r, w')" "retry_ok R"
    and C: "C = NewAnalyticsConsumer K topic (pg_projection A) (MarkProcessed A) S X R"
  shows "calls (fst w') \<le> calls (fst w) + maxAnalyticsHandlerAttempts * 5"
proof (cases "fact_of C m")
  case None
  from handle_other [OF assms(1) this] kafka_calls [OF C] have "fst w' = fst w" by blast
  then show ?thesis by simp
next
  case (Some f)
  have retry: "retry_ok (ac_Retry C)" using assms(2) by (simp add: C NewAnalyticsConsumer_def)
  have mark: "calls (fst w1) \<le> calls (fst w) + maxAnalyticsHandlerAttempts * 1"
    if run: "markProcessedWithRetry C (fst f) w = (g, w1)" for g w1
  proof -
    have step: "calls (fst (fst (snd (mark_closure C (fst f) s)))) \<le> calls (fst (fst s)) + 1" for s
      using sql_exec_frame(4) [of "ae_faults A" Background "consume_stmt (fst f)" "fst (fst s)"]
      by (auto simp: mark_closure_def C NewAnalyticsConsumer_def on_db_def MarkProcessed_def
          split: prod.splits sum.splits)
    obtain q v where "retryBounded C (mark_closure C (fst f)) (w, False) = (q, v)"
      by (cases "retryBounded C (mark_closure C (fst f)) (w, False)")
    from retried_calls [where c = "\<lambda>s. calls (fst (fst s))", OF retry step this] this run show ?thesis
      by (auto simp: markProcessedWithRetry_def split: prod.splits sum.splits)
  qed
  have projection_calls: "calls (fst w2) \<le> calls (fst w1) + maxAnalyticsHandlerAttempts * 4"
    if run: "applyProjectionWithRetry C env w1 = (q, w2)" and k: "kind_of (ev_Type env) = Some k" for env k q w1 w2
  proof -
    have step: "calls (fst (fst (snd (apply_closure C env s)))) \<le> calls (fst (fst s)) + 4" for s
      using projection_apply_calls [of A "ev_Id env" "ev_Time env" "delta_of k" "fst (fst s)"]
      by (auto simp: apply_closure_def applyProjection_fact [OF k] C NewAnalyticsConsumer_def db_apply_fact
          pg_apply on_db_def split: prod.splits)
    obtain p v where "retryBounded C (apply_closure C env) (w1, False) = (p, v)"
      by (cases "retryBounded C (apply_closure C env) (w1, False)")
    from retried_calls [where c = "\<lambda>s. calls (fst (fst s))", OF retry step this] this run show ?thesis
      by (auto simp: applyProjectionWithRetry_def split: prod.splits)
  qed
  from assms(1) Some show ?thesis
  proof (cases rule: handle_cases)
    case (unmarked e w1)
    then show ?thesis using mark [OF unmarked(1)] kafka_calls(2) [OF C unmarked(2)] by simp
  next
    case (duplicate w1)
    then show ?thesis using mark [OF duplicate(1)] kafka_calls(1) [OF C duplicate(2)] by simp
  next
    case (unapplied env e w1 w2)
    then show ?thesis
      using mark [OF unapplied(1)] projection_calls [OF unapplied(5,3)] kafka_calls(2) [OF C unapplied(6)] by simp
  next
    case (counted_once env w1 w2)
    then show ?thesis
      using mark [OF counted_once(1)] projection_calls [OF counted_once(5,3)] kafka_calls(1) [OF C counted_once(6)] by simp
  qed
qed

end
