(* ===== verification/AnalyticsClaims.thy ===== *)
theory AnalyticsClaims
  imports AppClaims ConsumerRefine
begin

text \<open>
  The properties of the analytical read model and of the consumer that feeds it, with their witnesses
  over a small analytical database and a broker that records what it is told.
\<close>

section \<open>A concrete projector\<close>

definition demo_analytics :: "faults \<Rightarrow> analytics_env" where
  "demo_analytics F = \<lparr>ae_ext = demo_ext, ae_faults = F, ae_now = (\<lambda>n. 1000 * int n)\<rparr>"

definition analytics_start :: "adb pg" where
  "analytics_start = \<lparr>committed = empty_adb, open_tx = None, calls = 0, ids = 0, ticks = 0, counter = (\<lambda>_. 0)\<rparr>"

text \<open>The broker keeps the committed messages and the dead letters; \<open>refusing\<close> refuses every write.\<close>

type_synonym demo_broker = "fetched list \<times> kafka_message list"

definition demo_kafka :: "bool \<Rightarrow> demo_broker kafka_side" where
  "demo_kafka refusing = \<lparr>
     k_Fetch = (\<lambda>k. (Inl context_Canceled, k)),
     k_Commit = (\<lambda>m (cs, ds). (Inr (), (cs @ [m], ds))),
     k_Write = (\<lambda>m (cs, ds). if refusing then (Inl (PlainErr ''broker down''), (cs, ds)) else (Inr (), (cs, ds @ [m]))),
     k_now = Pair ''2026-01-01T00:00:00Z'', k_wait = Pair None\<rparr>"

definition demo_created :: cloud_event where
  "demo_created = wire_event (ProcessPathDeactivated ''pick-pack'' 5) ''id-1'' StreamAnalytics"

definition demo_consumer :: "faults \<Rightarrow> bool \<Rightarrow> (adb pg \<times> demo_broker) AnalyticsConsumer" where
  "demo_consumer F refusing = NewAnalyticsConsumer (demo_kafka refusing) AnalyticsTopic
     (pg_projection (demo_analytics F)) (MarkProcessed (demo_analytics F)) (one_event_sdk demo_created)
     (\<lambda>_. ''error'') retry_at_once"

definition demo_fetched :: fetched where
  "demo_fetched = \<lparr>f_msg = \<lparr>msg_Topic = AnalyticsTopic, msg_Key = ''pick-pack'', msg_Value = ''doc'',
     msg_Headers = [ContentTypeHeader]\<rparr>, f_Partition = 0, f_Offset = 7\<rparr>"

lemma demo_whole_days: "whole_days (ae_ext (demo_analytics F))"
proof -
  have "(t - t mod 86400000000000) mod 1000 = 0" for t :: int
  proof -
    have "t - t mod 86400000000000 = 1000 * (86400000000 * (t div 86400000000000))"
      by (simp add: minus_mod_eq_mult_div)
    then show ?thesis by simp
  qed
  then show ?thesis by (simp add: whole_days_def demo_analytics_def demo_ext_def dayBucket_def hours24_def)
qed

lemma demo_fact: "fact_of (demo_consumer F b) demo_fetched = Some (''id-1'', Deactivated, 5)"
  by (simp add: fact_of_def decodeAnalyticsEvent_def demo_consumer_def NewAnalyticsConsumer_def ce_Decode_def
      one_event_sdk_def demo_sdk_def demo_created_def wire_event_def ce_required_def ce_Source_def
      SpecVersion_def kind_of_def type_defs demo_fetched_def)

definition all_refused :: faults where
  "all_refused n = Some (Refused (PlainErr ''conn refused''))"

definition first_call_ambiguous :: faults where
  "first_call_ambiguous n = (if n = 0 then Some (Ambiguous (PlainErr ''conn reset'')) else None)"

definition only_first_call_works :: faults where
  "only_first_call_works n = (if n = 0 then None else all_refused n)"

definition answering :: "(err + unit) list Writer" where
  "answering m k = (hd k, tl k)"

section \<open>Properties\<close>

text \<open>
  C16. The read model never counts an event twice: after any deliveries of the analytics topic in any
  order, with redeliveries, retries, database faults of every kind, processes that die in the middle
  of a message and a broker that does what it likes, the row of every day counts each of a set of
  delivered events exactly once, by kind, and no other event.
\<close>

theorem read_model_counts_once:
  assumes "projected A C ms w"
    and "C = NewAnalyticsConsumer K AnalyticsTopic (pg_projection A) (MarkProcessed A) S X R"
    and "whole_days (ae_ext A)" "retry_ok R" "one_event_per_id (facts_of C ms)"
  shows "\<exists>gs. set gs \<subseteq> set (facts_of C ms)
    \<and> (\<forall>d. map_option row_of (select ru_day d (a_rollup (committed (fst w)))) = tally d gs)"
proof -
  obtain gs where gs: "adb_growth (committed (fst w)) = fold grow gs no_growth" "set gs \<subseteq> set (facts_of C ms)"
    using projected_growth [OF assms(1-4)] by blast
  have "one_event_per_id gs"
    using assms(5) gs(2) by (auto simp: one_event_per_id_def intro: inj_on_subset)
  from fold_grow_tally [OF this] gs show ?thesis
    by (intro exI [of _ gs]) (simp add: adb_growth_def flip: gs(1))
qed

lemma read_model_counts_once_witness:
  "\<exists>gs. set gs \<subseteq> {(''id-1'', Deactivated, 5)} \<and> map_option row_of (select ru_day 0 (a_rollup (committed (fst (snd
     (handleFetchedMessage (demo_consumer no_faults False) demo_fetched (analytics_start, ([], [])))))))) = tally 0 gs"
proof -
  let ?C = "demo_consumer no_faults False"
  obtain r w where run: "handleFetchedMessage ?C demo_fetched (analytics_start, ([], [])) = (r, w)"
    by (cases "handleFetchedMessage ?C demo_fetched (analytics_start, ([], []))")
  have "projected (demo_analytics no_faults) ?C [] (analytics_start, ([], []))"
    by (rule projected.start) (simp add: analytics_start_def)
  from projected.handled [OF this run]
  have p: "projected (demo_analytics no_faults) ?C [demo_fetched] w" by simp
  have facts: "facts_of ?C [demo_fetched] = [(''id-1'', Deactivated, 5)]"
    using facts_of_append [of ?C "[]" demo_fetched] by (simp add: demo_fact facts_of_def)
  have "one_event_per_id (facts_of ?C [demo_fetched])" by (simp add: facts one_event_per_id_def)
  from read_model_counts_once [OF p demo_consumer_def demo_whole_days retry_at_once_ok this] run facts
  show ?thesis by auto
qed





text \<open>
  An event the service encodes for the analytics topic is counted as what it is: the consumer
  reads back its id and time, and counts a creation, a revision or a deactivation, while it passes
  over a schedule change.
\<close>

theorem encoded_event_counted:
  assumes "sdk_ok S" "eventId \<noteq> ''''" "AnalyticsEncoder_Encode S ev eventId = Inr enc"
    and "ac_sdk C = S" "msg_Value (f_msg m) = enc_Value enc"
  shows "fact_of C m = (case ev of
     ProcessPathCreated e \<Rightarrow> Some (eventId, Defined, OccurredAt ev)
   | ProcessPathUpdated e \<Rightarrow> Some (eventId, Revised, OccurredAt ev)
   | ProcessPathDeactivated i t \<Rightarrow> Some (eventId, Deactivated, OccurredAt ev)
   | CPTScheduleChanged s \<Rightarrow> None)"
proof -
  have "ce_Decode (ac_text C) (ac_sdk C) (msg_Value (f_msg m)) = Inr (wire_event ev eventId StreamAnalytics)"
    using encodeFor_decodes [OF assms(1,2)] assms(3-5) by (simp add: AnalyticsEncoder_Encode_def)
  then show ?thesis
    by (cases ev) (simp_all add: fact_of_def decodeAnalyticsEvent_def wire_event_def kind_of_def type_defs)
qed

lemma encoded_event_counted_witness:
  "fact_of (demo_consumer no_faults False) demo_fetched = Some (''id-1'', Deactivated, 5)"
proof -
  obtain enc where enc: "AnalyticsEncoder_Encode (one_event_sdk demo_created)
      (ProcessPathDeactivated ''pick-pack'' 5) ''id-1'' = Inr enc" "enc_Value enc = ''doc''"
    using encodeFor_eq [OF one_event_sdk_ok, of "''id-1''" demo_created
        "ProcessPathDeactivated ''pick-pack'' 5" AnalyticsTopic StreamAnalytics]
    by (auto simp: AnalyticsEncoder_Encode_def one_event_sdk_def demo_created_def event_key_def)
  from encoded_event_counted [OF one_event_sdk_ok _ enc(1), of "demo_consumer no_faults False" demo_fetched] enc(2)
  show ?thesis by (simp add: demo_consumer_def NewAnalyticsConsumer_def demo_fetched_def)
qed

text \<open>
  C28. Handling one message makes at most fifteen calls of the analytical database (three attempts of
  the gate, three of the projection with at most four calls each), whatever fails.
\<close>

theorem handler_attempts_bounded:
  assumes "handleFetchedMessage (NewAnalyticsConsumer K topic (pg_projection A) (MarkProcessed A) S X R) m w = (r, w')"
    and "retry_ok R"
  shows "calls (fst w') \<le> calls (fst w) + 15"
  using handle_calls [OF assms refl] by (simp add: maxAnalyticsHandlerAttempts_def)

lemma handler_attempts_bounded_witness:
  "calls (fst (snd (handleFetchedMessage (demo_consumer all_refused False) demo_fetched (analytics_start, ([], []))))) \<le> 15"
proof -
  obtain r w where run: "handleFetchedMessage (demo_consumer all_refused False) demo_fetched
      (analytics_start, ([], [])) = (r, w)" by (metis surj_pair)
  from handler_attempts_bounded [OF run [unfolded demo_consumer_def] retry_at_once_ok] run
  show ?thesis by (simp add: analytics_start_def)
qed

text \<open>
  C38. A dead letter waits for its topic: against a writer that gives the answers \<open>es\<close>, each of which
  only says that the topic is not ready, and then accepts, \<open>writeDLQ\<close> succeeds with one write per
  answer if there are fewer than forty of them, and otherwise stops after forty writes with the last
  answer.
\<close>

theorem dead_letter_waits:
  assumes "list_all isTopicNotReady es"
  shows "writeDLQ (Pair None) answering msg (map Inl es @ Inr () # rest) =
    (if length es < dlqTopicReadyAttempts then (Inr (), rest)
     else (Inl (es ! 39), drop dlqTopicReadyAttempts (map Inl es @ Inr () # rest)))"
proof -
  have loop: "dlq_attempts (Pair None) answering msg n err (map Inl es @ Inr () # rest) =
      (if length es < n then (Inr (), rest)
       else (if n = 0 then err else Inl (es ! (n - 1)), drop n (map Inl es @ Inr () # rest)))"
    if "list_all isTopicNotReady es" for n err es
    using that
  proof (induction n arbitrary: err es)
    case (Suc n)
    then show ?case by (cases es) (auto simp: answering_def nth_Cons')
  qed simp
  show ?thesis using loop [OF assms, of dlqTopicReadyAttempts "Inr ()"]
    by (simp add: writeDLQ_def dlqTopicReadyAttempts_def)
qed

lemma dead_letter_waits_witness:
  "writeDLQ (Pair None) answering (f_msg demo_fetched)
     [Inl (WrapErr ''kafka write'' (WriteErrors [None, Some UnknownTopicOrPartition])), Inr ()] = (Inr (), [])"
proof -
  have "isTopicNotReady (WrapErr ''kafka write'' (WriteErrors [None, Some UnknownTopicOrPartition]))"
    by (simp add: isTopicNotReady.simps UnknownTopicOrPartition_def)
  with dead_letter_waits [of "[WrapErr ''kafka write'' (WriteErrors [None, Some UnknownTopicOrPartition])]"
      "f_msg demo_fetched" "[]"]
  show ?thesis by (simp add: dlqTopicReadyAttempts_def)
qed


text \<open>
  An event can also be lost without such a fault: when its id was marked, the projection keeps
  failing and the dead letter cannot be written, the offset is not committed and the process stops,
  but the redelivery to the next process finds the id marked and commits the offset at once, although
  the event is neither counted nor dead-lettered.
\<close>

theorem failed_dead_letter_loses_event:
  "case handleFetchedMessage (demo_consumer only_first_call_works True) demo_fetched
      (analytics_start, ([], [])) of (r1, w1) \<Rightarrow>
     r1 \<noteq> Inr () \<and> snd w1 = ([], [])
   \<and> (case handleFetchedMessage (demo_consumer no_faults False) demo_fetched w1 of (r2, w2) \<Rightarrow>
        r2 = Inr () \<and> snd w2 = ([demo_fetched], [])
      \<and> a_processed (committed (fst w2)) = [] \<and> a_rollup (committed (fst w2)) = [])"
  by code_simp

end
