(* ===== verification/Reports.thy ===== *)
theory Reports
  imports Http Analytics
begin

text \<open>
  The reader of the analytical read model over REST (\<open>http/reports_handler.go\<close>): the catalogue-growth
  report and its freshness, for any \<open>ReportStore\<close>. The request log middleware is in \<open>Telemetry\<close>.
\<close>

record catalogueRowDTO =
  gr_dayBucket :: string
  gr_pathsDefined :: int
  gr_pathsRevised :: int
  gr_pathsDeactivated :: int

definition catalogueRowDTO_json :: "catalogueRowDTO \<Rightarrow> json" where
  "catalogueRowDTO_json d = JObj (field ''dayBucket'' (JStr (gr_dayBucket d))
     @ field ''pathsDefined'' (JInt (gr_pathsDefined d)) @ field ''pathsRevised'' (JInt (gr_pathsRevised d))
     @ field ''pathsDeactivated'' (JInt (gr_pathsDeactivated d)))"

definition catalogueReportDTO_json :: "catalogueRowDTO list \<Rightarrow> json" where
  "catalogueReportDTO_json rows = JObj (field ''rows'' (JArr (map catalogueRowDTO_json rows)))"

definition freshnessDTO_json :: "http_env \<Rightarrow> duration \<Rightarrow> json" where
  "freshnessDTO_json H lag = JObj (field ''lagSeconds'' (JFrac (h_seconds H lag)))"

definition toCatalogueRow :: "http_env \<Rightarrow> Row \<Rightarrow> catalogueRowDTO" where
  "toCatalogueRow H row = \<lparr>gr_dayBucket = h_time H (DayBucket (Key row)),
     gr_pathsDefined = sint (PathsDefined row), gr_pathsRevised = sint (PathsRevised row),
     gr_pathsDeactivated = sint (PathsDeactivated row)\<rparr>"

definition writeReportBadRequest :: "http_env \<Rightarrow> http_request \<Rightarrow> string \<Rightarrow> response" where
  "writeReportBadRequest H r detail = writeProblem H 400 \<lparr>slug = ''invalid-report-query'',
     title = ''The report query is malformed or missing a required parameter''\<rparr> detail (rq_path r)"

definition writeReportInternal :: "http_env \<Rightarrow> http_request \<Rightarrow> err \<Rightarrow> response" where
  "writeReportInternal H r e = writeProblem H 500 \<lparr>slug = ''report-store-error'',
     title = ''The report could not be served''\<rparr> (h_text H e) (rq_path r)"

definition parseRequiredTime :: "http_env \<Rightarrow> http_request \<Rightarrow> string \<Rightarrow> string \<Rightarrow> response + time" where
  "parseRequiredTime H r val name =
     (if val = '''' then
        Inl (writeReportBadRequest H r (''query parameter '' @ [CHR 0x27] @ name @ [CHR 0x27] @ '' is required (RFC3339)''))
      else case h_parse_time H val of
        None \<Rightarrow> Inl (writeReportBadRequest H r
          (''query parameter '' @ [CHR 0x27] @ name @ [CHR 0x27] @ '' must be an RFC3339 timestamp''))
      | Some t \<Rightarrow> Inr t)"

text \<open>The granularity is checked after both instants.\<close>

definition GetCatalogueGrowth :: "http_env \<Rightarrow> 'w ReportStore \<Rightarrow> 'w handler" where
  "GetCatalogueGrowth H S c r w =
     (let q = ParseQuery (rq_query r) in
      case parseRequiredTime H r (Values_Get ''from'' q) ''from'' of
        Inl resp \<Rightarrow> (resp, w)
      | Inr from_t \<Rightarrow>
          (case parseRequiredTime H r (Values_Get ''to'' q) ''to'' of
             Inl resp \<Rightarrow> (resp, w)
           | Inr to_t \<Rightarrow>
               (let g = Values_Get ''granularity'' q in
                if g \<noteq> '''' \<and> g \<noteq> GranularityDay then
                  (writeReportBadRequest H r (''granularity must be '' @ [CHR 0x27] @ ''day'' @ [CHR 0x27]), w)
                else case rep_Query S \<lparr>q_From = from_t, q_To = to_t,
                            q_Granularity = (if g \<noteq> '''' then g else GranularityDay)\<rparr> w of
                  (Inl e, w') \<Rightarrow> (writeReportInternal H r e, w')
                | (Inr rows, w') \<Rightarrow>
                    (writeJSON H 200 (catalogueReportDTO_json (map (toCatalogueRow H) rows)), w'))))"

definition GetCatalogueGrowthFreshness :: "http_env \<Rightarrow> 'w ReportStore \<Rightarrow> 'w handler" where
  "GetCatalogueGrowthFreshness H S c r w =
     (case rep_FreshnessLag S w of
        (Inl e, w') \<Rightarrow> (writeReportInternal H r e, w')
      | (Inr lag, w') \<Rightarrow> (writeJSON H 200 (freshnessDTO_json H lag), w'))"

definition GetReportsHealthz :: "http_env \<Rightarrow> 'w handler" where
  "GetReportsHealthz H c r w = (writeJSON H 200 (status_json ''ok''), w)"

text \<open>The routes by path and method; anything else is chi's own plain answer.\<close>

definition NewReportsRouter :: "http_env \<Rightarrow> 'w ReportStore \<Rightarrow> response \<Rightarrow> response \<Rightarrow> 'w handler" where
  "NewReportsRouter H S not_found not_allowed c r w =
     (if rq_path r \<notin> {''/healthz'', ''/reports/catalogue-growth'', ''/reports/catalogue-growth/freshness''}
      then (not_found, w)
      else if rq_method r \<noteq> ''GET'' then (not_allowed, w)
      else if rq_path r = ''/healthz'' then GetReportsHealthz H c r w
      else if rq_path r = ''/reports/catalogue-growth'' then GetCatalogueGrowth H S c r w
      else GetCatalogueGrowthFreshness H S c r w)"

end
