(* ===== verification/Mcp.thy ===== *)
theory Mcp
  imports Reports
begin

text \<open>
  The Model Context Protocol adapter (\<open>internal/adapters/inbound/mcp\<close>): the read-only tools over the
  use cases, and the report tool with its REST client. The MCP SDK decodes the input of a tool and
  encodes its result; it is not under \<open>src/\<close>, so a tool is a function from its input to its result.
  \<open>addTool\<close> has the span around a call.
\<close>

section \<open>Results (mapping.go)\<close>

record eligibilityDTO =
  ld_maxUnitsPerLine :: "int option"
  ld_requiredProductAttributes :: "string list"
  ld_excludedProductAttributes :: "string list"
  ld_nonSortable :: bool

record processPathDTO =
  td_pathId :: string
  td_matchPrefix :: string
  td_direct :: bool
  td_requiredCapabilities :: "string list"
  td_status :: string
  td_active :: bool
  td_createdAt :: string
  td_updatedAt :: string
  td_cycleTimeP95 :: string
  td_eligibility :: eligibilityDTO

record cutoffDTO =
  cd_cptId :: string
  cd_localTime :: string
  cd_daysOfWeek :: "string list"
  cd_shipMethod :: string
  cd_eligiblePathIds :: "string list"

record cptScheduleDTO =
  xd_siteId :: string
  xd_timezone :: string
  xd_cutoffs :: "cutoffDTO list"
  xd_createdAt :: string
  xd_updatedAt :: string

definition toProcessPathDTO :: "http_env \<Rightarrow> ProcessPath \<Rightarrow> processPathDTO" where
  "toProcessPathDTO H p = \<lparr>td_pathId = pp_id p, td_matchPrefix = matchPrefix p, td_direct = direct p,
     td_requiredCapabilities = requiredCapabilities p, td_status = status p, td_active = IsActive p,
     td_createdAt = h_time H (createdAt p), td_updatedAt = h_time H (updatedAt p),
     td_cycleTimeP95 = Duration_String (cycleTimeP95 p),
     td_eligibility = \<lparr>ld_maxUnitsPerLine = maxUnitsPerLine (eligibility p),
       ld_requiredProductAttributes = requiredProductAttributes (eligibility p),
       ld_excludedProductAttributes = excludedProductAttributes (eligibility p),
       ld_nonSortable = nonSortable (eligibility p)\<rparr>\<rparr>"

definition toCPTScheduleDTO :: "http_env \<Rightarrow> CPTSchedule \<Rightarrow> cptScheduleDTO" where
  "toCPTScheduleDTO H s = \<lparr>xd_siteId = cs_siteId s, xd_timezone = cs_timezone s,
     xd_cutoffs = map (\<lambda>c. \<lparr>cd_cptId = cptId c, cd_localTime = localTime c, cd_daysOfWeek = daysOfWeek c,
       cd_shipMethod = shipMethod c, cd_eligiblePathIds = eligiblePathIds c\<rparr>) (cs_cutoffs s),
     xd_createdAt = h_time H (cs_createdAt s), xd_updatedAt = h_time H (cs_updatedAt s)\<rparr>"

section \<open>The reports client (report_tool.go)\<close>

type_synonym CatalogueGrowthReportView = "catalogueRowDTO list"

record CatalogueGrowthQuery =
  cq_From :: string
  cq_To :: string
  cq_Granularity :: string

text \<open>A \<open>float64\<close> is kept as the JSON number it was read from.\<close>

record FreshnessView =
  fv_LagSeconds :: json

record 'w ReportsClient =
  rc_GetCatalogueGrowth :: "CatalogueGrowthQuery \<Rightarrow> ('w, CatalogueGrowthReportView) io"
  rc_GetFreshness :: "('w, FreshnessView) io"

text \<open>
  What \<open>http.Client\<close> does for a URL: an error, or a status and a body. \<open>http.NewRequest\<close> refuses a
  URL it cannot parse, which is the first parameter.
\<close>

record 'w http_client =
  hc_bad_url :: "string \<Rightarrow> err option"
  hc_Do :: "string \<Rightarrow> ('w, int \<times> string) io"

definition getJSON :: "http_env \<Rightarrow> 'w http_client \<Rightarrow> string \<Rightarrow> string \<Rightarrow> (json \<Rightarrow> err + 'a) \<Rightarrow> ('w, 'a) io" where
  "getJSON H client baseURL path decode = (\<lambda>w.
     case hc_bad_url client (baseURL @ path) of
       Some e \<Rightarrow> (Inl (WrapErr ''reports client: build request'' e), w)
     | None \<Rightarrow>
         (case hc_Do client (baseURL @ path) w of
            (Inl e, w') \<Rightarrow> (Inl (WrapErr ''reports client: request'' e), w')
          | (Inr (code, body), w') \<Rightarrow>
              if code < 200 \<or> code \<ge> 300 then
                (Inl (PlainErr (''reports client: unexpected status '' @ dec (nat code))), w')
              else (case (case h_parse H None body of Inl e \<Rightarrow> Inl e | Inr j \<Rightarrow> decode j) of
                      Inl e \<Rightarrow> (Inl (WrapErr ''reports client: decode'' e), w')
                    | Inr a \<Rightarrow> (Inr a, w'))))"

definition zero_row :: catalogueRowDTO where
  "zero_row = \<lparr>gr_dayBucket = '''', gr_pathsDefined = 0, gr_pathsRevised = 0, gr_pathsDeactivated = 0\<rparr>"

definition into_int :: "http_env \<Rightarrow> string \<Rightarrow> ((int \<Rightarrow> int) \<Rightarrow> 'a \<Rightarrow> 'a) \<Rightarrow> string \<times> 'a setter" where
  "into_int H name upd = (name, \<lambda>v a. case v of
     JInt n \<Rightarrow> if - (2 ^ 63) \<le> n \<and> n < 2 ^ 63 then Inr (upd (\<lambda>_. n) a) else Inl (h_type_error H name v)
   | JNull \<Rightarrow> Inr a | _ \<Rightarrow> Inl (h_type_error H name v))"

definition row_fields :: "http_env \<Rightarrow> (string \<times> catalogueRowDTO setter) list" where
  "row_fields H = [into_string H ''dayBucket'' gr_dayBucket_update,
     into_int H ''pathsDefined'' gr_pathsDefined_update, into_int H ''pathsRevised'' gr_pathsRevised_update,
     into_int H ''pathsDeactivated'' gr_pathsDeactivated_update]"

definition decode_report :: "http_env \<Rightarrow> json \<Rightarrow> err + CatalogueGrowthReportView" where
  "decode_report H j = into_struct H '''' [into_slice H ''rows''
     (\<lambda>v. into_struct H ''rows'' (row_fields H) v zero_row) (\<lambda>f rows. f rows)] j []"

definition into_float :: "http_env \<Rightarrow> string \<Rightarrow> ((json \<Rightarrow> json) \<Rightarrow> 'a \<Rightarrow> 'a) \<Rightarrow> string \<times> 'a setter" where
  "into_float H name upd = (name, \<lambda>v a. case v of
     JInt n \<Rightarrow> Inr (upd (\<lambda>_. JInt n) a) | JFrac t \<Rightarrow> Inr (upd (\<lambda>_. JFrac t) a)
   | JNull \<Rightarrow> Inr a | _ \<Rightarrow> Inl (h_type_error H name v))"

definition decode_freshness :: "http_env \<Rightarrow> json \<Rightarrow> err + FreshnessView" where
  "decode_freshness H j =
     into_struct H '''' [into_float H ''lagSeconds'' fv_LagSeconds_update] j \<lparr>fv_LagSeconds = JInt 0\<rparr>"

definition GetCatalogueGrowth_values :: "CatalogueGrowthQuery \<Rightarrow> (string \<times> string) list" where
  "GetCatalogueGrowth_values q = [(''from'', cq_From q), (''to'', cq_To q)]
     @ (if cq_Granularity q \<noteq> '''' then [(''granularity'', cq_Granularity q)] else [])"

definition NewReportsRESTClient :: "http_env \<Rightarrow> string \<Rightarrow> 'w http_client \<Rightarrow> 'w ReportsClient" where
  "NewReportsRESTClient H baseURL client = \<lparr>
     rc_GetCatalogueGrowth = (\<lambda>q. getJSON H client baseURL
       (''/reports/catalogue-growth?'' @ Values_Encode (GetCatalogueGrowth_values q)) (decode_report H)),
     rc_GetFreshness = getJSON H client baseURL ''/reports/catalogue-growth/freshness'' (decode_freshness H)\<rparr>"

section \<open>Tools (tools.go)\<close>

record 'w McpDeps =
  md_GetPath :: "PathId \<Rightarrow> ('w, ProcessPath) io"
  md_ListPaths :: "bool \<Rightarrow> ('w, ProcessPath list) io"
  md_GetCPTSchedule :: "(SiteId \<Rightarrow> ('w, CPTSchedule) io) option"
  md_Reports :: "'w ReportsClient option"

definition getProcessPath :: "http_env \<Rightarrow> 'w McpDeps \<Rightarrow> string \<Rightarrow> ('w, processPathDTO) io" where
  "getProcessPath H D pathId =
     (if pathId = '''' then io_fail (PlainErr ''pathId is required'')
      else io_bind (md_GetPath D pathId) (\<lambda>p. io_return (toProcessPathDTO H p)))"

definition listProcessPaths :: "http_env \<Rightarrow> 'w McpDeps \<Rightarrow> bool option \<Rightarrow> ('w, processPathDTO list) io" where
  "listProcessPaths H D activeOnly =
     io_bind (md_ListPaths D (case activeOnly of None \<Rightarrow> True | Some b \<Rightarrow> b))
       (\<lambda>ps. io_return (map (toProcessPathDTO H) ps))"

definition getCPTSchedule :: "http_env \<Rightarrow> (SiteId \<Rightarrow> ('w, CPTSchedule) io) \<Rightarrow> string \<Rightarrow> ('w, cptScheduleDTO) io" where
  "getCPTSchedule H get siteId =
     (if siteId = '''' then io_fail (PlainErr ''siteId is required'')
      else io_bind (get siteId) (\<lambda>s. io_return (toCPTScheduleDTO H s)))"

definition getCatalogueGrowthReport ::
    "'w ReportsClient option \<Rightarrow> CatalogueGrowthQuery \<Rightarrow> ('w, CatalogueGrowthReportView) io" where
  "getCatalogueGrowthReport client q =
     (case client of
        None \<Rightarrow> io_fail (PlainErr ''reports client not configured'')
      | Some cl \<Rightarrow> if cq_From q = '''' \<or> cq_To q = '''' then io_fail (PlainErr ''from and to are required (RFC3339)'')
                   else rc_GetCatalogueGrowth cl q)"

text \<open>The input and result of every tool, and which tools a server has.\<close>

datatype tool_call =
    GetProcessPath string | ListProcessPaths "bool option" | GetCptSchedule string
  | GetCatalogueGrowthReport CatalogueGrowthQuery

datatype tool_result =
    PathResult processPathDTO | PathsResult "processPathDTO list" | ScheduleResult cptScheduleDTO
  | ReportResult CatalogueGrowthReportView

definition registerReportTool :: "'w McpDeps \<Rightarrow> string list" where
  "registerReportTool D = (if md_Reports D = None then [] else [''get_catalogue_growth_report''])"

definition registerTools :: "'w McpDeps \<Rightarrow> string list" where
  "registerTools D = [''get_process_path'', ''list_process_paths'']
     @ (if md_GetCPTSchedule D \<noteq> None then [''get_cpt_schedule''] else []) @ registerReportTool D"

text \<open>What a server introduces itself as, and its tools.\<close>

record mcp_server =
  ms_Name :: string
  ms_Version :: string
  ms_tools :: "string list"

definition NewServer :: "'w McpDeps \<Rightarrow> mcp_server" where
  "NewServer D = \<lparr>ms_Name = ''process-path-management-mcp'', ms_Version = ''1.0.0'', ms_tools = registerTools D\<rparr>"

text \<open>Every tool runs in a span, which is ended on every way out and has the tool's error.\<close>

record ('w, 'sp) tracer =
  tr_Start :: "string \<Rightarrow> (string \<times> string) list \<Rightarrow> 'w \<Rightarrow> 'sp \<times> 'w"
  tr_SetStatus :: "'sp \<Rightarrow> err \<Rightarrow> 'w \<Rightarrow> 'w"
  tr_End :: "'sp \<Rightarrow> 'w \<Rightarrow> 'w"

definition addTool :: "('w, 'sp) tracer \<Rightarrow> string \<Rightarrow> ('i \<Rightarrow> ('w, 'o) io) \<Rightarrow> 'i \<Rightarrow> ('w, 'o) io" where
  "addTool tr name handle inp = (\<lambda>w.
     case tr_Start tr (''mcp.tool '' @ name) [(''mcp.tool.name'', name)] w of (span, w1) \<Rightarrow>
       (case handle inp w1 of
          (Inl e, w2) \<Rightarrow> (Inl e, tr_End tr span (tr_SetStatus tr span e w2))
        | (Inr out, w2) \<Rightarrow> (Inr out, tr_End tr span w2)))"

text \<open>\<open>None\<close>: the server has no such tool.\<close>

definition call_tool :: "http_env \<Rightarrow> 'w McpDeps \<Rightarrow> tool_call \<Rightarrow> ('w, tool_result) io option" where
  "call_tool H D t =
     (case t of
        GetProcessPath i \<Rightarrow> Some (io_bind (getProcessPath H D i) (io_return \<circ> PathResult))
      | ListProcessPaths b \<Rightarrow> Some (io_bind (listProcessPaths H D b) (io_return \<circ> PathsResult))
      | GetCptSchedule i \<Rightarrow> map_option (\<lambda>get. io_bind (getCPTSchedule H get i) (io_return \<circ> ScheduleResult))
          (md_GetCPTSchedule D)
      | GetCatalogueGrowthReport q \<Rightarrow> (if md_Reports D = None then None
          else Some (io_bind (getCatalogueGrowthReport (md_Reports D) q) (io_return \<circ> ReportResult))))"

text \<open>\<open>cmd/mcp\<close> gives the tools the same use cases the REST adapter has, outside any transaction.\<close>

definition mcp_deps :: "'w Deps \<Rightarrow> 'w ReportsClient option \<Rightarrow> 'w McpDeps" where
  "mcp_deps U reports = \<lparr>md_GetPath = GetPath_Execute U Background, md_ListPaths = ListPaths_Execute U Background,
     md_GetCPTSchedule = Some (GetCPTSchedule_Execute U Background), md_Reports = reports\<rparr>"

end
