(* ===== verification/McpClaims.thy ===== *)
theory McpClaims
  imports Mcp AnalyticsClaims HttpClaims RelayClaims
begin

text \<open>
  The properties of the report reader and of the MCP tools: the tools only read, they answer what the
  REST adapter answers, and the report tool returns the rows of the store behind the REST service.
\<close>

section \<open>Reading back a report\<close>

definition distinct_folds :: "http_env \<Rightarrow> bool" where
  "distinct_folds H \<longleftrightarrow>
     distinct (map (h_fold H) [''dayBucket'', ''pathsDefined'', ''pathsRevised'', ''pathsDeactivated''])"

lemma decode_row:
  assumes "distinct_folds H"
  shows "into_struct H ''rows'' (row_fields H) (catalogueRowDTO_json (toCatalogueRow H r)) zero_row
    = Inr (toCatalogueRow H r)"
proof -
  have bounds: "- (2 ^ 63) \<le> sint (x :: 64 word) \<and> sint x < 2 ^ 63" for x
    using sint_bounds64 by blast
  show ?thesis
    using assms bounds [of "PathsDefined r"] bounds [of "PathsRevised r"] bounds [of "PathsDeactivated r"]
    by (simp add: distinct_folds_def into_struct_def catalogueRowDTO_json_def toCatalogueRow_def row_fields_def
        into_string_def into_int_def field_def zero_row_def)
qed

lemma decode_report_json:
  assumes "distinct_folds H"
  shows "decode_report H (catalogueReportDTO_json (map (toCatalogueRow H) rows)) = Inr (map (toCatalogueRow H) rows)"
proof -
  have "elements (\<lambda>v. into_struct H ''rows'' (row_fields H) v zero_row)
      (map catalogueRowDTO_json (map (toCatalogueRow H) rows)) = Inr (map (toCatalogueRow H) rows)"
    by (induction rows) (simp_all add: decode_row [OF assms])
  then show ?thesis
    by (simp add: decode_report_def into_struct_def catalogueReportDTO_json_def into_slice_def field_def)
qed

text \<open>A transport that hands a request of the client to a router unchanged.\<close>

definition local_client :: "string \<Rightarrow> 'w handler \<Rightarrow> 'w http_client" where
  "local_client base router = \<lparr>hc_bad_url = (\<lambda>u. None),
     hc_Do = (\<lambda>u w. case strings_Cut (CHR ''?'') (drop (length base) u) of (p, q) \<Rightarrow>
       (case router Background \<lparr>rq_path = p, rq_method = ''GET'', rq_param = '''', rq_query = q, rq_headers = [],
               rq_body = '''', rq_read_error = None\<rparr> w of
          (resp, w') \<Rightarrow> (Inr (rs_status resp, rs_body resp), w')))\<rparr>"

lemma cut_report_url:
  "strings_Cut (CHR ''?'') (''/reports/catalogue-growth?'' @ q) = (''/reports/catalogue-growth'', q)"
  using Cut_append [of "CHR ''?''" "''/reports/catalogue-growth''" q] by simp

lemma report_values:
  "ParseQuery (Values_Encode (GetCatalogueGrowth_values q)) =
     (if cq_Granularity q = '''' then [(''from'', cq_From q), (''to'', cq_To q)]
      else [(''from'', cq_From q), (''granularity'', cq_Granularity q), (''to'', cq_To q)])"
  by (simp add: ParseQuery_Encode GetCatalogueGrowth_values_def)

section \<open>A concrete reports service\<close>

definition one_row :: Row where
  "one_row = \<lparr>Key = \<lparr>DayBucket = 0\<rparr>, PathsDefined = 2, PathsRevised = 0, PathsDeactivated = 1\<rparr>"

definition one_row_store :: MemoryStore where
  "one_row_store = \<lparr>ms_seen = {''a'', ''b'', ''c''}, ms_rows = [(\<lparr>DayBucket = 0\<rparr>, one_row)], ms_latest = 7\<rparr>"

definition one_row_http :: http_env where
  "one_row_http = demo_http\<lparr>
     h_parse := (\<lambda>e b. Inr (catalogueReportDTO_json [toCatalogueRow demo_http one_row])),
     h_parse_time := (\<lambda>s. Some (if s = ''a'' then 0 else 86400000000000))\<rparr>"

definition plain :: "int \<Rightarrow> response" where
  "plain code = \<lparr>rs_status = code, rs_headers = [], rs_body = ''''\<rparr>"

definition get_ghost :: http_request where
  "get_ghost = (demo_post '''' '''')\<lparr>rq_method := ''GET'', rq_param := ''ghost''\<rparr>"

section \<open>Reading\<close>

definition reads_only :: "('db pg, 'a) io \<Rightarrow> bool" where
  "reads_only m \<longleftrightarrow> (\<forall>w. committed (snd (m w)) = committed w)"

lemma reads_only_exec: "reads_only (sql_exec F c (\<lambda>db. Inr (f db, db)))"
  by (auto simp: reads_only_def sql_exec_def split: ctx.splits option.splits fault.splits bool.splits)

lemma reads_only_bind: "reads_only m \<Longrightarrow> (\<And>a. reads_only (f a)) \<Longrightarrow> reads_only (io_bind m f)"
  by (auto simp: reads_only_def io_bind_def case_prod_beta split: sum.split)

lemma reads_only_pure: "reads_only (io_return a)" "reads_only (io_fail e)"
  by (simp_all add: reads_only_def)

lemmas reads_only_intros = reads_only_exec reads_only_bind reads_only_pure

lemma reads_only_queries:
  "reads_only (GetPath_Execute (pg_deps V) c i)" "reads_only (ListPaths_Execute (pg_deps V) c b)"
  "reads_only (GetCPTSchedule_Execute (pg_deps V) c site)"
proof -
  have find: "reads_only (pg_FindByID V c i)" "reads_only (pg_ListActive V c)" "reads_only (pg_ListAll V c)"
    by (simp_all add: pg_FindByID_def pg_ListActive_def pg_ListAll_def pg_list_def reads_only_exec)
  have site: "reads_only (pg_FindBySiteID V c site)"
    unfolding pg_FindBySiteID_def
    by (intro reads_only_bind reads_only_exec) (auto intro!: reads_only_intros split: option.splits sum.splits)
  show "reads_only (GetPath_Execute (pg_deps V) c i)" "reads_only (ListPaths_Execute (pg_deps V) c b)"
    "reads_only (GetCPTSchedule_Execute (pg_deps V) c site)"
    using find site
    by (simp_all add: reads_only_def GetPath_Execute_def ListPaths_Execute_def GetCPTSchedule_Execute_def
        pg_deps_def pg_schedule_repo_def pg_repo_def case_prod_beta split: sum.split option.split)
qed

section \<open>The two adapters' views of an aggregate\<close>

definition same_path :: "processPathDTO \<Rightarrow> processPathResponse \<Rightarrow> bool" where
  "same_path d r \<longleftrightarrow> td_pathId d = pp_pathId r \<and> td_matchPrefix d = pp_matchPrefix r \<and> td_direct d = pp_direct r
   \<and> td_requiredCapabilities d = pp_requiredCapabilities r \<and> td_status d = pp_status r
   \<and> (td_active d \<longleftrightarrow> pp_status r = StatusActive) \<and> td_createdAt d = pp_createdAt r
   \<and> td_updatedAt d = pp_updatedAt r \<and> td_cycleTimeP95 d = pp_cycleTimeP95 r
   \<and> ld_maxUnitsPerLine (td_eligibility d) = es_maxUnitsPerLine (pp_eligibility r)
   \<and> ld_requiredProductAttributes (td_eligibility d) = es_requiredProductAttributes (pp_eligibility r)
   \<and> ld_excludedProductAttributes (td_eligibility d) = es_excludedProductAttributes (pp_eligibility r)
   \<and> ld_nonSortable (td_eligibility d) = es_nonSortable (pp_eligibility r)"

definition same_schedule :: "cptScheduleDTO \<Rightarrow> cptScheduleResponse \<Rightarrow> bool" where
  "same_schedule d r \<longleftrightarrow> xd_siteId d = sp_siteId r \<and> xd_timezone d = sp_timezone r
   \<and> list_all2 (\<lambda>c k. cd_cptId c = kp_cptId k \<and> cd_localTime c = kp_localTime k \<and> cd_daysOfWeek c = kp_daysOfWeek k
       \<and> cd_shipMethod c = kp_shipMethod k \<and> cd_eligiblePathIds c = kp_eligiblePathIds k) (xd_cutoffs d) (sp_cutoffs r)
   \<and> xd_createdAt d = sp_createdAt r \<and> xd_updatedAt d = sp_updatedAt r"

lemma same_path_views: "same_path (toProcessPathDTO H p) (toProcessPathResponse H p)"
  by (simp add: same_path_def toProcessPathDTO_def toProcessPathResponse_def toEligibilityResponse_def IsActive_def)

lemma same_schedule_views: "same_schedule (toCPTScheduleDTO H s) (toCPTScheduleResponse H s)"
  by (simp add: same_schedule_def toCPTScheduleDTO_def toCPTScheduleResponse_def list_all2_map1 list_all2_map2 list.rel_refl)

section \<open>Properties\<close>

text \<open>
  C29. The report tool end to end: through the REST client, the query string and the reports router,
  a tool call whose window parses and whose granularity is \<open>day\<close> or left out returns exactly the rows
  the store answers for that window, in its order; a store error, a malformed instant or another
  granularity is a tool error and changes nothing else.
\<close>

theorem mcp_report_end_to_end:
  assumes "distinct_folds H" "cq_From q \<noteq> ''''" "cq_To q \<noteq> ''''"
    and "\<And>a b rows w'. h_parse_time H (cq_From q) = Some a \<Longrightarrow> h_parse_time H (cq_To q) = Some b \<Longrightarrow>
      rep_Query S \<lparr>q_From = a, q_To = b, q_Granularity = GranularityDay\<rparr> w = (Inr rows, w') \<Longrightarrow>
      h_parse H None (h_render H (catalogueReportDTO_json (map (toCatalogueRow H) rows)))
        = Inr (catalogueReportDTO_json (map (toCatalogueRow H) rows))"
  shows "getCatalogueGrowthReport
      (Some (NewReportsRESTClient H base (local_client base (NewReportsRouter H S nf na)))) q w =
    (case (h_parse_time H (cq_From q), h_parse_time H (cq_To q)) of
       (Some a, Some b) \<Rightarrow>
         if cq_Granularity q \<noteq> '''' \<and> cq_Granularity q \<noteq> GranularityDay
         then (Inl (PlainErr ''reports client: unexpected status 400''), w)
         else (case rep_Query S \<lparr>q_From = a, q_To = b, q_Granularity = GranularityDay\<rparr> w of
             (Inl e, w') \<Rightarrow> (Inl (PlainErr ''reports client: unexpected status 500''), w')
           | (Inr rows, w') \<Rightarrow> (Inr (map (toCatalogueRow H) rows), w'))
     | _ \<Rightarrow> (Inl (PlainErr ''reports client: unexpected status 400''), w))"
proof -
  have status: "dec 400 = ''400''" "dec 500 = ''500''" by (simp_all add: dec.simps)
  have window: "Values_Get ''from'' (ParseQuery (Values_Encode (GetCatalogueGrowth_values q))) = cq_From q"
    "Values_Get ''to'' (ParseQuery (Values_Encode (GetCatalogueGrowth_values q))) = cq_To q"
    "Values_Get ''granularity'' (ParseQuery (Values_Encode (GetCatalogueGrowth_values q))) = cq_Granularity q"
    by (simp_all add: report_values Values_Get_def Values_all_def)
  have "hc_Do (local_client base (NewReportsRouter H S nf na))
      (base @ ''/reports/catalogue-growth?'' @ Values_Encode (GetCatalogueGrowth_values q)) v =
    (case GetCatalogueGrowth H S Background \<lparr>rq_path = ''/reports/catalogue-growth'', rq_method = ''GET'',
        rq_param = '''', rq_query = Values_Encode (GetCatalogueGrowth_values q), rq_headers = [], rq_body = '''',
        rq_read_error = None\<rparr> v of (resp, w') \<Rightarrow> (Inr (rs_status resp, rs_body resp), w'))" for v
    using cut_report_url by (simp add: local_client_def NewReportsRouter_def)
  then show ?thesis
    using assms
    by (auto simp: getCatalogueGrowthReport_def NewReportsRESTClient_def getJSON_def local_client_def
        GetCatalogueGrowth_def window parseRequiredTime_def writeReportBadRequest_def writeReportInternal_def
        writeProblem_def writeJSON_def status decode_report_json GranularityDay_def
        split: option.splits sum.splits prod.splits)
qed

lemma mcp_report_end_to_end_witness:
  "fst (getCatalogueGrowthReport (Some (NewReportsRESTClient one_row_http ''http://reports''
        (local_client ''http://reports'' (NewReportsRouter one_row_http (mem_report id 0) (plain 404) (plain 405)))))
      \<lparr>cq_From = ''a'', cq_To = ''b'', cq_Granularity = ''day''\<rparr> one_row_store)
   = Inr [toCatalogueRow demo_http one_row]"
proof -
  let ?q = "\<lparr>cq_From = ''a'', cq_To = ''b'', cq_Granularity = ''day''\<rparr>"
  have rows: "rep_Query (mem_report id 0) \<lparr>q_From = 0, q_To = 86400000000000, q_Granularity = GranularityDay\<rparr>
      one_row_store = (Inr [one_row], one_row_store)"
    by (simp add: mem_report_def mem_Query_def one_row_store_def one_row_def)
  have row: "toCatalogueRow one_row_http one_row = toCatalogueRow demo_http one_row"
    by (simp add: toCatalogueRow_def one_row_http_def)
  have folds: "distinct_folds one_row_http" by (simp add: distinct_folds_def one_row_http_def demo_http_def)
  have times: "h_parse_time one_row_http ''a'' = Some 0" "h_parse_time one_row_http ''b'' = Some 86400000000000"
    by (simp_all add: one_row_http_def)
  have fields: "cq_From ?q \<noteq> ''''" "cq_To ?q \<noteq> ''''" by simp_all
  have body: "h_parse one_row_http None (h_render one_row_http (catalogueReportDTO_json
      (map (toCatalogueRow one_row_http) [one_row]))) = Inr (catalogueReportDTO_json
      (map (toCatalogueRow one_row_http) [one_row]))"
    by (simp add: row) (simp add: one_row_http_def)
  have decodes: "h_parse one_row_http None (h_render one_row_http (catalogueReportDTO_json
        (map (toCatalogueRow one_row_http) rs))) = Inr (catalogueReportDTO_json (map (toCatalogueRow one_row_http) rs))"
    if "h_parse_time one_row_http (cq_From ?q) = Some a" "h_parse_time one_row_http (cq_To ?q) = Some b"
      "rep_Query (mem_report id 0) \<lparr>q_From = a, q_To = b, q_Granularity = GranularityDay\<rparr> one_row_store = (Inr rs, w')"
    for a b rs w'
    using that rows body by (simp add: times)
  note tool = mcp_report_end_to_end [OF folds fields, where S = "mem_report id 0" and w = one_row_store, OF decodes]
  show ?thesis
    by (subst tool) (use rows row in \<open>simp_all add: times GranularityDay_def\<close>)
qed



text \<open>
  No tool writes: whatever tool is called, over Postgres and with database faults of every kind,
  the committed state of the catalogue, the outbox and the idempotency keys is what it was, provided
  the reports service does not write to that database.
\<close>

theorem mcp_never_writes:
  assumes "call_tool H (mcp_deps (pg_deps V) reports) t = Some tool"
    and "\<And>cl q w. reports = Some cl \<Longrightarrow> committed (snd (rc_GetCatalogueGrowth cl q w)) = committed w"
  shows "committed (snd (tool w)) = committed w"
proof -
  have tools: "reads_only (getProcessPath H (mcp_deps (pg_deps V) reports) i)"
    "reads_only (listProcessPaths H (mcp_deps (pg_deps V) reports) b)"
    "reads_only (getCPTSchedule H (GetCPTSchedule_Execute (pg_deps V) Background) i)" for i b
    by (auto simp: getProcessPath_def listProcessPaths_def getCPTSchedule_def mcp_deps_def
        intro!: reads_only_bind reads_only_queries reads_only_pure)
  have report: "reads_only (getCatalogueGrowthReport reports q)" for q
    using assms(2) by (auto simp: getCatalogueGrowthReport_def reads_only_def split: option.splits)
  have "reads_only tool"
    using assms(1) tools report
    by (cases t) (auto simp: call_tool_def mcp_deps_def reads_only_pure intro!: reads_only_bind split: if_splits)
  then show ?thesis by (simp add: reads_only_def)
qed

lemma mcp_never_writes_witness:
  "\<exists>tool. call_tool demo_http (mcp_deps (pg_deps (demo_env all_refused)) None) (ListProcessPaths None) = Some tool
     \<and> committed (snd (tool two_rows)) = committed two_rows"
proof -
  obtain tool where tool: "call_tool demo_http (mcp_deps (pg_deps (demo_env all_refused)) None)
      (ListProcessPaths None) = Some tool" by (simp add: call_tool_def)
  from mcp_never_writes [OF this, of two_rows] tool show ?thesis by auto
qed

section \<open>The tools of a server\<close>

fun tool_name :: "tool_call \<Rightarrow> string" where
  "tool_name (GetProcessPath i) = ''get_process_path''"
| "tool_name (ListProcessPaths b) = ''list_process_paths''"
| "tool_name (GetCptSchedule i) = ''get_cpt_schedule''"
| "tool_name (GetCatalogueGrowthReport q) = ''get_catalogue_growth_report''"

text \<open>A server answers exactly the calls of the tools it has registered, each under a name of its own.\<close>

lemma registered_tools_answer:
  "call_tool H D t \<noteq> None \<longleftrightarrow> tool_name t \<in> set (ms_tools (NewServer D))" "distinct (ms_tools (NewServer D))"
  by (cases t) (auto simp: call_tool_def NewServer_def registerTools_def registerReportTool_def)

end
