(* ===== verification/Boot.thy ===== *)
theory Boot
  imports Http Relay
begin

text \<open>
  The composition roots (\<open>cmd/pathmgmt\<close>, \<open>cmd/mcp\<close>, \<open>cmd/pathmgmt-projector\<close>, \<open>cmd/pathmgmt-reports\<close>) up
  to the point where they serve: configuration from the environment, the retried dials, migrations,
  connection pools, and which adapters are wired to what. Logging and telemetry are in \<open>Telemetry\<close>.
\<close>

section \<open>Retries at start-up (bootretry/retry.go)\<close>

text \<open>
  The \<open>select\<close> between the context and the timer: the error of a context that is done, or nothing
  after waiting for the duration.
\<close>

type_synonym 'w pause = "duration \<Rightarrow> 'w \<Rightarrow> err option \<times> 'w"

definition DefaultRetries :: nat where
  "DefaultRetries = 5"

definition DefaultDelay :: duration where
  "DefaultDelay = 1000000000"

text \<open>The loop, from the attempts that are left after the one being made.\<close>

fun retry_loop :: "'w pause \<Rightarrow> string \<Rightarrow> ('w, unit) io \<Rightarrow> nat \<Rightarrow> duration \<Rightarrow> ('w, unit) io" where
  "retry_loop pause what op left delay w =
     (case op w of
        (Inr _, w1) \<Rightarrow> (Inr (), w1)
      | (Inl e, w1) \<Rightarrow>
          (case left of
             0 \<Rightarrow> (Inl (WrapErr (what @ '' (after '' @ dec DefaultRetries @ '' attempts)'') e), w1)
           | Suc n \<Rightarrow>
               (case pause delay w1 of
                  (Some c, w2) \<Rightarrow> (Inl (WrapErr what c), w2)
                | (None, w2) \<Rightarrow> retry_loop pause what op n (delay * 2) w2)))"

declare retry_loop.simps [simp del]

definition DoWithDelay :: "'w pause \<Rightarrow> string \<Rightarrow> duration \<Rightarrow> ('w, unit) io \<Rightarrow> ('w, unit) io" where
  "DoWithDelay pause what base op = retry_loop pause what op (DefaultRetries - 1) base"

definition bootretry_Do :: "'w pause \<Rightarrow> string \<Rightarrow> ('w, unit) io \<Rightarrow> ('w, unit) io" where
  "bootretry_Do pause what op = DoWithDelay pause what DefaultDelay op"

section \<open>The libraries a start needs\<close>

text \<open>
  What the roots call that is not under \<open>src/\<close>: the process environment (an unset variable is
  empty), the case mappings of \<open>strings\<close> (\<open>EqualFold\<close> compares the folds), the timers, \<open>golang-migrate\<close>
  and \<open>pgxpool\<close>. A pool configuration has what the code sets on it; \<open>cf_conn\<close> is the rest.
\<close>

record pool_config =
  cf_conn :: string
  cf_MaxConns :: int
  cf_AfterConnect :: string
  cf_RuntimeParams :: "string \<rightharpoonup> string"

record ('w, 'm, 'p) boot_env =
  b_Getenv :: "string \<Rightarrow> string"
  b_lower :: "string \<Rightarrow> string"
  b_fold :: "string \<Rightarrow> string"
  b_frac :: "nat \<Rightarrow> nat \<Rightarrow> nat \<Rightarrow> nat"
  b_pause :: "'w pause"
  b_migrate_New :: "string \<Rightarrow> string \<Rightarrow> ('w, 'm) io"
  b_migrate_Up :: "'m \<Rightarrow> ('w, unit) io"
  b_migrate_Close :: "'m \<Rightarrow> 'w \<Rightarrow> 'w"
  b_ErrNoChange :: err
  b_ParseConfig :: "string \<Rightarrow> err + pool_config"
  b_NewWithConfig :: "pool_config \<Rightarrow> ('w, 'p) io"
  b_Ping :: "'p \<Rightarrow> ('w, unit) io"
  b_Close :: "'p \<Rightarrow> 'w \<Rightarrow> 'w"

section \<open>Configuration\<close>

definition getenv :: "('w, 'm, 'p) boot_env \<Rightarrow> string \<Rightarrow> string \<Rightarrow> string" where
  "getenv B key fallback = (if b_Getenv B key \<noteq> '''' then b_Getenv B key else fallback)"

definition durationEnv :: "('w, 'm, 'p) boot_env \<Rightarrow> string \<Rightarrow> duration \<Rightarrow> duration" where
  "durationEnv B key fallback =
     (if b_Getenv B key = '''' then fallback
      else case ParseDuration (b_frac B) (b_Getenv B key) of
        None \<Rightarrow> fallback
      | Some d \<Rightarrow> if sint d \<le> 0 then fallback else d)"

definition serviceVersion :: "('w, 'm, 'p) boot_env \<Rightarrow> string \<Rightarrow> string" where
  "serviceVersion B version = (if version \<noteq> '''' then version else getenv B ''SERVICE_VERSION'' ''dev'')"

definition Environment :: "('w, 'm, 'p) boot_env \<Rightarrow> string" where
  "Environment B = (if b_Getenv B ''ENVIRONMENT'' \<noteq> '''' then b_Getenv B ''ENVIRONMENT'' else ''local'')"

datatype log_level = LevelDebug | LevelInfo | LevelWarn | LevelError

text \<open>The level of \<open>newLogger\<close> in the two transactional roots, and in the two analytical ones.\<close>

definition log_level_of :: "('w, 'm, 'p) boot_env \<Rightarrow> string \<Rightarrow> log_level" where
  "log_level_of B level =
     (if b_lower B level = ''debug'' then LevelDebug
      else if b_lower B level = ''warn'' then LevelWarn
      else if b_lower B level = ''error'' then LevelError
      else LevelInfo)"

definition analytics_log_level_of :: "('w, 'm, 'p) boot_env \<Rightarrow> string \<Rightarrow> log_level" where
  "analytics_log_level_of B level =
     (if b_lower B level = ''debug'' then LevelDebug
      else if b_lower B level \<in> {''warn'', ''warning''} then LevelWarn
      else if b_lower B level = ''error'' then LevelError
      else LevelInfo)"

section \<open>Migrations and pools\<close>

definition RunMigrations :: "('w, 'm, 'p) boot_env \<Rightarrow> string \<Rightarrow> string \<Rightarrow> ('w, unit) io" where
  "RunMigrations B databaseURL migrationsPath = (\<lambda>w.
     case b_migrate_New B (''file://'' @ migrationsPath) databaseURL w of
       (Inl e, w1) \<Rightarrow> (Inl e, w1)
     | (Inr m, w1) \<Rightarrow>
         (case b_migrate_Up B m w1 of
            (Inl e, w2) \<Rightarrow> (if errors_Is e (b_ErrNoChange B) then Inr () else Inl e, b_migrate_Close B m w2)
          | (Inr _, w2) \<Rightarrow> (Inr (), b_migrate_Close B m w2)))"

definition set_timeout :: "string \<Rightarrow> string" where
  "set_timeout t = ''SET statement_timeout = '' @ [CHR 0x27] @ t @ [CHR 0x27]"

text \<open>\<open>postgres/pool.go\<close>\<close>

definition MaxConns :: int where "MaxConns = 10"
definition StatementTimeout :: string where "StatementTimeout = ''5s''"

definition NewPoolWithLimits ::
    "('w, 'm, 'p) boot_env \<Rightarrow> string \<Rightarrow> int \<Rightarrow> string \<Rightarrow> ('w, 'p) io" where
  "NewPoolWithLimits B databaseURL maxConns statementTimeout =
     io_bind (io_lift (b_ParseConfig B databaseURL)) (\<lambda>cfg.
       b_NewWithConfig B (cfg\<lparr>cf_MaxConns := maxConns, cf_AfterConnect := set_timeout statementTimeout\<rparr>))"

definition NewPool :: "('w, 'm, 'p) boot_env \<Rightarrow> string \<Rightarrow> ('w, 'p) io" where
  "NewPool B databaseURL = NewPoolWithLimits B databaseURL MaxConns StatementTimeout"

text \<open>\<open>analyticsstore/pool.go\<close>\<close>

definition analytics_MaxConns :: int where "analytics_MaxConns = 5"
definition ReportsMaxConns :: int where "ReportsMaxConns = 5"
definition analytics_StatementTimeout :: string where "analytics_StatementTimeout = ''10s''"
definition ReportsStatementTimeout :: string where "ReportsStatementTimeout = ''15s''"

definition newPoolWithLimits ::
    "('w, 'm, 'p) boot_env \<Rightarrow> string \<Rightarrow> int \<Rightarrow> string \<Rightarrow> bool \<Rightarrow> ('w, 'p) io" where
  "newPoolWithLimits B databaseURL maxConns statementTimeout readOnly =
     io_bind (io_lift (b_ParseConfig B databaseURL)) (\<lambda>cfg.
       let cfg1 = cfg\<lparr>cf_MaxConns := maxConns\<rparr>;
           cfg2 = (if readOnly then cfg1\<lparr>cf_RuntimeParams :=
                     (cf_RuntimeParams cfg1)(''default_transaction_read_only'' \<mapsto> ''on'')\<rparr> else cfg1)
       in b_NewWithConfig B (cfg2\<lparr>cf_AfterConnect := set_timeout statementTimeout\<rparr>))"

definition analytics_NewPool :: "('w, 'm, 'p) boot_env \<Rightarrow> string \<Rightarrow> ('w, 'p) io" where
  "analytics_NewPool B databaseURL =
     newPoolWithLimits B databaseURL analytics_MaxConns analytics_StatementTimeout False"

definition NewReadOnlyPool :: "('w, 'm, 'p) boot_env \<Rightarrow> string \<Rightarrow> ('w, 'p) io" where
  "NewReadOnlyPool B databaseURL =
     newPoolWithLimits B databaseURL ReportsMaxConns ReportsStatementTimeout True"

section \<open>The transactional service (cmd/pathmgmt)\<close>

text \<open>
  Which adapter is wired: the in-memory one or the Postgres one over a pool. A \<open>nil\<close> pool, unit of
  work or relay is \<open>None\<close>; \<open>ps_close\<close> is the pool that \<open>close\<close> closes.
\<close>

datatype 'p backend = InMemory | OnPostgres 'p

record 'p persistence =
  ps_repo :: "'p backend"
  ps_scheduleRepo :: "'p backend"
  ps_pool :: "'p option"
  ps_uow :: "'p option"
  ps_close :: "'p option"

definition buildPersistence ::
    "('w, 'm, 'p) boot_env \<Rightarrow> string \<Rightarrow> string \<Rightarrow> string \<Rightarrow> ('w, 'p persistence) io" where
  "buildPersistence B databaseURL migrationsDatabaseURL migrationsPath =
     (if databaseURL = '''' then
        io_return \<lparr>ps_repo = InMemory, ps_scheduleRepo = InMemory, ps_pool = None, ps_uow = None, ps_close = None\<rparr>
      else io_bind (bootretry_Do (b_pause B) ''run migrations'' (RunMigrations B migrationsDatabaseURL migrationsPath))
        (\<lambda>_. io_bind (NewPool B databaseURL) (\<lambda>pool w.
          case bootretry_Do (b_pause B) ''ping database'' (b_Ping B pool) w of
            (Inl e, w') \<Rightarrow> (Inl e, b_Close B pool w')
          | (Inr _, w') \<Rightarrow> (Inr \<lparr>ps_repo = OnPostgres pool, ps_scheduleRepo = OnPostgres pool, ps_pool = Some pool,
              ps_uow = Some pool, ps_close = Some pool\<rparr>, w'))))"

text \<open>
  The publisher the use cases get, and what \<open>close\<close> closes: the writer of the integration topic and
  that of the analytics topic. The outbox publisher has the encoders of both topics, in that order.
\<close>

datatype 'p publisher =
    LogOnly
  | Direct "writer_config list"
  | Outbox 'p

record 'p relay_config =
  rl_pool :: 'p
  rl_writer :: writer_config
  rl_relay :: OutboxRelay

datatype kafka_writer = IntegrationWriter | AnalyticsWriter

definition buildEventPublisher ::
    "('w, 'm, 'p) boot_env \<Rightarrow> 'p persistence \<Rightarrow> 'p publisher \<times> 'p relay_config option \<times> kafka_writer list" where
  "buildEventPublisher B p =
     (if b_fold B (getenv B ''EVENT_PUBLISHER'' ''log'') \<noteq> b_fold B ''kafka'' then (LogOnly, None, [])
      else let brokers = strings_Split CHR '','' (getenv B ''KAFKA_BROKERS'' ''localhost:9092'') in
        (case ps_pool p of
           None \<Rightarrow> (Direct [NewPublisher brokers, NewAnalyticsDirectPublisher brokers], None,
             [IntegrationWriter, AnalyticsWriter])
         | Some pool \<Rightarrow> (Outbox pool,
             Some \<lparr>rl_pool = pool, rl_writer = NewPublisher brokers,
               rl_relay = NewOutboxRelay [WithInterval (durationEnv B ''OUTBOX_RELAY_INTERVAL'' 1000000000)]\<rparr>,
             [IntegrationWriter])))"

text \<open>What \<open>run\<close> has wired when it starts to serve.\<close>

record 'p service =
  sv_addr :: string
  sv_repo :: "'p backend"
  sv_scheduleRepo :: "'p backend"
  sv_uow :: "'p option"
  sv_publisher :: "'p publisher"
  sv_relay :: "'p relay_config option"
  sv_idempotency :: "'p option"
  sv_closes :: "kafka_writer list \<times> 'p option"

definition pathmgmt_boot :: "('w, 'm, 'p) boot_env \<Rightarrow> ('w, 'p service) io" where
  "pathmgmt_boot B =
     (let databaseURL = b_Getenv B ''DATABASE_URL'' in
      io_bind (buildPersistence B databaseURL (getenv B ''MIGRATIONS_DATABASE_URL'' databaseURL)
                 (getenv B ''MIGRATIONS_PATH'' ''migrations'')) (\<lambda>p.
        case buildEventPublisher B p of (publisher, relay, writers) \<Rightarrow>
          io_return \<lparr>sv_addr = getenv B ''HTTP_ADDR'' '':8080'', sv_repo = ps_repo p,
            sv_scheduleRepo = ps_scheduleRepo p, sv_uow = ps_uow p, sv_publisher = publisher, sv_relay = relay,
            sv_idempotency = ps_pool p, sv_closes = (writers, ps_close p)\<rparr>))"

section \<open>The MCP server (cmd/mcp)\<close>

definition buildRepo ::
    "('w, 'm, 'p) boot_env \<Rightarrow> string \<Rightarrow> string \<Rightarrow> string \<Rightarrow> ('w, 'p backend \<times> 'p option) io" where
  "buildRepo B databaseURL migrationsDatabaseURL migrationsPath =
     (if databaseURL = '''' then io_return (InMemory, None)
      else io_bind (bootretry_Do (b_pause B) ''run migrations'' (RunMigrations B migrationsDatabaseURL migrationsPath))
        (\<lambda>_. io_bind (NewPool B databaseURL) (\<lambda>pool w.
          case bootretry_Do (b_pause B) ''ping database'' (b_Ping B pool) w of
            (Inl e, w') \<Rightarrow> (Inl e, b_Close B pool w')
          | (Inr _, w') \<Rightarrow> (Inr (OnPostgres pool, Some pool), w'))))"

definition buildCPTScheduleRepo :: "('w, 'm, 'p) boot_env \<Rightarrow> string \<Rightarrow> ('w, 'p backend) io" where
  "buildCPTScheduleRepo B databaseURL =
     (if databaseURL = '''' then io_return InMemory
      else io_bind (NewPool B databaseURL) (\<lambda>pool w.
          case bootretry_Do (b_pause B) ''ping database (cpt schedule pool)'' (b_Ping B pool) w of
            (Inl e, w') \<Rightarrow> (Inl e, b_Close B pool w')
          | (Inr _, w') \<Rightarrow> (Inr (OnPostgres pool), w')))"

definition close_all :: "('w, 'm, 'p) boot_env \<Rightarrow> 'p option \<Rightarrow> 'w \<Rightarrow> 'w" where
  "close_all B p w = (case p of None \<Rightarrow> w | Some pool \<Rightarrow> b_Close B pool w)"

text \<open>
  The repositories, the reports service if there is one, and what the deferred \<open>closeAdapters\<close> closes;
  it also runs when the second repository cannot be built.
\<close>

definition mcp_boot :: "('w, 'm, 'p) boot_env \<Rightarrow> ('w, 'p backend \<times> 'p backend \<times> string option \<times> 'p option) io" where
  "mcp_boot B =
     (let databaseURL = b_Getenv B ''DATABASE_URL'' in
      io_bind (buildRepo B databaseURL (getenv B ''MIGRATIONS_DATABASE_URL'' databaseURL)
                 (getenv B ''MIGRATIONS_PATH'' ''migrations'')) (\<lambda>(repo, closeAdapters) w.
        case buildCPTScheduleRepo B databaseURL w of
          (Inl e, w') \<Rightarrow> (Inl e, close_all B closeAdapters w')
        | (Inr scheduleRepo, w') \<Rightarrow>
            (Inr (repo, scheduleRepo,
              (if b_Getenv B ''REPORTS_BASE_URL'' \<noteq> '''' then Some (b_Getenv B ''REPORTS_BASE_URL'') else None),
              closeAdapters), w')))"

text \<open>The mux of the MCP server, for a request whose path needs no cleaning redirect.\<close>

definition mcp_newRouter :: "'w handler \<Rightarrow> 'w handler" where
  "mcp_newRouter mcpHandler c r w =
     (if rq_path r = ''/healthz'' \<and> rq_method r \<in> {''GET'', ''HEAD''} then
        (\<lparr>rs_status = 200, rs_headers = [(''Content-Type'', ''application/json'')],
          rs_body = ''{\"status\":\"ok\"}''\<rparr>, w)
      else mcpHandler c r w)"

section \<open>The analytical processes (cmd/pathmgmt-projector, cmd/pathmgmt-reports)\<close>

definition errMissingAnalyticsURL :: err where
  "errMissingAnalyticsURL = PlainErr ''ANALYTICS_DATABASE_URL is required''"

record 'p projector =
  pj_addr :: string
  pj_brokers :: "string list"
  pj_pool :: 'p

definition projector_boot :: "('w, 'm, 'p) boot_env \<Rightarrow> ('w, 'p projector) io" where
  "projector_boot B =
     (let analyticsURL = b_Getenv B ''ANALYTICS_DATABASE_URL'' in
      if analyticsURL = '''' then io_fail errMissingAnalyticsURL
      else io_bind (bootretry_Do (b_pause B) ''run analytics migrations'' (RunMigrations B analyticsURL
                      (getenv B ''ANALYTICS_MIGRATIONS_PATH'' ''migrations/analytics'')))
        (\<lambda>_. io_bind (analytics_NewPool B analyticsURL) (\<lambda>pool w.
          case bootretry_Do (b_pause B) ''ping analytics database'' (b_Ping B pool) w of
            (Inl e, w') \<Rightarrow> (Inl e, b_Close B pool w')
          | (Inr _, w') \<Rightarrow> (Inr \<lparr>pj_addr = getenv B ''ADMIN_ADDR'' '':8091'',
              pj_brokers = strings_Split CHR '','' (getenv B ''KAFKA_BROKERS'' ''localhost:9092''),
              pj_pool = pool\<rparr>, w'))))"

definition projector_handle :: "bool \<Rightarrow> 'w handler" where
  "projector_handle ready c r w =
     (if \<not> ready then (\<lparr>rs_status = 503, rs_headers = [], rs_body = ''{\"status\":\"not_ready\"}''\<rparr>, w)
      else (\<lparr>rs_status = 200, rs_headers = [], rs_body = ''{\"status\":\"ready\"}''\<rparr>, w))"

text \<open>\<open>not_found\<close> is the plain answer of \<open>http.ServeMux\<close>; both routes take every method.\<close>

definition newAdminMux :: "bool \<Rightarrow> response \<Rightarrow> 'w handler" where
  "newAdminMux ready not_found c r w =
     (if rq_path r = ''/healthz'' then
        (\<lparr>rs_status = 200, rs_headers = [], rs_body = ''{\"status\":\"ok\"}''\<rparr>, w)
      else if rq_path r = ''/readyz'' then projector_handle ready c r w
      else (not_found, w))"

text \<open>The deferred \<open>pool.Close\<close> of the reports process also runs when the ping fails.\<close>

definition reports_boot :: "('w, 'm, 'p) boot_env \<Rightarrow> ('w, string \<times> 'p) io" where
  "reports_boot B =
     (let analyticsURL = b_Getenv B ''ANALYTICS_DATABASE_URL'' in
      if analyticsURL = '''' then io_fail errMissingAnalyticsURL
      else io_bind (NewReadOnlyPool B analyticsURL) (\<lambda>pool w.
          case bootretry_Do (b_pause B) ''ping analytics database'' (b_Ping B pool) w of
            (Inl e, w') \<Rightarrow> (Inl e, b_Close B pool w')
          | (Inr _, w') \<Rightarrow> (Inr (getenv B ''HTTP_ADDR'' '':8092'', pool), w')))"

end
