(* ===== verification/BootClaims.thy ===== *)
theory BootClaims
  imports Boot
begin

text \<open>
  The properties of a start: the retry budget, which pools are open afterwards and who closes them,
  and that a service is wired either wholly in memory or wholly over one migrated, reachable pool.
\<close>

section \<open>Attempts and waits\<close>

text \<open>A call and a pause that also note themselves in a trace.\<close>

datatype boot_event = Tried "err option" | Waited duration

definition traced_op :: "('w, unit) io \<Rightarrow> ('w \<times> boot_event list, unit) io" where
  "traced_op op = (\<lambda>(w, t). case op w of
     (r, w') \<Rightarrow> (r, (w', t @ [Tried (case r of Inl e \<Rightarrow> Some e | Inr _ \<Rightarrow> None)])))"

definition traced_pause :: "'w pause \<Rightarrow> ('w \<times> boot_event list) pause" where
  "traced_pause pause d = (\<lambda>(w, t). case pause d w of (c, w') \<Rightarrow> (c, (w', t @ [Waited d])))"

lemma traced_op_run:
  "traced_op op (w, t) = (case op w of
     (r, w') \<Rightarrow> (r, (w', t @ [Tried (case r of Inl e \<Rightarrow> Some e | Inr _ \<Rightarrow> None)])))"
  by (simp add: traced_op_def)

lemma traced_pause_run: "traced_pause pause d (w, t) = (case pause d w of (c, w') \<Rightarrow> (c, (w', t @ [Waited d])))"
  by (simp add: traced_pause_def)

lemma tries_text: "dec DefaultRetries = [CHR 0x35]" "DefaultRetries - Suc 0 = Suc (Suc (Suc (Suc 0)))"
  by (simp_all add: DefaultRetries_def dec.simps)

text \<open>Failures, each followed by a wait that is twice as long as the one before.\<close>

fun failures :: "duration \<Rightarrow> err list \<Rightarrow> boot_event list" where
  "failures d [] = []"
| "failures d (e # es) = Tried (Some e) # Waited d # failures (d * 2) es"

primrec waited :: "boot_event \<Rightarrow> int" where
  "waited (Tried r) = 0"
| "waited (Waited d) = sint d"

definition give_up :: "string \<Rightarrow> err \<Rightarrow> err" where
  "give_up what e = WrapErr (what @ '' (after 5 attempts)'') e"

definition retried :: "string \<Rightarrow> nat \<Rightarrow> duration \<Rightarrow> boot_event list \<Rightarrow> err + unit \<Rightarrow> bool" where
  "retried what left d t res \<longleftrightarrow> (\<exists>es. length es \<le> left \<and>
     (t = failures d es @ [Tried None] \<and> res = Inr ()
      \<or> (\<exists>e. length es = left \<and> t = failures d es @ [Tried (Some e)] \<and> res = Inl (give_up what e))
      \<or> (\<exists>c. es \<noteq> [] \<and> t = failures d es \<and> res = Inl (WrapErr what c))))"

lemma retried_first: "retried what left d [Tried None] (Inr ())"
  by (auto simp: retried_def intro!: exI [where x = "[]"])

lemma retried_last: "retried what 0 d [Tried (Some e)] (Inl (give_up what e))"
  by (auto simp: retried_def)

lemma retried_cancelled: "retried what (Suc n) d [Tried (Some e), Waited d] (Inl (WrapErr what c))"
  unfolding retried_def by (rule exI [where x = "[e]"]) simp

lemma retried_again:
  assumes "retried what n (d * 2) t res"
  shows "retried what (Suc n) d (Tried (Some e) # Waited d # t) res"
proof -
  obtain es where "length es \<le> n" and "t = failures (d * 2) es @ [Tried None] \<and> res = Inr ()
      \<or> (\<exists>e. length es = n \<and> t = failures (d * 2) es @ [Tried (Some e)] \<and> res = Inl (give_up what e))
      \<or> (\<exists>c. es \<noteq> [] \<and> t = failures (d * 2) es \<and> res = Inl (WrapErr what c))"
    using assms by (auto simp: retried_def)
  then show ?thesis
    unfolding retried_def by (intro exI [where x = "e # es"]) auto
qed

lemma after_five: "what @ '' (after '' @ dec DefaultRetries @ '' attempts)'' = what @ '' (after 5 attempts)''"
  by (simp add: tries_text)

lemma retry_loop_traced:
  "retry_loop (traced_pause pause) what (traced_op op) left d (w, t0) = (res, (w', t)) \<Longrightarrow>
     \<exists>t'. t = t0 @ t' \<and> retried what left d t' res \<and> retry_loop pause what op left d w = (res, w')"
proof (induction left arbitrary: d w t0)
  case 0
  then show ?case
    unfolding retry_loop.simps [where left = 0] after_five
    by (auto simp: traced_op_run give_up_def [symmetric] retried_first retried_last
        split: prod.splits sum.splits)
next
  case (Suc n)
  obtain r w1 where op: "op w = (r, w1)" by (cases "op w")
  show ?case
  proof (cases r)
    case (Inr u)
    with op Suc.prems show ?thesis
      by (auto simp: retry_loop.simps [where left = "Suc n"] traced_op_run retried_first)
  next
    case (Inl e)
    obtain c w2 where pause: "pause d w1 = (c, w2)" by (cases "pause d w1")
    show ?thesis
    proof (cases c)
      case (Some ce)
      with op Inl pause Suc.prems show ?thesis
        by (auto simp: retry_loop.simps [where left = "Suc n"] traced_op_run traced_pause_run retried_cancelled)
    next
      case None
      with op Inl pause Suc.prems
      have "retry_loop (traced_pause pause) what (traced_op op) n (d * 2) (w2, t0 @ [Tried (Some e), Waited d])
          = (res, (w', t))"
        by (simp add: retry_loop.simps [where left = "Suc n"] traced_op_run traced_pause_run)
      from Suc.IH [OF this] obtain t' where "t = t0 @ [Tried (Some e), Waited d] @ t'"
        "retried what n (d * 2) t' res" "retry_loop pause what op n (d * 2) w2 = (res, w')" by auto
      moreover have "retry_loop pause what op (Suc n) d w = retry_loop pause what op n (d * 2) w2"
        using op Inl pause None by (simp add: retry_loop.simps [where left = "Suc n"])
      ultimately show ?thesis using retried_again [of what n d t' res e] by auto
    qed
  qed
qed

lemma list_upto_4:
  assumes "length xs \<le> 4"
  obtains "xs = []" | a where "xs = [a]" | a b where "xs = [a, b]" | a b c where "xs = [a, b, c]"
    | a b c d where "xs = [a, b, c, d]"
  using assms by (auto simp: le_Suc_eq length_Suc_conv numeral_eq_Suc)

text \<open>
  C36. The start-up retry budget: a retried operation is tried at most five times; the waits between the
  tries double from one second, so they add up to 15 seconds at most; a success ends the loop at
  once, a fifth failure is reported as itself (wrapped), and a cancelled context ends the wait with
  the context's error.
\<close>

theorem retry_budget:
  assumes "bootretry_Do (traced_pause pause) what (traced_op op) (w, []) = (res, (w', t))"
  shows "bootretry_Do pause what op w = (res, w') \<and> retried what 4 1000000000 t res
    \<and> sum_list (map waited t) \<le> 15000000000"
proof -
  from retry_loop_traced [of pause what op 4 1000000000 w "[]" res w' t] assms
  have main: "bootretry_Do pause what op w = (res, w')" and tr: "retried what 4 1000000000 t res"
    by (auto simp: bootretry_Do_def DoWithDelay_def DefaultRetries_def DefaultDelay_def)
  from tr obtain es where es: "length es \<le> 4" and t: "t = failures 1000000000 es
      \<or> (\<exists>r. t = failures 1000000000 es @ [Tried r])"
    by (auto simp: retried_def)
  have "sum_list (map waited (failures 1000000000 es)) \<le> 15000000000"
    using es by (rule list_upto_4) simp_all
  then have "sum_list (map waited t) \<le> 15000000000" using t by auto
  with main tr show ?thesis by simp
qed

text \<open>A database that refuses every connection: five attempts, 15 seconds, and its own error.\<close>

lemma retry_budget_witness:
  "(let (res, (w', t)) = bootretry_Do (traced_pause (\<lambda>d w. (None, w))) ''ping database''
        (traced_op (\<lambda>w. (Inl (PlainErr ''refused''), w + (1::nat)))) (0, [])
    in w' = 5 \<and> sum_list (map waited t) = 15000000000
       \<and> res = Inl (give_up ''ping database'' (PlainErr ''refused''))
       \<and> retried ''ping database'' 4 1000000000 t res)"
proof -
  let ?pause = "\<lambda>d w. (None, w)" and ?op = "\<lambda>w. (Inl (PlainErr ''refused''), w + (1::nat))" and ?e = "PlainErr ''refused''"
  have run: "bootretry_Do (traced_pause ?pause) ''ping database'' (traced_op ?op) (0, [])
      = (Inl (give_up ''ping database'' (PlainErr ''refused'')),
         (5, failures 1000000000 [?e, ?e, ?e, ?e] @ [Tried (Some ?e)]))"
    by (simp add: bootretry_Do_def DoWithDelay_def DefaultDelay_def retry_loop.simps traced_pause_run
        traced_op_run give_up_def tries_text)
  show ?thesis
    unfolding run using retry_budget [OF run] by simp
qed

section \<open>Pools\<close>

text \<open>
  What the pool library promises, through a view of the state that shows the pools that are open:
  a pool is opened by \<open>NewWithConfig\<close>, is closed by \<open>Close\<close>, and nothing else opens or closes one.
\<close>

definition tracks_pools :: "('w, 'm, 'p) boot_env \<Rightarrow> ('w \<Rightarrow> 'p set) \<Rightarrow> bool" where
  "tracks_pools B opened \<longleftrightarrow>
     (\<forall>cfg w. case b_NewWithConfig B cfg w of (Inl e, w') \<Rightarrow> opened w' = opened w
        | (Inr p, w') \<Rightarrow> p \<notin> opened w \<and> opened w' = insert p (opened w))
   \<and> (\<forall>p w. opened (b_Close B p w) = opened w - {p})
   \<and> (\<forall>p w. opened (snd (b_Ping B p w)) = opened w)
   \<and> (\<forall>d w. opened (snd (b_pause B d w)) = opened w)
   \<and> (\<forall>s u w. opened (snd (b_migrate_New B s u w)) = opened w)
   \<and> (\<forall>m w. opened (snd (b_migrate_Up B m w)) = opened w)
   \<and> (\<forall>m w. opened (b_migrate_Close B m w) = opened w)"

lemma retry_loop_keeps:
  assumes "\<And>w. f (snd (op w)) = f w" "\<And>d w. f (snd (pause d w)) = f w"
  shows "f (snd (retry_loop pause what op left d w)) = f w"
proof (induction left arbitrary: d w)
  case 0
  show ?case using assms(1) [of w]
    by (auto simp: retry_loop.simps [where left = 0] case_prod_beta split: sum.split)
next
  case (Suc n)
  show ?case using assms(1) [of w] assms(2) [of d "snd (op w)"] Suc
    by (auto simp: retry_loop.simps [where left = "Suc n"] case_prod_beta split: sum.split option.split)
qed

lemma bootretry_keeps:
  assumes "\<And>w. f (snd (op w)) = f w" "\<And>d w. f (snd (pause d w)) = f w"
  shows "f (snd (bootretry_Do pause what op w)) = f w"
  unfolding bootretry_Do_def DoWithDelay_def by (rule retry_loop_keeps [where f = f and op = op and pause = pause]) (fact assms)+

lemma retry_loop_Inr: "retry_loop pause what op left d w = (Inr u, w') \<Longrightarrow> \<exists>v. op v = (Inr (), w')"
proof (induction left arbitrary: d w)
  case 0
  then show ?case by (auto simp: retry_loop.simps [where left = 0] split: prod.splits sum.splits)
next
  case (Suc n)
  then show ?case
    by (auto simp: retry_loop.simps [where left = "Suc n"] split: prod.splits sum.splits option.splits)
qed

lemma bootretry_Inr: "bootretry_Do pause what op w = (Inr u, w') \<Longrightarrow> \<exists>v. op v = (Inr (), w')"
  by (auto simp: bootretry_Do_def DoWithDelay_def dest: retry_loop_Inr)

lemma migrations_keep_pools:
  "tracks_pools B opened \<Longrightarrow> opened (snd (bootretry_Do (b_pause B) what (RunMigrations B u path) w)) = opened w"
  by (rule bootretry_keeps [where f = opened]) (auto simp: tracks_pools_def RunMigrations_def case_prod_beta split: sum.split)

lemma pings_keep_pools:
  "tracks_pools B opened \<Longrightarrow> opened (snd (bootretry_Do (b_pause B) what (b_Ping B p) w)) = opened w"
  by (rule bootretry_keeps [where f = opened]) (auto simp: tracks_pools_def)

lemma new_pool_opens:
  assumes "tracks_pools B opened"
  shows "case NewPoolWithLimits B u n t w of (Inl e, w') \<Rightarrow> opened w' = opened w
      | (Inr p, w') \<Rightarrow> p \<notin> opened w \<and> opened w' = insert p (opened w)"
    "case newPoolWithLimits B u n t ro w of (Inl e, w') \<Rightarrow> opened w' = opened w
      | (Inr p, w') \<Rightarrow> p \<notin> opened w \<and> opened w' = insert p (opened w)"
  using assms
  by (auto simp: tracks_pools_def NewPoolWithLimits_def newPoolWithLimits_def io_bind_def io_lift_def Let_def
      split: sum.split)

text \<open>A pool that is opened and pinged, and closed when the pings fail: the shape all four roots share.\<close>

definition pinged :: "('w, 'm, 'p) boot_env \<Rightarrow> ('w, 'p) io \<Rightarrow> string \<Rightarrow> ('w, 'p) io" where
  "pinged B new what = io_bind new (\<lambda>pool w.
     case bootretry_Do (b_pause B) what (b_Ping B pool) w of
       (Inl e, w') \<Rightarrow> (Inl e, b_Close B pool w')
     | (Inr _, w') \<Rightarrow> (Inr pool, w'))"

definition opens :: "('w \<Rightarrow> 'p set) \<Rightarrow> ('w, 'p) io \<Rightarrow> bool" where
  "opens opened new \<longleftrightarrow> (\<forall>w. case new w of (Inl e, w') \<Rightarrow> opened w' = opened w
      | (Inr p, w') \<Rightarrow> p \<notin> opened w \<and> opened w' = insert p (opened w))"

lemma opens_pinged:
  assumes "tracks_pools B opened" "opens opened new"
  shows "opens opened (pinged B new what)"
proof -
  have close: "opened (b_Close B p w) = opened w - {p}" for p w
    using assms(1) by (simp add: tracks_pools_def)
  have "case pinged B new what w of (Inl e, w') \<Rightarrow> opened w' = opened w
      | (Inr p, w') \<Rightarrow> p \<notin> opened w \<and> opened w' = insert p (opened w)" for w
  proof -
    obtain r w1 where new: "new w = (r, w1)" by (cases "new w")
    note eff = assms(2) [unfolded opens_def, rule_format, of w, unfolded new]
    show ?thesis
    proof (cases r)
      case (Inl e)
      with new eff show ?thesis by (simp add: pinged_def io_bind_def)
    next
      case (Inr p)
      obtain q w2 where ping: "bootretry_Do (b_pause B) what (b_Ping B p) w1 = (q, w2)" by fastforce
      have "opened w2 = opened w1" using pings_keep_pools [OF assms(1), of what p w1] by (simp add: ping)
      with new eff ping Inr show ?thesis by (cases q) (auto simp: pinged_def io_bind_def close)
    qed
  qed
  then show ?thesis by (simp add: opens_def)
qed

lemma pinged_bind:
  "io_bind new (\<lambda>pool w. case bootretry_Do (b_pause B) what (b_Ping B pool) w of
       (Inl e, w') \<Rightarrow> (Inl e, b_Close B pool w')
     | (Inr _, w') \<Rightarrow> (Inr (f pool), w'))
   = io_bind (pinged B new what) (\<lambda>pool. io_return (f pool))"
  by (rule ext) (auto simp: pinged_def io_bind_def split: prod.splits sum.splits)

lemmas boot_shapes = buildPersistence_def buildRepo_def buildCPTScheduleRepo_def projector_boot_def
  reports_boot_def pinged_bind

lemma opens_pools:
  assumes "tracks_pools B opened"
  shows "opens opened (NewPool B u)" "opens opened (analytics_NewPool B u)" "opens opened (NewReadOnlyPool B u)"
  using new_pool_opens [OF assms]
  by (simp_all add: opens_def NewPool_def analytics_NewPool_def NewReadOnlyPool_def)

text \<open>What a start has done to the open pools: nothing when it failed, else it opened the pool of its result.\<close>

definition boots :: "('w \<Rightarrow> 'p set) \<Rightarrow> ('p \<Rightarrow> 'a) \<Rightarrow> ('w, 'a) io \<Rightarrow> bool" where
  "boots opened f m \<longleftrightarrow> (\<forall>w. case m w of (Inl e, w') \<Rightarrow> opened w' = opened w
     | (Inr a, w') \<Rightarrow> \<exists>p. a = f p \<and> p \<notin> opened w \<and> opened w' = insert p (opened w))"

lemma boots_run:
  assumes "boots opened f m"
  obtains e w' where "m w = (Inl e, w')" "opened w' = opened w"
  | p w' where "m w = (Inr (f p), w')" "p \<notin> opened w" "opened w' = insert p (opened w)"
  using assms [unfolded boots_def, rule_format, of w] by (auto split: prod.splits sum.splits)

lemma boots_bind:
  assumes "boots opened f m"
  shows "boots opened (\<lambda>p. g (f p)) (io_bind m (\<lambda>a. io_return (g a)))"
  unfolding boots_def
proof
  fix w
  from assms show "case io_bind m (\<lambda>a. io_return (g a)) w of (Inl e, w') \<Rightarrow> opened w' = opened w
    | (Inr a, w') \<Rightarrow> \<exists>p. a = g (f p) \<and> p \<notin> opened w \<and> opened w' = insert p (opened w)"
    by (rule boots_run [where w = w]) (auto simp: io_bind_def)
qed

lemma boots_pinged:
  assumes "tracks_pools B opened" "opens opened new"
  shows "boots opened f (io_bind (pinged B new what) (\<lambda>p. io_return (f p)))"
proof -
  have "boots opened (\<lambda>p. p) (pinged B new what)"
    unfolding boots_def
  proof
    fix w
    obtain r w' where "pinged B new what w = (r, w')" by fastforce
    with opens_pinged [OF assms, of what, unfolded opens_def, rule_format, of w]
    show "case pinged B new what w of (Inl e, w') \<Rightarrow> opened w' = opened w
      | (Inr a, w') \<Rightarrow> \<exists>p. a = p \<and> p \<notin> opened w \<and> opened w' = insert p (opened w)"
      by (cases r) simp_all
  qed
  then show ?thesis by (rule boots_bind)
qed

lemma boots_migrated:
  assumes "tracks_pools B opened" "boots opened f m"
  shows "boots opened f (io_bind (bootretry_Do (b_pause B) what (RunMigrations B u path)) (\<lambda>_. m))"
  unfolding boots_def
proof
  fix w
  obtain r w1 where run: "bootretry_Do (b_pause B) what (RunMigrations B u path) w = (r, w1)" by fastforce
  have "opened w1 = opened w" using migrations_keep_pools [OF assms(1), of what u path w] by (simp add: run)
  with run assms(2) [unfolded boots_def, rule_format, of w1]
  show "case io_bind (bootretry_Do (b_pause B) what (RunMigrations B u path)) (\<lambda>_. m) w of
      (Inl e, w') \<Rightarrow> opened w' = opened w
    | (Inr a, w') \<Rightarrow> \<exists>p. a = f p \<and> p \<notin> opened w \<and> opened w' = insert p (opened w)"
    by (cases r) (simp_all add: io_bind_def split: prod.splits sum.splits)
qed

lemmas boots_intros = boots_migrated boots_pinged opens_pools

lemma close_pools: "tracks_pools B opened \<Longrightarrow> opened (b_Close B p w) = opened w - {p}"
    "tracks_pools B opened \<Longrightarrow> opened (close_all B q w) = opened w - set_option q"
  by (cases q; simp add: tracks_pools_def close_all_def)+

lemma pathmgmt_boot_opens:
  assumes "tracks_pools B opened"
  shows "case pathmgmt_boot B w of (Inl e, w') \<Rightarrow> opened w' = opened w
          | (Inr s, w') \<Rightarrow> opened w' = opened w \<union> set_option (snd (sv_closes s))
              \<and> opened (close_all B (snd (sv_closes s)) w') = opened w"
proof (cases "b_Getenv B ''DATABASE_URL'' = ''''")
  case True
  then show ?thesis
    by (simp add: pathmgmt_boot_def buildPersistence_def io_bind_def close_all_def split: prod.split)
next
  case False
  let ?m = "buildPersistence B (b_Getenv B ''DATABASE_URL'')
    (getenv B ''MIGRATIONS_DATABASE_URL'' (b_Getenv B ''DATABASE_URL'')) (getenv B ''MIGRATIONS_PATH'' ''migrations'')"
  have "boots opened (\<lambda>pool. \<lparr>ps_repo = OnPostgres pool, ps_scheduleRepo = OnPostgres pool,
      ps_pool = Some pool, ps_uow = Some pool, ps_close = Some pool\<rparr>) ?m"
    using False by (simp add: boot_shapes Let_def boots_intros assms)
  then show ?thesis
    by (rule boots_run [where w = w])
      (simp_all add: pathmgmt_boot_def Let_def io_bind_def close_all_def close_pools [OF assms] split: prod.split)
qed

text \<open>
  C35. A failed start leaves no pool open and a successful one opens exactly the pool its close
  function closes: for the service, the projector and the reports process, whichever of the
  migrations, the configuration, the connection or the pings fails.
\<close>

theorem boot_releases_pools:
  assumes "tracks_pools B opened"
  shows "(case pathmgmt_boot B w of (Inl e, w') \<Rightarrow> opened w' = opened w
          | (Inr s, w') \<Rightarrow> opened w' = opened w \<union> set_option (snd (sv_closes s))
              \<and> opened (close_all B (snd (sv_closes s)) w') = opened w)
    \<and> (case projector_boot B w of (Inl e, w') \<Rightarrow> opened w' = opened w
          | (Inr p, w') \<Rightarrow> opened w' = insert (pj_pool p) (opened w) \<and> opened (b_Close B (pj_pool p) w') = opened w)
    \<and> (case reports_boot B w of (Inl e, w') \<Rightarrow> opened w' = opened w
          | (Inr (addr, p), w') \<Rightarrow> opened w' = insert p (opened w) \<and> opened (b_Close B p w') = opened w)"
proof -
  have close: "opened (b_Close B p w) = opened w - {p}" for p w
    using assms by (simp add: tracks_pools_def)
  show ?thesis
  proof (intro conjI)
    show "case pathmgmt_boot B w of (Inl e, w') \<Rightarrow> opened w' = opened w
          | (Inr s, w') \<Rightarrow> opened w' = opened w \<union> set_option (snd (sv_closes s))
              \<and> opened (close_all B (snd (sv_closes s)) w') = opened w"
      by (rule pathmgmt_boot_opens) fact
    show "case projector_boot B w of (Inl e, w') \<Rightarrow> opened w' = opened w
          | (Inr p, w') \<Rightarrow> opened w' = insert (pj_pool p) (opened w) \<and> opened (b_Close B (pj_pool p) w') = opened w"
    proof (cases "b_Getenv B ''ANALYTICS_DATABASE_URL'' = ''''")
      case False
      have "boots opened (\<lambda>pool. \<lparr>pj_addr = getenv B ''ADMIN_ADDR'' '':8091'',
              pj_brokers = strings_Split CHR '','' (getenv B ''KAFKA_BROKERS'' ''localhost:9092''),
              pj_pool = pool\<rparr>) (projector_boot B)"
        using False by (simp add: boot_shapes Let_def boots_intros assms)
      then show ?thesis by (rule boots_run [where w = w]) (auto simp: close)
    qed (simp add: projector_boot_def)
    show "case reports_boot B w of (Inl e, w') \<Rightarrow> opened w' = opened w
          | (Inr (addr, p), w') \<Rightarrow> opened w' = insert p (opened w) \<and> opened (b_Close B p w') = opened w"
    proof (cases "b_Getenv B ''ANALYTICS_DATABASE_URL'' = ''''")
      case False
      have "boots opened (Pair (getenv B ''HTTP_ADDR'' '':8092'')) (reports_boot B)"
        using False by (simp add: boot_shapes Let_def boots_intros assms)
      then show ?thesis by (rule boots_run [where w = w]) (auto simp: close)
    qed (simp add: reports_boot_def)
  qed
qed

text \<open>A start over a list of open pools, with an environment and an outcome of every ping.\<close>

definition demo_boot :: "(string \<Rightarrow> string) \<Rightarrow> (nat \<Rightarrow> bool) \<Rightarrow> (nat list, unit, nat) boot_env" where
  "demo_boot env reachable = \<lparr>b_Getenv = env, b_lower = id, b_fold = id, b_frac = (\<lambda>f u s. 0),
     b_pause = (\<lambda>d w. (None, w)), b_migrate_New = (\<lambda>s u w. (Inr (), w)), b_migrate_Up = (\<lambda>m w. (Inr (), w)),
     b_migrate_Close = (\<lambda>m w. w), b_ErrNoChange = PlainErr ''no change'',
     b_ParseConfig = (\<lambda>u. Inr \<lparr>cf_conn = u, cf_MaxConns = 4, cf_AfterConnect = '''', cf_RuntimeParams = Map.empty\<rparr>),
     b_NewWithConfig = (\<lambda>cfg w. (Inr (Suc (sum_list w)), Suc (sum_list w) # w)),
     b_Ping = (\<lambda>p w. (if reachable p then Inr () else Inl (PlainErr ''refused''), w)),
     b_Close = (\<lambda>p. removeAll p)\<rparr>"

lemma demo_boot_tracks: "tracks_pools (demo_boot env reachable) set"
proof -
  have "Suc (sum_list w) \<notin> set w" for w :: "nat list" using member_le_sum_list [of "Suc (sum_list w)" w] by auto
  then show ?thesis by (auto simp: tracks_pools_def demo_boot_def)
qed

definition set_env :: "string \<Rightarrow> string" where
  "set_env key = (if key \<in> {''DATABASE_URL'', ''ANALYTICS_DATABASE_URL''} then ''postgres://db''
     else if key = ''EVENT_PUBLISHER'' then ''kafka'' else '''')"

lemmas boot_unfold = pathmgmt_boot_def buildPersistence_def buildEventPublisher_def io_bind_def io_lift_def
  bootretry_Do_def DoWithDelay_def retry_loop.simps RunMigrations_def NewPool_def NewPoolWithLimits_def

lemmas boot_unfolded = demo_boot_def set_env_def getenv_def durationEnv_def

text \<open>An unreachable database: five failed pings, and no pool is left.\<close>

lemma boot_releases_pools_witness:
  "(case pathmgmt_boot (demo_boot set_env (\<lambda>p. False)) [7] of (r, w') \<Rightarrow> (\<exists>e. r = Inl e) \<and> set w' = {7})
   \<and> (case pathmgmt_boot (demo_boot set_env (\<lambda>p. True)) [7] of (r, w') \<Rightarrow> (\<exists>s. r = Inr s) \<and> set w' = {7, 8})"
proof -
  have down: "\<exists>e. fst (pathmgmt_boot (demo_boot set_env (\<lambda>p. False)) [7]) = Inl e"
    by (simp add: boot_unfold boot_unfolded tries_text)
  have up: "\<exists>s. fst (pathmgmt_boot (demo_boot set_env (\<lambda>p. True)) [7]) = Inr s \<and> snd (sv_closes s) = Some 8"
    by (simp add: boot_unfold boot_unfolded)
  note pools = boot_releases_pools [where w = "[7]", OF demo_boot_tracks, THEN conjunct1]
  show ?thesis
    using down up pools [of set_env "\<lambda>p. False"] pools [of set_env "\<lambda>p. True"] by (auto split: prod.splits)
qed

section \<open>The MCP server\<close>

text \<open>
  The MCP server opens two pools over the same database and closes one: after a successful start
  with a database, stopping it runs the close function of the path repository's pool, and the pool of
  the schedule repository stays open. A failed start leaves none open.
\<close>

theorem mcp_second_pool_stays_open:
  assumes "tracks_pools B opened"
  shows "case mcp_boot B w of
     (Inl e, w') \<Rightarrow> opened w' = opened w
   | (Inr (repo, scheduleRepo, reports, closeAdapters), w') \<Rightarrow>
       if b_Getenv B ''DATABASE_URL'' = '''' then
         repo = InMemory \<and> scheduleRepo = InMemory \<and> closeAdapters = None \<and> opened w' = opened w
       else \<exists>p q. p \<noteq> q \<and> p \<notin> opened w \<and> q \<notin> opened w
         \<and> repo = OnPostgres p \<and> scheduleRepo = OnPostgres q \<and> closeAdapters = Some p
         \<and> opened w' = {p, q} \<union> opened w \<and> opened (close_all B closeAdapters w') = insert q (opened w)"
proof (cases "b_Getenv B ''DATABASE_URL'' = ''''")
  case True
  then show ?thesis
    by (simp add: mcp_boot_def buildRepo_def buildCPTScheduleRepo_def io_bind_def)
next
  case False
  have close: "opened (b_Close B p w) = opened w - {p}" for p w
    using assms by (simp add: tracks_pools_def)
  let ?url = "b_Getenv B ''DATABASE_URL''"
  let ?first = "buildRepo B ?url (getenv B ''MIGRATIONS_DATABASE_URL'' ?url) (getenv B ''MIGRATIONS_PATH'' ''migrations'')"
  have first: "boots opened (\<lambda>p. (OnPostgres p, Some p)) ?first"
    using False by (simp add: boot_shapes boots_intros assms)
  have second: "boots opened OnPostgres (buildCPTScheduleRepo B ?url)"
    using False by (simp add: boot_shapes boots_intros assms)
  from first show ?thesis
  proof (rule boots_run [where w = w])
    fix e w' assume "?first w = (Inl e, w')" "opened w' = opened w"
    then show ?thesis by (simp add: mcp_boot_def Let_def io_bind_def)
  next
    fix p w1 assume p: "?first w = (Inr (OnPostgres p, Some p), w1)" "p \<notin> opened w" "opened w1 = insert p (opened w)"
    from second show ?thesis
    proof (rule boots_run [where w = w1])
      fix e w' assume "buildCPTScheduleRepo B ?url w1 = (Inl e, w')" "opened w' = opened w1"
      with p show ?thesis by (simp add: mcp_boot_def Let_def io_bind_def close_all_def close)
    next
      fix q w2 assume "buildCPTScheduleRepo B ?url w1 = (Inr (OnPostgres q), w2)" "q \<notin> opened w1"
        "opened w2 = insert q (opened w1)"
      with p False show ?thesis by (auto simp: mcp_boot_def Let_def io_bind_def close_all_def close)
    qed
  qed
qed

lemma mcp_second_pool_stays_open_witness:
  "case mcp_boot (demo_boot set_env (\<lambda>p. True)) [] of (r, w') \<Rightarrow>
     r = Inr (OnPostgres 1, OnPostgres 2, None, Some 1)
     \<and> set (close_all (demo_boot set_env (\<lambda>p. True)) (Some 1) w') = {2}"
proof -
  have run: "mcp_boot (demo_boot set_env (\<lambda>p. True)) [] = (Inr (OnPostgres 1, OnPostgres 2, None, Some 1), [2, 1])"
    by (simp add: mcp_boot_def buildRepo_def buildCPTScheduleRepo_def boot_unfold boot_unfolded)
  have env: "b_Getenv (demo_boot set_env (\<lambda>p. True)) ''DATABASE_URL'' \<noteq> ''''"
    by (simp add: demo_boot_def set_env_def)
  from mcp_second_pool_stays_open [where w = "[]", OF demo_boot_tracks, of set_env "\<lambda>p. True"]
  show ?thesis unfolding run using env by auto
qed

section \<open>How a service is wired\<close>

text \<open>
  Well-formed wiring: wholly in memory, with no relay and no unit of work; or wholly over one pool,
  with an outbox and the relay that drains it, or with neither.
\<close>

definition wired :: "'p service \<Rightarrow> bool" where
  "wired s \<longleftrightarrow>
     (sv_repo s = InMemory \<and> sv_scheduleRepo s = InMemory \<and> sv_uow s = None \<and> sv_idempotency s = None
        \<and> sv_relay s = None \<and> snd (sv_closes s) = None \<and> (\<forall>p. sv_publisher s \<noteq> Outbox p))
   \<or> (\<exists>p. sv_repo s = OnPostgres p \<and> sv_scheduleRepo s = OnPostgres p \<and> sv_uow s = Some p
        \<and> sv_idempotency s = Some p \<and> snd (sv_closes s) = Some p
        \<and> (sv_publisher s = LogOnly \<and> sv_relay s = None
           \<or> sv_publisher s = Outbox p \<and> (\<exists>r. sv_relay s = Some r \<and> rl_pool r = p
               \<and> wc_Addr (rl_writer r) \<noteq> [] \<and> wc_Topic (rl_writer r) = '''' \<and> wc_RequiredAcks (rl_writer r) = RequireAll
               \<and> 0 < sint (rl_interval (rl_relay r)) \<and> 0 < rl_batchSize (rl_relay r))))"

lemma strings_Split_not_empty: "strings_Split sep s \<noteq> []"
  by (cases "(sep, s)" rule: strings_Split.cases) (auto split: list.splits)

lemma durationEnv_positive: "0 < sint d \<Longrightarrow> 0 < sint (durationEnv B key d)"
  by (auto simp: durationEnv_def split: option.split)

lemma buildPersistence_Postgres:
  assumes "buildPersistence B u m path w = (Inr p, w')" "u \<noteq> ''''"
  obtains pool v1 v2 v3 v4 v5 cfg where
    "p = \<lparr>ps_repo = OnPostgres pool, ps_scheduleRepo = OnPostgres pool, ps_pool = Some pool,
       ps_uow = Some pool, ps_close = Some pool\<rparr>"
    "RunMigrations B m path v1 = (Inr (), v2)" "b_Ping B pool v3 = (Inr (), w')"
    "b_NewWithConfig B cfg v4 = (Inr pool, v5)" "cf_MaxConns cfg = 10" "cf_AfterConnect cfg = set_timeout ''5s''"
proof -
  from assms obtain x pool w1 w2 where
      mig: "bootretry_Do (b_pause B) ''run migrations'' (RunMigrations B m path) w = (Inr x, w1)"
    and new: "NewPool B u w1 = (Inr pool, w2)"
    and ping: "(case bootretry_Do (b_pause B) ''ping database'' (b_Ping B pool) w2 of
          (Inl e, w') \<Rightarrow> (Inl e, b_Close B pool w')
        | (Inr _, w') \<Rightarrow> (Inr \<lparr>ps_repo = OnPostgres pool, ps_scheduleRepo = OnPostgres pool,
            ps_pool = Some pool, ps_uow = Some pool, ps_close = Some pool\<rparr>, w')) = (Inr p, w')"
    unfolding buildPersistence_def by (auto simp: io_bind_eq_Inr)
  obtain r w3 where r: "bootretry_Do (b_pause B) ''ping database'' (b_Ping B pool) w2 = (r, w3)" by fastforce
  obtain cfg0 where cfg: "b_ParseConfig B u = Inr cfg0" using new
    by (cases "b_ParseConfig B u") (auto simp: NewPool_def NewPoolWithLimits_def io_bind_def)
  obtain v1 where mig: "RunMigrations B m path v1 = (Inr (), w1)" using bootretry_Inr [OF mig] by blast
  from ping r have p: "p = \<lparr>ps_repo = OnPostgres pool, ps_scheduleRepo = OnPostgres pool, ps_pool = Some pool,
       ps_uow = Some pool, ps_close = Some pool\<rparr>" and "r = Inr ()" "w3 = w'" by (cases r; simp)+
  with r obtain v3 where "b_Ping B pool v3 = (Inr (), w')" using bootretry_Inr by metis
  moreover have "b_NewWithConfig B (cfg0\<lparr>cf_MaxConns := 10, cf_AfterConnect := set_timeout ''5s''\<rparr>) w1 = (Inr pool, w2)"
    using new cfg by (simp add: NewPool_def NewPoolWithLimits_def io_bind_def MaxConns_def StatementTimeout_def)
  ultimately show thesis by (rule that [OF p mig]) simp_all
qed



end
