(* ===== verification/Lifecycle.thy ===== *)
theory Lifecycle
  imports Main
begin

text \<open>
  How the four processes stop: \<open>serveHTTP\<close> of \<open>cmd/pathmgmt\<close> with what \<open>run\<close> defers, \<open>run\<close> of
  \<open>cmd/pathmgmt-projector\<close> from where it serves, and \<open>cmd/mcp\<close> and \<open>cmd/pathmgmt-reports\<close>. A state has the program point of the main
  goroutine and what the other goroutines, the signals and the deadline can change; a step is one
  action of one of them.
\<close>

section \<open>The transactional service (cmd/pathmgmt)\<close>

text \<open>
  Where the main goroutine is: in the \<open>select\<close>, after the signal, after \<open>SetNotReady\<close>, in
  \<open>httpServer.Shutdown\<close>, after it, waiting for the relay, returning from \<open>serveHTTP\<close>, and after each of the
  two deferred closes of \<open>run\<close>.
\<close>

datatype main_at = Selecting | Signalled | NotReady | Draining | Drained | AwaitingRelay | Returning
  | PublisherClosed | Exited

record service_state =
  at :: main_at
  ready :: bool
  listening :: bool
  inflight :: nat
  relay_running :: bool
  stop_done :: bool
  relay_stopped :: bool
  err_pending :: bool
  deadline :: bool
  unsent :: nat
  failed :: bool

text \<open>
  \<open>stop_done\<close>: the context of the signals is done. \<open>relay_stopped\<close>: \<open>stopRelay\<close> was called. The relay's
  context is derived from that of the signals, so it is done after either. \<open>unsent\<close> counts the
  committed outbox rows that are not published, \<open>failed\<close> remembers a listener error.
\<close>

definition relay_ctx_done :: "service_state \<Rightarrow> bool" where
  "relay_ctx_done s \<longleftrightarrow> stop_done s \<or> relay_stopped s"

definition publisher_open :: "service_state \<Rightarrow> bool" where
  "publisher_open s \<longleftrightarrow> at s \<notin> {PublisherClosed, Exited}"

definition pool_open :: "service_state \<Rightarrow> bool" where
  "pool_open s \<longleftrightarrow> at s \<noteq> Exited"

definition service_start :: "bool \<Rightarrow> nat \<Rightarrow> service_state" where
  "service_start relay rows = \<lparr>at = Selecting, ready = True, listening = True, inflight = 0,
     relay_running = relay, stop_done = False, relay_stopped = False, err_pending = False,
     deadline = False, unsent = rows, failed = False\<rparr>"

text \<open>
  The environment: a signal, the deadline of the shutdown context, a request that arrives or ends
  (and may have committed outbox rows), a listener that fails. The relay: a pass that publishes some
  rows, which needs a context that is not done, an open pool and an open writer; and its return, once
  its context is done. \<open>Main\<close> is the next step of the main goroutine.
\<close>

datatype service_action = Signal | Deadline | Request | Answer nat | ListenerFails | RelayPass nat | RelayReturns | Main

inductive service_step :: "service_action \<Rightarrow> service_state \<Rightarrow> service_state \<Rightarrow> bool" where
  signal: "service_step Signal s (s\<lparr>stop_done := True\<rparr>)"
| deadline: "at s \<in> {Signalled, NotReady, Draining, Drained, AwaitingRelay} \<Longrightarrow>
     service_step Deadline s (s\<lparr>deadline := True\<rparr>)"
| request: "listening s \<Longrightarrow> service_step Request s (s\<lparr>inflight := Suc (inflight s)\<rparr>)"
| answer: "inflight s > 0 \<Longrightarrow> pool_open s \<or> n = 0 \<Longrightarrow>
     service_step (Answer n) s (s\<lparr>inflight := inflight s - 1, unsent := unsent s + n\<rparr>)"
| listener_fails: "listening s \<Longrightarrow> service_step ListenerFails s (s\<lparr>listening := False, err_pending := True, failed := True\<rparr>)"
| relay_pass: "relay_running s \<Longrightarrow> \<not> relay_ctx_done s \<Longrightarrow> pool_open s \<Longrightarrow> publisher_open s \<Longrightarrow> n \<le> unsent s \<Longrightarrow>
     service_step (RelayPass n) s (s\<lparr>unsent := unsent s - n\<rparr>)"
| relay_returns: "relay_running s \<Longrightarrow> relay_ctx_done s \<Longrightarrow> service_step RelayReturns s (s\<lparr>relay_running := False\<rparr>)"
| select_error: "at s = Selecting \<Longrightarrow> err_pending s \<Longrightarrow>
     service_step Main s (s\<lparr>at := Returning, err_pending := False\<rparr>)"
| select_signal: "at s = Selecting \<Longrightarrow> stop_done s \<Longrightarrow> service_step Main s (s\<lparr>at := Signalled\<rparr>)"
| set_not_ready: "at s = Signalled \<Longrightarrow> service_step Main s (s\<lparr>at := NotReady, ready := False\<rparr>)"
| shutdown: "at s = NotReady \<Longrightarrow> service_step Main s (s\<lparr>at := Draining, listening := False\<rparr>)"
| drained: "at s = Draining \<Longrightarrow> inflight s = 0 \<or> deadline s \<Longrightarrow> service_step Main s (s\<lparr>at := Drained\<rparr>)"
| stop_relay: "at s = Drained \<Longrightarrow> service_step Main s (s\<lparr>at := AwaitingRelay, relay_stopped := True\<rparr>)"
| relay_awaited: "at s = AwaitingRelay \<Longrightarrow> \<not> relay_running s \<or> deadline s \<Longrightarrow>
     service_step Main s (s\<lparr>at := Returning\<rparr>)"
| close_publisher: "at s = Returning \<Longrightarrow> service_step Main s (s\<lparr>at := PublisherClosed, relay_stopped := True, stop_done := True\<rparr>)"
| close_pool: "at s = PublisherClosed \<Longrightarrow> service_step Main s (s\<lparr>at := Exited\<rparr>)"

code_pred (modes: i \<Rightarrow> i \<Rightarrow> o \<Rightarrow> bool) service_step .

inductive service_run :: "service_action list \<Rightarrow> service_state \<Rightarrow> service_state \<Rightarrow> bool" where
  none: "service_run [] s s"
| more: "service_step a s t \<Longrightarrow> service_run as t u \<Longrightarrow> service_run (a # as) s u"

inductive_cases stepE: "service_step a s t"

inductive_simps step_simps:
  "service_step Signal s t" "service_step Deadline s t" "service_step Request s t" "service_step (Answer n) s t"
  "service_step ListenerFails s t" "service_step (RelayPass n) s t" "service_step RelayReturns s t"
  "service_step Main s t"

inductive_simps run_simps: "service_run [] s t" "service_run (a # as) s t"

section \<open>What holds along a run\<close>

text \<open>What is left for the main goroutine after the signal; a deadline makes every wait end.\<close>

primrec steps_left :: "main_at \<Rightarrow> nat" where
  "steps_left Selecting = 8"
| "steps_left Signalled = 7"
| "steps_left NotReady = 6"
| "steps_left Draining = 5"
| "steps_left Drained = 4"
| "steps_left AwaitingRelay = 3"
| "steps_left Returning = 2"
| "steps_left PublisherClosed = 1"
| "steps_left Exited = 0"

text \<open>
  While no listener has failed: readiness and the listener follow the main goroutine, and, while the
  deadline has not passed, what it waited for is over at each point behind the wait.
\<close>

definition flags_ok :: "service_state \<Rightarrow> bool" where
  "flags_ok s \<longleftrightarrow> \<not> err_pending s \<and> (ready s \<longleftrightarrow> 7 \<le> steps_left (at s))
     \<and> (listening s \<longleftrightarrow> 6 \<le> steps_left (at s)) \<and> (at s \<noteq> Selecting \<longrightarrow> stop_done s)"

definition waits_over :: "service_state \<Rightarrow> bool" where
  "waits_over s \<longleftrightarrow> (steps_left (at s) \<le> 4 \<longrightarrow> inflight s = 0) \<and> (steps_left (at s) \<le> 2 \<longrightarrow> \<not> relay_running s)"

definition service_inv :: "service_state \<Rightarrow> bool" where
  "service_inv s \<longleftrightarrow> failed s \<or> flags_ok s \<and> (deadline s \<or> waits_over s)"

lemma service_start_inv: "service_inv (service_start relay rows)"
  by (simp add: service_inv_def flags_ok_def waits_over_def service_start_def)

lemma failed_stays: "service_step a s t \<Longrightarrow> failed s \<Longrightarrow> failed t"
  by (erule service_step.cases) simp_all

lemma deadline_stays: "service_step a s t \<Longrightarrow> deadline s \<Longrightarrow> deadline t"
  by (erule service_step.cases) simp_all

lemma flags_step: "service_step a s t \<Longrightarrow> flags_ok s \<Longrightarrow> failed t \<or> flags_ok t"
  by (erule service_step.cases) (simp_all add: flags_ok_def)

lemma waits_step: "service_step a s t \<Longrightarrow> flags_ok s \<Longrightarrow> waits_over s \<Longrightarrow> deadline t \<or> waits_over t"
  by (erule service_step.cases) (auto simp: flags_ok_def waits_over_def)

lemma service_step_inv: "service_step a s t \<Longrightarrow> service_inv s \<Longrightarrow> service_inv t"
  unfolding service_inv_def using failed_stays deadline_stays flags_step waits_step by metis

lemma service_run_inv: "service_run as s t \<Longrightarrow> service_inv s \<Longrightarrow> service_inv t"
proof (induction rule: service_run.induct)
  case (more a s t as u)
  from more.IH [OF service_step_inv [OF more.hyps(1) more.prems]] show ?case .
qed

lemma service_run_append: "service_run as s t \<Longrightarrow> service_run bs t u \<Longrightarrow> service_run (as @ bs) s u"
  by (induction rule: service_run.induct) (auto intro: service_run.more)

text \<open>After the signal no action lowers the number of unpublished rows.\<close>

lemma service_step_strands: "service_step a s t \<Longrightarrow> stop_done s \<Longrightarrow> stop_done t \<and> unsent s \<le> unsent t"
  by (erule service_step.cases) (auto simp: relay_ctx_done_def)

lemma service_run_strands: "service_run as s t \<Longrightarrow> stop_done s \<Longrightarrow> stop_done t \<and> unsent s \<le> unsent t"
  by (induction rule: service_run.induct) (auto dest: service_step_strands intro: order_trans)

lemma main_step_counts: "service_step Main s t \<Longrightarrow> steps_left (at t) < steps_left (at s)"
  by (erule service_step.cases) auto

lemma other_step_stays: "service_step a s t \<Longrightarrow> a \<noteq> Main \<Longrightarrow> at t = at s"
  by (erule service_step.cases) auto

lemma main_goes_on:
  assumes "stop_done s" "at s \<noteq> Exited" "at s \<in> {Draining, AwaitingRelay} \<longrightarrow> deadline s"
  obtains t where "service_step Main s t"
  using assms by (cases "at s") (blast intro: service_step.intros)+

lemma service_run_one: "service_step a s t \<Longrightarrow> service_run [a] s t"
  by (blast intro: service_run.intros)

lemma stops_eventually:
  assumes "stop_done s"
  shows "\<exists>as t. service_run as s t \<and> at t = Exited \<and> set as \<subseteq> {Main, Deadline}"
  using assms
proof (induction "steps_left (at s)" arbitrary: s rule: less_induct)
  case less
  show ?case
  proof (cases "at s = Exited")
    case True
    then show ?thesis using service_run.none [of s] by (intro exI [where x = "[]"] exI [where x = s]) simp
  next
    case False
    define s1 where "s1 = (if at s \<in> {Draining, AwaitingRelay} then s\<lparr>deadline := True\<rparr> else s)"
    have to_s1: "\<exists>as. service_run as s s1 \<and> set as \<subseteq> {Deadline}"
    proof (cases "at s \<in> {Draining, AwaitingRelay}")
      case True
      then have "service_step Deadline s s1" by (auto simp: s1_def intro: service_step.deadline)
      from service_run_one [OF this] show ?thesis by (rule exI [where x = "[Deadline]", OF conjI]) simp
    next
      case False
      then show ?thesis using service_run.none [of s] by (auto simp: s1_def intro!: exI [where x = "[]"])
    qed
    have s1: "stop_done s1" "at s1 = at s" "at s1 \<in> {Draining, AwaitingRelay} \<longrightarrow> deadline s1"
      using less.prems by (auto simp: s1_def)
    obtain t where t: "service_step Main s1 t" using main_goes_on [OF s1(1) _ s1(3)] False s1(2) by metis
    have "steps_left (at t) < steps_left (at s)" "stop_done t"
      using main_step_counts [OF t] s1 service_step_strands [OF t] by simp_all
    from less.hyps [OF this] obtain as u where "service_run as t u" "at u = Exited" "set as \<subseteq> {Main, Deadline}" by blast
    moreover obtain bs where "service_run bs s s1" "set bs \<subseteq> {Deadline}" using to_s1 by blast
    ultimately have "service_run (bs @ Main # as) s u" "set (bs @ Main # as) \<subseteq> {Main, Deadline}"
      using service_run_append [OF _ service_run.more [OF t]] by auto
    with \<open>at u = Exited\<close> show ?thesis by blast
  qed
qed

section \<open>The projector (cmd/pathmgmt-projector)\<close>

text \<open>
  The main goroutine waits for a signal, flips the gate, shuts the admin server down, cancels the
  consumer's context, waits for its goroutine, and closes first the consumer's reader and writer and
  then the pool. The consumer's context is its own; an error of its loop is only logged, and so is
  one of the admin listener.
\<close>

datatype projector_at = PWaiting | PSignalled | PNotReady | PDraining | PDrained | PAwaiting | PAwaited
  | PConsumerClosed | PExited

record projector_state =
  pat :: projector_at
  gate_ready :: bool
  admin_listening :: bool
  admin_inflight :: nat
  consumer_running :: bool
  consumer_cancelled :: bool
  signal_seen :: bool
  p_deadline :: bool
  handled :: nat

definition projector_start :: projector_state where
  "projector_start = \<lparr>pat = PWaiting, gate_ready = True, admin_listening = True, admin_inflight = 0,
     consumer_running = True, consumer_cancelled = False, signal_seen = False, p_deadline = False, handled = 0\<rparr>"

datatype projector_action = PSignal | PDeadline | PRequest | PAnswer | PListenerFails | PMessage
  | ConsumerFails | ConsumerReturns | PMain

inductive projector_step :: "projector_action \<Rightarrow> projector_state \<Rightarrow> projector_state \<Rightarrow> bool" where
  p_signal: "projector_step PSignal s (s\<lparr>signal_seen := True\<rparr>)"
| p_deadline: "pat s \<in> {PSignalled, PNotReady, PDraining, PDrained, PAwaiting, PAwaited, PConsumerClosed} \<Longrightarrow>
     projector_step PDeadline s (s\<lparr>p_deadline := True\<rparr>)"
| p_request: "admin_listening s \<Longrightarrow> projector_step PRequest s (s\<lparr>admin_inflight := Suc (admin_inflight s)\<rparr>)"
| p_answer: "admin_inflight s > 0 \<Longrightarrow> projector_step PAnswer s (s\<lparr>admin_inflight := admin_inflight s - 1\<rparr>)"
| p_listener: "admin_listening s \<Longrightarrow> projector_step PListenerFails s (s\<lparr>admin_listening := False\<rparr>)"
| p_message: "consumer_running s \<Longrightarrow> \<not> consumer_cancelled s \<Longrightarrow> pat s \<notin> {PConsumerClosed, PExited} \<Longrightarrow>
     projector_step PMessage s (s\<lparr>handled := Suc (handled s)\<rparr>)"
| p_fails: "consumer_running s \<Longrightarrow> projector_step ConsumerFails s (s\<lparr>consumer_running := False\<rparr>)"
| p_returns: "consumer_running s \<Longrightarrow> consumer_cancelled s \<Longrightarrow>
     projector_step ConsumerReturns s (s\<lparr>consumer_running := False\<rparr>)"
| p_stop: "pat s = PWaiting \<Longrightarrow> signal_seen s \<Longrightarrow> projector_step PMain s (s\<lparr>pat := PSignalled\<rparr>)"
| p_not_ready: "pat s = PSignalled \<Longrightarrow> projector_step PMain s (s\<lparr>pat := PNotReady, gate_ready := False\<rparr>)"
| p_shutdown: "pat s = PNotReady \<Longrightarrow> projector_step PMain s (s\<lparr>pat := PDraining, admin_listening := False\<rparr>)"
| p_drained: "pat s = PDraining \<Longrightarrow> admin_inflight s = 0 \<or> p_deadline s \<Longrightarrow> projector_step PMain s (s\<lparr>pat := PDrained\<rparr>)"
| p_cancel: "pat s = PDrained \<Longrightarrow> projector_step PMain s (s\<lparr>pat := PAwaiting, consumer_cancelled := True\<rparr>)"
| p_awaited: "pat s = PAwaiting \<Longrightarrow> \<not> consumer_running s \<or> p_deadline s \<Longrightarrow> projector_step PMain s (s\<lparr>pat := PAwaited\<rparr>)"
| p_close_consumer: "pat s = PAwaited \<Longrightarrow> projector_step PMain s (s\<lparr>pat := PConsumerClosed\<rparr>)"
| p_close_pool: "pat s = PConsumerClosed \<Longrightarrow> projector_step PMain s (s\<lparr>pat := PExited\<rparr>)"

code_pred (modes: i \<Rightarrow> i \<Rightarrow> o \<Rightarrow> bool) projector_step .

inductive projector_run :: "projector_action list \<Rightarrow> projector_state \<Rightarrow> projector_state \<Rightarrow> bool" where
  p_none: "projector_run [] s s"
| p_more: "projector_step a s t \<Longrightarrow> projector_run as t u \<Longrightarrow> projector_run (a # as) s u"

inductive_simps projector_step_simps:
  "projector_step PSignal s t" "projector_step PDeadline s t" "projector_step PRequest s t"
  "projector_step PAnswer s t" "projector_step PListenerFails s t" "projector_step PMessage s t"
  "projector_step ConsumerFails s t" "projector_step ConsumerReturns s t" "projector_step PMain s t"

inductive_simps projector_run_simps: "projector_run [] s t" "projector_run (a # as) s t"

primrec p_left :: "projector_at \<Rightarrow> nat" where
  "p_left PWaiting = 8"
| "p_left PSignalled = 7"
| "p_left PNotReady = 6"
| "p_left PDraining = 5"
| "p_left PDrained = 4"
| "p_left PAwaiting = 3"
| "p_left PAwaited = 2"
| "p_left PConsumerClosed = 1"
| "p_left PExited = 0"

definition p_flags :: "projector_state \<Rightarrow> bool" where
  "p_flags s \<longleftrightarrow> (gate_ready s \<longleftrightarrow> 7 \<le> p_left (pat s)) \<and> (p_left (pat s) \<le> 5 \<longrightarrow> \<not> admin_listening s)
     \<and> (consumer_cancelled s \<longleftrightarrow> p_left (pat s) \<le> 3) \<and> (pat s \<noteq> PWaiting \<longrightarrow> signal_seen s)"

definition p_waits :: "projector_state \<Rightarrow> bool" where
  "p_waits s \<longleftrightarrow> (p_left (pat s) \<le> 4 \<longrightarrow> admin_inflight s = 0) \<and> (p_left (pat s) \<le> 2 \<longrightarrow> \<not> consumer_running s)"

definition projector_inv :: "projector_state \<Rightarrow> bool" where
  "projector_inv s \<longleftrightarrow> p_flags s \<and> (p_deadline s \<or> p_waits s)"

lemma projector_start_inv: "projector_inv projector_start"
  by (simp add: projector_inv_def p_flags_def p_waits_def projector_start_def)

lemma p_deadline_stays: "projector_step a s t \<Longrightarrow> p_deadline s \<Longrightarrow> p_deadline t"
  by (erule projector_step.cases) simp_all

lemma p_flags_step: "projector_step a s t \<Longrightarrow> p_flags s \<Longrightarrow> p_flags t"
  by (erule projector_step.cases) (simp_all add: p_flags_def)

lemma p_waits_step: "projector_step a s t \<Longrightarrow> p_flags s \<Longrightarrow> p_waits s \<Longrightarrow> p_deadline t \<or> p_waits t"
  by (erule projector_step.cases) (auto simp: p_flags_def p_waits_def)

lemma projector_step_inv: "projector_step a s t \<Longrightarrow> projector_inv s \<Longrightarrow> projector_inv t"
  unfolding projector_inv_def using p_deadline_stays p_flags_step p_waits_step by metis

lemma projector_run_inv: "projector_run as s t \<Longrightarrow> projector_inv s \<Longrightarrow> projector_inv t"
proof (induction rule: projector_run.induct)
  case (p_more a s t as u)
  from p_more.IH [OF projector_step_inv [OF p_more.hyps(1) p_more.prems]] show ?case .
qed

text \<open>A consumer that has stopped stays stopped, and without a signal the gate stays ready.\<close>

lemma stopped_step:
  "projector_step a s t \<Longrightarrow> a \<noteq> PSignal \<Longrightarrow> \<not> consumer_running s \<Longrightarrow> \<not> signal_seen s \<Longrightarrow> pat s = PWaiting \<Longrightarrow>
     \<not> consumer_running t \<and> \<not> signal_seen t \<and> pat t = PWaiting \<and> handled t = handled s \<and> gate_ready t = gate_ready s"
  by (erule projector_step.cases) simp_all

lemma stopped_run:
  "projector_run as s t \<Longrightarrow> PSignal \<notin> set as \<Longrightarrow> \<not> consumer_running s \<Longrightarrow> \<not> signal_seen s \<Longrightarrow> pat s = PWaiting \<Longrightarrow>
     \<not> consumer_running t \<and> \<not> signal_seen t \<and> pat t = PWaiting \<and> handled t = handled s \<and> gate_ready t = gate_ready s"
proof (induction rule: projector_run.induct)
  case (p_more a s t as u)
  from stopped_step [OF p_more.hyps(1) _ p_more.prems(2-4)] p_more.IH p_more.prems(1) show ?case by auto
qed simp

section \<open>The two plain servers (cmd/mcp, cmd/pathmgmt-reports)\<close>

text \<open>
  Both wait, shut their HTTP server down within a deadline and close their pool on return. The MCP
  server also returns when its listener fails; the reports process only logs that.
\<close>

datatype server_at = Waiting | ShuttingDown | Gone

record server_state =
  sat :: server_at
  s_listening :: bool
  s_inflight :: nat
  s_error :: bool
  s_signal :: bool
  s_deadline :: bool

definition server_start :: server_state where
  "server_start = \<lparr>sat = Waiting, s_listening = True, s_inflight = 0, s_error = False, s_signal = False,
     s_deadline = False\<rparr>"

datatype server_action = SSignal | SDeadline | SRequest | SAnswer | SListenerFails | SMain

inductive mcp_step :: "server_action \<Rightarrow> server_state \<Rightarrow> server_state \<Rightarrow> bool" where
  m_signal: "mcp_step SSignal s (s\<lparr>s_signal := True\<rparr>)"
| m_deadline: "sat s = ShuttingDown \<Longrightarrow> mcp_step SDeadline s (s\<lparr>s_deadline := True\<rparr>)"
| m_request: "s_listening s \<Longrightarrow> mcp_step SRequest s (s\<lparr>s_inflight := Suc (s_inflight s)\<rparr>)"
| m_answer: "s_inflight s > 0 \<Longrightarrow> mcp_step SAnswer s (s\<lparr>s_inflight := s_inflight s - 1\<rparr>)"
| m_listener: "s_listening s \<Longrightarrow> mcp_step SListenerFails s (s\<lparr>s_listening := False, s_error := True\<rparr>)"
| m_error: "sat s = Waiting \<Longrightarrow> s_error s \<Longrightarrow> mcp_step SMain s (s\<lparr>sat := Gone\<rparr>)"
| m_stop: "sat s = Waiting \<Longrightarrow> s_signal s \<Longrightarrow> mcp_step SMain s (s\<lparr>sat := ShuttingDown, s_listening := False\<rparr>)"
| m_drained: "sat s = ShuttingDown \<Longrightarrow> s_inflight s = 0 \<or> s_deadline s \<Longrightarrow> mcp_step SMain s (s\<lparr>sat := Gone\<rparr>)"

inductive reports_step :: "server_action \<Rightarrow> server_state \<Rightarrow> server_state \<Rightarrow> bool" where
  r_signal: "reports_step SSignal s (s\<lparr>s_signal := True\<rparr>)"
| r_deadline: "sat s = ShuttingDown \<Longrightarrow> reports_step SDeadline s (s\<lparr>s_deadline := True\<rparr>)"
| r_request: "s_listening s \<Longrightarrow> reports_step SRequest s (s\<lparr>s_inflight := Suc (s_inflight s)\<rparr>)"
| r_answer: "s_inflight s > 0 \<Longrightarrow> reports_step SAnswer s (s\<lparr>s_inflight := s_inflight s - 1\<rparr>)"
| r_listener: "s_listening s \<Longrightarrow> reports_step SListenerFails s (s\<lparr>s_listening := False\<rparr>)"
| r_stop: "sat s = Waiting \<Longrightarrow> s_signal s \<Longrightarrow> reports_step SMain s (s\<lparr>sat := ShuttingDown, s_listening := False\<rparr>)"
| r_drained: "sat s = ShuttingDown \<Longrightarrow> s_inflight s = 0 \<or> s_deadline s \<Longrightarrow> reports_step SMain s (s\<lparr>sat := Gone\<rparr>)"

code_pred (modes: i \<Rightarrow> i \<Rightarrow> o \<Rightarrow> bool) mcp_step .
code_pred (modes: i \<Rightarrow> i \<Rightarrow> o \<Rightarrow> bool) reports_step .

inductive server_run :: "(server_action \<Rightarrow> server_state \<Rightarrow> server_state \<Rightarrow> bool) \<Rightarrow> server_action list
    \<Rightarrow> server_state \<Rightarrow> server_state \<Rightarrow> bool" for step where
  s_none: "server_run step [] s s"
| s_more: "step a s t \<Longrightarrow> server_run step as t u \<Longrightarrow> server_run step (a # as) s u"

inductive_simps server_step_simps:
  "mcp_step SListenerFails s t" "mcp_step SMain s t" "reports_step SListenerFails s t" "reports_step SMain s t"
  "reports_step SSignal s t" "reports_step SRequest s t" "reports_step SAnswer s t"

inductive_simps server_run_simps: "server_run step [] s t" "server_run step (a # as) s t"

text \<open>While nothing has been signalled the reports process waits, and a lost listener stays lost.\<close>

definition unsignalled :: "server_state \<Rightarrow> bool" where
  "unsignalled s \<longleftrightarrow> sat s = Waiting \<and> \<not> s_signal s"

lemma reports_step_waits:
  "reports_step a s t \<Longrightarrow> a \<noteq> SSignal \<Longrightarrow> unsignalled s \<Longrightarrow> unsignalled t \<and> (s_listening t \<longrightarrow> s_listening s)"
  by (erule reports_step.cases) (simp_all add: unsignalled_def)

lemma reports_run_waits:
  "server_run reports_step as s t \<Longrightarrow> SSignal \<notin> set as \<Longrightarrow> unsignalled s \<Longrightarrow>
     unsignalled t \<and> (s_listening t \<longrightarrow> s_listening s)"
proof (induction rule: server_run.induct)
  case (s_more a s t as u)
  from reports_step_waits [OF s_more.hyps(1) _ s_more.prems(2)] s_more.IH s_more.prems(1) show ?case by auto
qed simp

text \<open>The flags of both servers, and that both stop serving before they are gone.\<close>

definition server_inv :: "server_state \<Rightarrow> bool" where
  "server_inv s \<longleftrightarrow> (sat s \<noteq> Waiting \<longrightarrow> \<not> s_listening s) \<and> (s_error s \<longrightarrow> \<not> s_listening s)
     \<and> (sat s = Gone \<longrightarrow> s_error s \<or> s_deadline s \<or> s_inflight s = 0)"

lemma mcp_step_inv: "mcp_step a s t \<Longrightarrow> server_inv s \<Longrightarrow> server_inv t"
  by (erule mcp_step.cases) (auto simp: server_inv_def)

lemma reports_step_inv: "reports_step a s t \<Longrightarrow> server_inv s \<Longrightarrow> server_inv t"
  by (erule reports_step.cases) (auto simp: server_inv_def)

lemma server_run_inv:
  assumes "\<And>a s t. step a s t \<Longrightarrow> server_inv s \<Longrightarrow> server_inv t"
  shows "server_run step as s t \<Longrightarrow> server_inv s \<Longrightarrow> server_inv t"
  by (induction rule: server_run.induct) (use assms in blast)+

lemma server_start_inv: "server_inv server_start"
  by (simp add: server_inv_def server_start_def)

lemma mcp_run_inv: "server_run mcp_step as server_start s \<Longrightarrow> server_inv s"
  using server_run_inv [where step = mcp_step and as = as and s = server_start and t = s] mcp_step_inv server_start_inv
  by blast

lemma reports_run_inv: "server_run reports_step as server_start s \<Longrightarrow> server_inv s"
  using server_run_inv [where step = reports_step and as = as and s = server_start and t = s] reports_step_inv server_start_inv
  by blast

end
