(* ===== verification/LifecycleClaims.thy ===== *)
theory LifecycleClaims
  imports Lifecycle
begin

text \<open>
  The properties of a stop: in which order the parts of a process stop, that a signal always leads to
  an exit, and where the order is not the intended one.
\<close>

section \<open>The transactional service\<close>

text \<open>
  C32. A graceful stop keeps its order: in every run in which no listener failed, the process reports
  not ready before it stops listening; and unless the shutdown deadline passed first, the publisher
  and the pool are closed only when no request is in flight and the relay has returned.
\<close>

theorem graceful_stop:
  assumes "service_run as (service_start relay rows) s" "\<not> failed s"
  shows "(ready s \<longrightarrow> listening s) \<and> (\<not> listening s \<longrightarrow> \<not> ready s \<and> stop_done s)
    \<and> (\<not> deadline s \<longrightarrow> \<not> publisher_open s \<longrightarrow> inflight s = 0 \<and> \<not> relay_running s \<and> \<not> ready s)
    \<and> (\<not> pool_open s \<longrightarrow> \<not> publisher_open s)"
proof -
  have "service_inv s" using service_run_inv [OF assms(1) service_start_inv] .
  with assms(2) have flags: "flags_ok s" and waits: "deadline s \<or> waits_over s" by (auto simp: service_inv_def)
  from flags waits show ?thesis
    by (cases "at s") (auto simp: flags_ok_def waits_over_def publisher_open_def pool_open_def)
qed

text \<open>A run with one request and the relay: served, signalled, drained, stopped.\<close>

definition quiet_stop :: "service_action list" where
  "quiet_stop = [Request, Answer 1, RelayPass 1, Signal, Main, Main, Main, Main, Main, RelayReturns, Main, Main, Main]"

lemma graceful_stop_witness:
  "\<exists>s. service_run quiet_stop (service_start True 0) s \<and> at s = Exited \<and> unsent s = 0
     \<and> inflight s = 0 \<and> \<not> relay_running s \<and> \<not> ready s"
proof -
  have "\<exists>s. service_run quiet_stop (service_start True 0) s \<and> \<not> failed s \<and> \<not> deadline s \<and> at s = Exited \<and> unsent s = 0"
    by (simp add: quiet_stop_def run_simps step_simps service_start_def relay_ctx_done_def pool_open_def publisher_open_def)
  then obtain s where "service_run quiet_stop (service_start True 0) s" "\<not> failed s" "\<not> deadline s" "at s = Exited"
    "unsent s = 0" by blast
  with graceful_stop [of quiet_stop True 0 s] show ?thesis by (auto simp: publisher_open_def)
qed


definition stuck_service :: service_state where
  "stuck_service = (service_start True 3)\<lparr>at := Draining, stop_done := True, ready := False, listening := False, inflight := 2\<rparr>"




text \<open>
  A listener error is not a graceful stop: the process closes the publisher and then the pool while
  the relay still runs, a request is in flight and \<open>/readyz\<close> would still report ready.
\<close>

theorem listener_error_abandons:
  "\<exists>as s. service_run as (service_start True 0) s \<and> \<not> pool_open s \<and> relay_running s \<and> inflight s = 1 \<and> ready s"
proof -
  have "\<exists>s. service_run [Request, ListenerFails, Main, Main, Main] (service_start True 0) s
      \<and> \<not> pool_open s \<and> relay_running s \<and> inflight s = 1 \<and> ready s"
    by (simp add: run_simps step_simps service_start_def pool_open_def)
  then show ?thesis by blast
qed

section \<open>The projector\<close>

text \<open>
  The projector stops in order: it reports not ready before it stops listening or cancels the
  consumer, and unless the deadline passed first, it closes the consumer's connections and the pool
  only after the consumer's loop has returned and every admin request has been answered.
\<close>

theorem projector_stop:
  assumes "projector_run as projector_start s"
  shows "(consumer_cancelled s \<longrightarrow> \<not> gate_ready s \<and> signal_seen s)
    \<and> (pat s \<in> {PConsumerClosed, PExited} \<longrightarrow> \<not> gate_ready s \<and> \<not> admin_listening s
         \<and> (p_deadline s \<or> \<not> consumer_running s \<and> admin_inflight s = 0))"
proof -
  have "projector_inv s" using projector_run_inv [OF assms projector_start_inv] .
  then show ?thesis by (cases "pat s") (auto simp: projector_inv_def p_flags_def p_waits_def)
qed

lemma projector_stop_witness:
  "\<exists>s. projector_run [PMessage, PSignal, PMain, PMain, PMain, PMain, PMain, ConsumerReturns, PMain, PMain, PMain]
       projector_start s \<and> pat s = PExited \<and> \<not> gate_ready s \<and> \<not> consumer_running s"
proof -
  let ?run = "[PMessage, PSignal, PMain, PMain, PMain, PMain, PMain, ConsumerReturns, PMain, PMain, PMain]"
  have "\<exists>s. projector_run ?run projector_start s \<and> pat s = PExited \<and> \<not> p_deadline s"
    by (simp add: projector_run_simps projector_step_simps projector_start_def)
  then obtain s where "projector_run ?run projector_start s" "pat s = PExited" "\<not> p_deadline s" by blast
  with projector_stop [of ?run s] show ?thesis by auto
qed

text \<open>
  A projector whose consumer has stopped looks healthy: the loop can end with an error while
  nothing has been signalled, and from then on, until a signal comes, no message is handled and the
  gate keeps reporting ready.
\<close>

theorem projector_ready_while_stopped:
  "(\<exists>s. projector_run [PMessage, ConsumerFails] projector_start s \<and> \<not> consumer_running s \<and> gate_ready s
      \<and> admin_listening s)
   \<and> (\<forall>as bs s t. projector_run as projector_start s \<longrightarrow> \<not> consumer_running s \<longrightarrow> \<not> signal_seen s \<longrightarrow>
        projector_run bs s t \<longrightarrow> PSignal \<notin> set bs \<longrightarrow>
        handled t = handled s \<and> gate_ready t \<and> \<not> consumer_running t)"
proof (intro conjI allI impI)
  show "\<exists>s. projector_run [PMessage, ConsumerFails] projector_start s \<and> \<not> consumer_running s \<and> gate_ready s
      \<and> admin_listening s"
    by (simp add: projector_run_simps projector_step_simps projector_start_def)
next
  fix as bs s t
  assume run: "projector_run as projector_start s" and stopped: "\<not> consumer_running s" "\<not> signal_seen s"
    and on: "projector_run bs s t" "PSignal \<notin> set bs"
  have "p_flags s" using projector_run_inv [OF run projector_start_inv] by (simp add: projector_inv_def)
  then have "pat s = PWaiting" "gate_ready s" using stopped by (auto simp: p_flags_def)
  with stopped_run [OF on stopped] show "handled t = handled s" "gate_ready t" "\<not> consumer_running t" by simp_all
qed

lemma projector_ready_while_stopped_witness:
  "\<exists>s. projector_run [PMessage, ConsumerFails] projector_start s \<and> gate_ready s \<and> handled s = 1
     \<and> (\<forall>t. projector_run [PRequest, PAnswer] s t \<longrightarrow> gate_ready t \<and> handled t = 1)"
proof -
  obtain s where s: "projector_run [PMessage, ConsumerFails] projector_start s" "gate_ready s" "handled s = 1"
      "\<not> consumer_running s" "\<not> signal_seen s"
    by (simp add: projector_run_simps projector_step_simps projector_start_def)
  have "gate_ready t \<and> handled t = 1" if "projector_run [PRequest, PAnswer] s t" for t
    using projector_ready_while_stopped [THEN conjunct2, rule_format, OF s(1,4,5) that] s(3) by simp
  with s show ?thesis by blast
qed

section \<open>The two plain servers\<close>

text \<open>
  A process of either kind that is gone has stopped listening and has answered every request, unless its
  deadline passed or, for the MCP server, its listener failed.
\<close>

theorem servers_stop:
  "(server_run mcp_step as server_start s \<and> sat s = Gone \<longrightarrow>
      \<not> s_listening s \<and> (s_error s \<or> s_deadline s \<or> s_inflight s = 0))
   \<and> (server_run reports_step as server_start s \<and> sat s = Gone \<longrightarrow>
      \<not> s_listening s \<and> (s_deadline s \<or> s_inflight s = 0))"
proof -
  have "\<not> s_error s" if "server_run reports_step as server_start s"
  proof -
    have "server_run reports_step bs u v \<Longrightarrow> \<not> s_error u \<Longrightarrow> \<not> s_error v" for bs u v
      by (induction rule: server_run.induct) (auto elim: reports_step.cases)
    with that show ?thesis by (simp add: server_start_def)
  qed
  with mcp_run_inv [of as s] reports_run_inv [of as s] show ?thesis by (auto simp: server_inv_def)
qed

text \<open>
  A reports process that cannot listen does not exit: the failure is only logged, and until a signal
  comes it waits and takes no request. The MCP server returns at its next step.
\<close>

theorem reports_waits_without_listener:
  "(\<exists>s. server_run mcp_step [SListenerFails, SMain] server_start s \<and> sat s = Gone)
   \<and> (\<forall>as s. server_run reports_step (SListenerFails # as) server_start s \<longrightarrow> SSignal \<notin> set as \<longrightarrow>
        sat s = Waiting \<and> \<not> s_listening s)"
proof (intro conjI allI impI)
  show "\<exists>s. server_run mcp_step [SListenerFails, SMain] server_start s \<and> sat s = Gone"
    by (simp add: server_run_simps server_step_simps server_start_def)
next
  fix as s assume run: "server_run reports_step (SListenerFails # as) server_start s" and "SSignal \<notin> set as"
  from run obtain t where t: "reports_step SListenerFails server_start t" "server_run reports_step as t s"
    by (auto simp: server_run_simps)
  then have "unsignalled t" "\<not> s_listening t"
    by (auto simp: server_step_simps unsignalled_def server_start_def)
  with reports_run_waits [OF t(2) \<open>SSignal \<notin> set as\<close>]
  show "sat s = Waiting" "\<not> s_listening s" by (auto simp: unsignalled_def)
qed

end
