(* ===== verification/Telemetry.thy ===== *)
theory Telemetry
  imports Boot
begin

text \<open>
  The telemetry adapter: the set-up of the OpenTelemetry providers with its error paths, the counter of
  path definitions, the log handler that stamps trace ids over the JSON handler of \<open>slog\<close>, and the
  middleware that logs requests. What the OpenTelemetry SDK does is a parameter.
\<close>

section \<open>Set-up and shutdown (telemetry.go)\<close>

text \<open>
  The SDK: \<open>'o\<close> is its state, \<open>'x\<close> a resource, \<open>'e\<close> an exporter, \<open>'t\<close> a tracer or meter provider.
  \<open>o_Merge\<close> is \<open>resource.Merge\<close> of the default resource and the three attributes.
\<close>

record ('o, 'x, 'e, 't) otel =
  o_Merge :: "string \<Rightarrow> string \<Rightarrow> string \<Rightarrow> err + 'x"
  o_traceExporter :: "string \<Rightarrow> ('o, 'e) io"
  o_metricExporter :: "string \<Rightarrow> ('o, 'e) io"
  o_TracerProvider :: "'e \<Rightarrow> 'x \<Rightarrow> 'o \<Rightarrow> 't \<times> 'o"
  o_MeterProvider :: "'x \<Rightarrow> 'e \<Rightarrow> duration \<Rightarrow> 'o \<Rightarrow> 't \<times> 'o"
  o_SetTracerProvider :: "'t \<Rightarrow> 'o \<Rightarrow> 'o"
  o_SetMeterProvider :: "'t \<Rightarrow> 'o \<Rightarrow> 'o"
  o_SetTextMapPropagator :: "string list \<Rightarrow> 'o \<Rightarrow> 'o"
  o_runtime_Start :: "'t \<Rightarrow> ('o, unit) io"
  o_Shutdown :: "'t \<Rightarrow> 'o \<Rightarrow> err option \<times> 'o"

definition DefaultOTLPEndpoint :: string where
  "DefaultOTLPEndpoint = ''localhost:4317''"

definition metricExportInterval :: duration where
  "metricExportInterval = 30 * 1000000000"

definition newResource ::
    "('w, 'm, 'p) boot_env \<Rightarrow> ('o, 'x, 'e, 't) otel \<Rightarrow> string \<Rightarrow> string \<Rightarrow> err + 'x" where
  "newResource B T serviceName version = o_Merge T serviceName version (Environment B)"

text \<open>Both providers are shut down, whatever the first one answers.\<close>

definition shutdown_both :: "('o, 'x, 'e, 't) otel \<Rightarrow> 't \<Rightarrow> 't \<Rightarrow> 'o \<Rightarrow> err option list \<times> 'o" where
  "shutdown_both T tracer meter o0 =
     (case o_Shutdown T tracer o0 of (e1, o1) \<Rightarrow>
        (case o_Shutdown T meter o1 of (e2, o2) \<Rightarrow> ([e1, e2], o2)))"

definition install :: "('o, 'x, 'e, 't) otel \<Rightarrow> 't \<Rightarrow> 't \<Rightarrow> 'o \<Rightarrow> 'o" where
  "install T tracer meter o0 = o_SetTextMapPropagator T [''tracecontext'', ''baggage'']
     (o_SetMeterProvider T meter (o_SetTracerProvider T tracer o0))"

definition Setup :: "('w, 'm, 'p) boot_env \<Rightarrow> ('o, 'x, 'e, 't) otel \<Rightarrow> string \<Rightarrow> string \<Rightarrow> string
    \<Rightarrow> ('o, 'o \<Rightarrow> err option \<times> 'o) io" where
  "Setup B T serviceName version otlpEndpoint = (\<lambda>o0.
     let endpoint = (if otlpEndpoint = '''' then DefaultOTLPEndpoint else otlpEndpoint) in
     case newResource B T serviceName version of
       Inl e \<Rightarrow> (Inl e, o0)
     | Inr res \<Rightarrow>
         (case o_traceExporter T endpoint o0 of
            (Inl e, o1) \<Rightarrow> (Inl e, o1)
          | (Inr traces, o1) \<Rightarrow>
              (case o_TracerProvider T traces res o1 of (tracer, o2) \<Rightarrow>
                 (case o_metricExporter T endpoint o2 of
                    (Inl e, o3) \<Rightarrow> (case o_Shutdown T tracer o3 of (s, o4) \<Rightarrow> (Inl (joined e [s]), o4))
                  | (Inr metrics, o3) \<Rightarrow>
                      (case o_MeterProvider T res metrics metricExportInterval o3 of (meter, o4) \<Rightarrow>
                         (case o_runtime_Start T meter (install T tracer meter o4) of
                            (Inl e, o5) \<Rightarrow> (case shutdown_both T tracer meter o5 of
                               (ss, o6) \<Rightarrow> (Inl (joined e ss), o6))
                          | (Inr _, o5) \<Rightarrow> (Inr (\<lambda>v. case shutdown_both T tracer meter v of
                               (ss, v') \<Rightarrow> (errors_Join ss, v')), o5)))))))"

section \<open>The counter of path definitions (metrics.go)\<close>

definition meterName :: string where
  "meterName = ''github.com/claudioed/process-path-management''"

definition pathDefinitionCounterName :: string where
  "pathDefinitionCounterName = ''process_path_management.paths.defined''"

definition outcomeKey :: string where "outcomeKey = ''outcome''"
definition outcomeAccepted :: string where "outcomeAccepted = ''accepted''"
definition outcomeRejected :: string where "outcomeRejected = ''rejected''"

text \<open>The SDK's instruments; a \<open>nil\<close> receiver is \<open>None\<close>.\<close>

record ('o, 'c) instruments =
  i_Int64Counter :: "string \<Rightarrow> string \<Rightarrow> ('o, 'c) io"
  i_Add :: "'c \<Rightarrow> int \<Rightarrow> (string \<times> string) list \<Rightarrow> 'o \<Rightarrow> 'o"

definition NewPathMetrics :: "('o, 'c) instruments \<Rightarrow> ('o, 'c) io" where
  "NewPathMetrics I = i_Int64Counter I meterName pathDefinitionCounterName"

definition metrics_record :: "('o, 'c) instruments \<Rightarrow> 'c \<Rightarrow> string \<Rightarrow> 'o \<Rightarrow> 'o" where
  "metrics_record I c outcome = i_Add I c 1 [(outcomeKey, outcome)]"

definition metrics_Accepted :: "('o, 'c) instruments \<Rightarrow> 'c option \<Rightarrow> 'o \<Rightarrow> 'o" where
  "metrics_Accepted I m o0 = (case m of None \<Rightarrow> o0 | Some c \<Rightarrow> metrics_record I c outcomeAccepted o0)"

definition metrics_Rejected :: "('o, 'c) instruments \<Rightarrow> 'c option \<Rightarrow> 'o \<Rightarrow> 'o" where
  "metrics_Rejected I m o0 = (case m of None \<Rightarrow> o0 | Some c \<Rightarrow> metrics_record I c outcomeRejected o0)"

section \<open>Log handlers\<close>

text \<open>
  \<open>slog.Handler\<close>: \<open>With\<close> and \<open>WithGroup\<close> make new handlers, any number of times, so it is a codatatype.
  \<open>'c\<close> is the context; an attribute is a key and the text of its value.
\<close>

type_synonym attr = "string \<times> string"

record log_record =
  lr_level :: log_level
  lr_message :: string
  lr_attrs :: "attr list"

codatatype ('c, 'w) slog_handler = SlogHandler
  (hd_Enabled: "'c \<Rightarrow> log_level \<Rightarrow> bool")
  (hd_Handle: "'c \<Rightarrow> log_record \<Rightarrow> ('w, unit) io")
  (hd_WithAttrs: "attr list \<Rightarrow> ('c, 'w) slog_handler")
  (hd_WithGroup: "string \<Rightarrow> ('c, 'w) slog_handler")

text \<open>
  The JSON handler of \<open>log/slog\<close>: a line has the level, the message and the attributes, each under
  the names of the groups that were open when it was added. An empty group name opens no group.
\<close>

record log_line =
  ll_level :: log_level
  ll_message :: string
  ll_attrs :: "(string list \<times> attr) list"

fun level_number :: "log_level \<Rightarrow> int" where
  "level_number LevelDebug = -4"
| "level_number LevelInfo = 0"
| "level_number LevelWarn = 4"
| "level_number LevelError = 8"

primcorec JSONHandler :: "log_level \<Rightarrow> (log_line \<Rightarrow> ('w, unit) io) \<Rightarrow> string list \<Rightarrow> (string list \<times> attr) list
    \<Rightarrow> ('c, 'w) slog_handler" where
  "hd_Enabled (JSONHandler lvl write groups attrs) = (\<lambda>c l. level_number lvl \<le> level_number l)"
| "hd_Handle (JSONHandler lvl write groups attrs) = (\<lambda>c r. write \<lparr>ll_level = lr_level r,
     ll_message = lr_message r, ll_attrs = attrs @ map (Pair groups) (lr_attrs r)\<rparr>)"
| "hd_WithAttrs (JSONHandler lvl write groups attrs) =
     (\<lambda>as. JSONHandler lvl write groups (attrs @ map (Pair groups) as))"
| "hd_WithGroup (JSONHandler lvl write groups attrs) =
     (\<lambda>g. JSONHandler lvl write (if g = '''' then groups else groups @ [g]) attrs)"

section \<open>Trace correlation (slogotel.go)\<close>

text \<open>What \<open>trace.SpanContextFromContext\<close> finds in a context.\<close>

record span_context =
  sc_valid :: bool
  sc_TraceID :: string
  sc_SpanID :: string

definition traceIDKey :: string where "traceIDKey = ''trace_id''"
definition spanIDKey :: string where "spanIDKey = ''span_id''"

definition stamped :: "span_context \<Rightarrow> log_record \<Rightarrow> log_record" where
  "stamped sc r = (if sc_valid sc
     then r\<lparr>lr_attrs := lr_attrs r @ [(traceIDKey, sc_TraceID sc), (spanIDKey, sc_SpanID sc)]\<rparr> else r)"

primcorec TraceHandler :: "('c \<Rightarrow> span_context) \<Rightarrow> ('c, 'w) slog_handler \<Rightarrow> ('c, 'w) slog_handler" where
  "hd_Enabled (TraceHandler span inner) = hd_Enabled inner"
| "hd_Handle (TraceHandler span inner) = (\<lambda>c r. hd_Handle inner c (stamped (span c) r))"
| "hd_WithAttrs (TraceHandler span inner) = (\<lambda>as. TraceHandler span (hd_WithAttrs inner as))"
| "hd_WithGroup (TraceHandler span inner) = (\<lambda>g. TraceHandler span (hd_WithGroup inner g))"

definition NewTraceHandler :: "('c \<Rightarrow> span_context) \<Rightarrow> ('c, 'w) slog_handler \<Rightarrow> ('c, 'w) slog_handler" where
  "NewTraceHandler = TraceHandler"

text \<open>The loggers of the transactional roots, and the plain ones of the analytical roots.\<close>

definition newLogger :: "('w, 'm, 'p) boot_env \<Rightarrow> ('c \<Rightarrow> span_context) \<Rightarrow> (log_line \<Rightarrow> ('l, unit) io)
    \<Rightarrow> string \<Rightarrow> ('c, 'l) slog_handler" where
  "newLogger B span stdout level = NewTraceHandler span (JSONHandler (log_level_of B level) stdout [] [])"

definition analytics_newLogger :: "('w, 'm, 'p) boot_env \<Rightarrow> (log_line \<Rightarrow> ('l, unit) io)
    \<Rightarrow> string \<Rightarrow> ('c, 'l) slog_handler" where
  "analytics_newLogger B stdout level = JSONHandler (analytics_log_level_of B level) stdout [] []"

text \<open>\<open>Logger.InfoContext\<close>: the record is handled when its level is enabled, and an error is dropped.\<close>

definition InfoContext :: "('c, 'w) slog_handler \<Rightarrow> 'c \<Rightarrow> string \<Rightarrow> attr list \<Rightarrow> 'w \<Rightarrow> 'w" where
  "InfoContext h c message attrs w =
     (if hd_Enabled h c LevelInfo
      then snd (hd_Handle h c \<lparr>lr_level = LevelInfo, lr_message = message, lr_attrs = attrs\<rparr> w) else w)"

text \<open>The handler of a logger derived by \<open>With\<close> and \<open>WithGroup\<close>.\<close>

datatype derivation = With "attr list" | WithGroup string

fun derive :: "('c, 'w) slog_handler \<Rightarrow> derivation list \<Rightarrow> ('c, 'w) slog_handler" where
  "derive h [] = h"
| "derive h (With as # ds) = derive (hd_WithAttrs h as) ds"
| "derive h (WithGroup g # ds) = derive (hd_WithGroup h g) ds"

section \<open>The request log (http/logging.go)\<close>

text \<open>
  The middleware around a handler that answers (\<open>Recoverer\<close> is inside it). The route pattern of a request
  and its id are what chi and its middleware put in the request's context; \<open>now\<close> is the clock.
\<close>

record request_log =
  rg_method :: string
  rg_route :: string
  rg_status :: int
  rg_bytes :: nat
  rg_duration_ms :: int
  rg_request_id :: string

definition RequestLogger :: "(request_log \<Rightarrow> 'w \<Rightarrow> 'w) \<Rightarrow> (http_request \<Rightarrow> string option) \<Rightarrow> (http_request \<Rightarrow> string)
    \<Rightarrow> ('w \<Rightarrow> time \<times> 'w) \<Rightarrow> 'w handler \<Rightarrow> 'w handler" where
  "RequestLogger info pattern reqid now next_handler c r w =
     (case now w of (start, w1) \<Rightarrow>
        (case next_handler c r w1 of (resp, w2) \<Rightarrow>
           (case now w2 of (end_time, w3) \<Rightarrow>
              (resp, info \<lparr>rg_method = rq_method r, rg_route = chiRoutePattern (pattern r) r,
                 rg_status = rs_status resp, rg_bytes = length (rs_body resp),
                 rg_duration_ms = (end_time - start) sdiv 1000000, rg_request_id = reqid r\<rparr> w3))))"

section \<open>The transactional service from start to exit (cmd/pathmgmt)\<close>

definition DefaultServiceName :: string where
  "DefaultServiceName = ''process-path-management''"

definition setupTelemetry :: "('w, 'm, 'p) boot_env \<Rightarrow> ('o, 'x, 'e, 't) otel \<Rightarrow> string
    \<Rightarrow> ('o, string \<times> ('o \<Rightarrow> err option \<times> 'o)) io" where
  "setupTelemetry B T version = (\<lambda>o0.
     let serviceName = getenv B ''OTEL_SERVICE_NAME'' DefaultServiceName in
     case Setup B T serviceName (serviceVersion B version)
            (getenv B ''OTEL_EXPORTER_OTLP_ENDPOINT'' DefaultOTLPEndpoint) o0 of
       (Inl e, o1) \<Rightarrow> (Inl e, o1)
     | (Inr shutdown, o1) \<Rightarrow> (Inr (serviceName, shutdown), o1))"

text \<open>The same in \<open>cmd/mcp\<close>, under its own name and without a version of the build.\<close>

definition mcp_setupTelemetry :: "('w, 'm, 'p) boot_env \<Rightarrow> ('o, 'x, 'e, 't) otel
    \<Rightarrow> ('o, 'o \<Rightarrow> err option \<times> 'o) io" where
  "mcp_setupTelemetry B T = Setup B T (getenv B ''OTEL_SERVICE_NAME'' ''process-path-management-mcp'')
     (getenv B ''SERVICE_VERSION'' ''dev'') (getenv B ''OTEL_EXPORTER_OTLP_ENDPOINT'' DefaultOTLPEndpoint)"

text \<open>The deferred closes: an error of a writer is logged and the next one is still closed.\<close>

definition close_writers :: "(kafka_writer \<Rightarrow> ('w, unit) io) \<Rightarrow> kafka_writer list \<Rightarrow> 'w \<Rightarrow> 'w" where
  "close_writers close ks w = fold (\<lambda>k v. snd (close k v)) ks w"

text \<open>
  \<open>run\<close>: what is deferred runs in reverse order on every way out, the telemetry last. \<open>serveHTTP\<close> is a parameter,
  whose steps are the subject of the theory \<open>Lifecycle\<close>.
\<close>

definition pathmgmt_run ::
    "('w, 'm, 'p) boot_env \<Rightarrow> ('o, 'x, 'e, 't) otel \<Rightarrow> ('o, 'c) instruments \<Rightarrow> (kafka_writer \<Rightarrow> ('w, unit) io)
     \<Rightarrow> string \<Rightarrow> ('p service \<Rightarrow> 'c \<Rightarrow> string \<Rightarrow> ('w \<times> 'o, unit) io) \<Rightarrow> ('w \<times> 'o, unit) io" where
  "pathmgmt_run B T I close version serveHTTP = (\<lambda>(w, o0).
     case setupTelemetry B T version o0 of
       (Inl e, o1) \<Rightarrow> (Inl e, (w, o1))
     | (Inr (serviceName, shutdown), o1) \<Rightarrow>
         (let (r, (w', o2)) =
            (case pathmgmt_boot B w of
               (Inl e, w1) \<Rightarrow> (Inl e, (w1, o1))
             | (Inr sv, w1) \<Rightarrow>
                 (let (r, (w2, o2)) =
                    (case NewPathMetrics I o1 of
                       (Inl e, o2) \<Rightarrow> (Inl e, (w1, o2))
                     | (Inr c, o2) \<Rightarrow> serveHTTP sv c serviceName (w1, o2))
                  in (r, (close_all B (snd (sv_closes sv)) (close_writers close (fst (sv_closes sv)) w2), o2))))
          in (r, (w', snd (shutdown o2)))))"

end
