(* ===== verification/TelemetryClaims.thy ===== *)
theory TelemetryClaims
  imports Telemetry BootClaims
begin

text \<open>
  The properties of the telemetry adapter: what a failed or finished run of the service leaves behind,
  and what a log line carries of its trace and of its request.
\<close>

section \<open>Providers\<close>

text \<open>
  What the SDK promises, through a view of its state that shows the providers that are running: making
  a provider starts it, \<open>Shutdown\<close> stops it even when its last flush fails, and nothing else does either.
\<close>

definition tracks_providers :: "('o, 'x, 'e, 't) otel \<Rightarrow> ('o \<Rightarrow> 't set) \<Rightarrow> bool" where
  "tracks_providers T running \<longleftrightarrow>
     (\<forall>u v. running (snd (o_traceExporter T u v)) = running v)
   \<and> (\<forall>u v. running (snd (o_metricExporter T u v)) = running v)
   \<and> (\<forall>e x v. case o_TracerProvider T e x v of (t, v') \<Rightarrow> t \<notin> running v \<and> running v' = insert t (running v))
   \<and> (\<forall>x e d v. case o_MeterProvider T x e d v of (t, v') \<Rightarrow> t \<notin> running v \<and> running v' = insert t (running v))
   \<and> (\<forall>t v. running (o_SetTracerProvider T t v) = running v)
   \<and> (\<forall>t v. running (o_SetMeterProvider T t v) = running v)
   \<and> (\<forall>p v. running (o_SetTextMapPropagator T p v) = running v)
   \<and> (\<forall>t v. running (snd (o_runtime_Start T t v)) = running v)
   \<and> (\<forall>t v. running (snd (o_Shutdown T t v)) = running v - {t})"

lemma tracks_simps:
  assumes "tracks_providers T running"
  shows "running (snd (o_traceExporter T u v)) = running v" "running (snd (o_metricExporter T u v)) = running v"
    "running (snd (o_TracerProvider T e x v)) = insert (fst (o_TracerProvider T e x v)) (running v)"
    "fst (o_TracerProvider T e x v) \<notin> running v"
    "running (snd (o_MeterProvider T x e d v)) = insert (fst (o_MeterProvider T x e d v)) (running v)"
    "fst (o_MeterProvider T x e d v) \<notin> running v"
    "running (snd (o_runtime_Start T t v)) = running v" "running (install T t t' v) = running v"
    "running (snd (o_Shutdown T t v)) = running v - {t}"
  using assms unfolding tracks_providers_def install_def by (simp_all add: case_prod_beta)

lemma shutdown_both_stops:
  "tracks_providers T running \<Longrightarrow> running (snd (shutdown_both T tracer meter v)) = running v - {tracer} - {meter}"
  by (simp add: shutdown_both_def case_prod_beta tracks_simps [of T running])

text \<open>What a set-up has done to the running providers.\<close>

definition sets_up :: "('o \<Rightarrow> 't set) \<Rightarrow> 'o \<Rightarrow> (err + ('o \<Rightarrow> err option \<times> 'o)) \<times> 'o \<Rightarrow> bool" where
  "sets_up running v res \<longleftrightarrow> (case res of
     (Inl e, v') \<Rightarrow> running v' = running v
   | (Inr shutdown, v') \<Rightarrow> \<exists>ts. finite ts \<and> card ts = 2 \<and> ts \<inter> running v = {} \<and> running v' = ts \<union> running v
       \<and> (\<forall>u. running (snd (shutdown u)) = running u - ts))"

lemma Setup_providers:
  assumes "tracks_providers T running"
  shows "sets_up running v (Setup B T name version endpoint v)"
proof -
  note t = tracks_simps [OF assms]
  note stops = shutdown_both_stops [OF assms]
  let ?u = "if endpoint = [] then DefaultOTLPEndpoint else endpoint"
  obtain r1 v1 where 1: "o_traceExporter T ?u v = (r1, v1)" by fastforce
  consider (resource) e where "newResource B T name version = Inl e"
    | (traces) res e where "newResource B T name version = Inr res" "r1 = Inl e"
    | (go) res x where "newResource B T name version = Inr res" "r1 = Inr x"
    by (cases "newResource B T name version"; cases r1) auto
  then show ?thesis
  proof cases
    case resource
    then show ?thesis by (simp add: Setup_def sets_up_def)
  next
    case traces
    with 1 t(1) [of ?u v] show ?thesis by (simp add: Setup_def sets_up_def Let_def)
  next
    case go
    obtain tracer v2 where 2: "o_TracerProvider T x res v1 = (tracer, v2)" by fastforce
    obtain r3 v3 where 3: "o_metricExporter T ?u v2 = (r3, v3)" by fastforce
    have new: "tracer \<notin> running v" "running v3 = insert tracer (running v)"
      using t(1) [of ?u v] t(2) [of ?u v2] t(3,4) [of x res v1] by (simp_all add: 1 2 3)
    show ?thesis
    proof (cases r3)
      case (Inl e)
      with 1 2 3 go new show ?thesis
        by (simp add: Setup_def sets_up_def Let_def case_prod_beta t)
    next
      case (Inr y)
      obtain meter v4 where 4: "o_MeterProvider T res y metricExportInterval v3 = (meter, v4)" by fastforce
      obtain q v5 where 5: "o_runtime_Start T meter (install T tracer meter v4) = (q, v5)" by fastforce
      have more: "meter \<notin> insert tracer (running v)" "running v5 = insert meter (insert tracer (running v))"
        using t(5,6) [of res y metricExportInterval v3] t(7) [of meter "install T tracer meter v4"] new
        by (simp_all add: 4 5 t(8))
      show ?thesis
      proof (cases q)
        case (Inl e)
        with 1 2 3 4 5 go Inr new more show ?thesis
          by (simp add: Setup_def sets_up_def Let_def case_prod_beta stops) blast
      next
        case up: (Inr z)
        have "Setup B T name version endpoint v = (Inr (\<lambda>v. case shutdown_both T tracer meter v of
            (ss, v') \<Rightarrow> (errors_Join ss, v')), v5)"
          using 1 2 3 4 5 go Inr up by (simp add: Setup_def Let_def)
        with new more show ?thesis
          by (auto simp: sets_up_def case_prod_beta stops intro!: exI [where x = "{tracer, meter}"])
      qed
    qed
  qed
qed

section \<open>From start to exit\<close>

lemma close_writers_keep: "(\<And>k w. opened (snd (close k w)) = opened w) \<Longrightarrow> opened (close_writers close ks w) = opened w"
  unfolding close_writers_def by (induction ks arbitrary: w) simp_all

lemma setupTelemetry_cases:
  assumes "tracks_providers T running" "setupTelemetry B T version v = (r, v1)"
  obtains e where "r = Inl e" "running v1 = running v"
  | name shutdown ts where "r = Inr (name, shutdown)" "running v1 = ts \<union> running v" "ts \<inter> running v = {}"
    "\<And>u. running (snd (shutdown u)) = running u - ts"
proof -
  let ?s = "Setup B T (getenv B ''OTEL_SERVICE_NAME'' DefaultServiceName) (serviceVersion B version)
    (getenv B ''OTEL_EXPORTER_OTLP_ENDPOINT'' DefaultOTLPEndpoint) v"
  obtain q v2 where s: "?s = (q, v2)" by fastforce
  have "sets_up running v (q, v2)" using Setup_providers [OF assms(1)] s by metis
  with that assms(2) s show thesis
    by (cases q) (auto simp: setupTelemetry_def sets_up_def Let_def)
qed

text \<open>What runs between the set-up and the flush of the telemetry.\<close>

definition served :: "('w, 'm, 'p) boot_env \<Rightarrow> ('o, 'c) instruments \<Rightarrow> (kafka_writer \<Rightarrow> ('w, unit) io)
     \<Rightarrow> ('p service \<Rightarrow> 'c \<Rightarrow> string \<Rightarrow> ('w \<times> 'o, unit) io) \<Rightarrow> string \<Rightarrow> ('w \<times> 'o, unit) io" where
  "served B I close serveHTTP name = (\<lambda>(w, v). case pathmgmt_boot B w of
       (Inl e, w1) \<Rightarrow> (Inl e, (w1, v))
     | (Inr sv, w1) \<Rightarrow>
         (let (r, (w2, v2)) = (case NewPathMetrics I v of
             (Inl e, v2) \<Rightarrow> (Inl e, (w1, v2)) | (Inr c, v2) \<Rightarrow> serveHTTP sv c name (w1, v2))
          in (r, (close_all B (snd (sv_closes sv)) (close_writers close (fst (sv_closes sv)) w2), v2))))"

lemma pathmgmt_run_served:
  "pathmgmt_run B T I close version serveHTTP (w, v) = (case setupTelemetry B T version v of
       (Inl e, v1) \<Rightarrow> (Inl e, (w, v1))
     | (Inr (name, shutdown), v1) \<Rightarrow> (case served B I close serveHTTP name (w, v1) of
         (r, (w', v2)) \<Rightarrow> (r, (w', snd (shutdown v2)))))"
  by (simp add: pathmgmt_run_def served_def Let_def split: prod.split sum.split)

lemma served_keeps:
  assumes "tracks_pools B opened" "\<And>k w. opened (snd (close k w)) = opened w"
    and "\<And>u. running (snd (NewPathMetrics I u)) = running u"
    and "\<And>sv c name s. opened (fst (snd (serveHTTP sv c name s))) = opened (fst s)
           \<and> running (snd (snd (serveHTTP sv c name s))) = running (snd s)"
    and "served B I close serveHTTP name (w, v) = (r, (w', v'))"
  shows "opened w' = opened w \<and> running v' = running v
    \<and> ((\<exists>e. r = Inl e) \<or> (\<exists>sv c s. pathmgmt_boot B w = (Inr sv, fst s) \<and> fst (serveHTTP sv c name s) = r))"
proof -
  obtain b w1 where b: "pathmgmt_boot B w = (b, w1)" by fastforce
  note boot = pathmgmt_boot_opens [OF assms(1), of w, unfolded b]
  show ?thesis
  proof (cases b)
    case (Inl e)
    with b boot assms(5) show ?thesis by (auto simp: served_def)
  next
    case (Inr sv)
    obtain m v1 where m: "NewPathMetrics I v = (m, v1)" by fastforce
    have v1: "running v1 = running v" using assms(3) [of v] by (simp add: m)
    have "opened w1 - set_option (snd (sv_closes sv)) = opened w"
      using boot unfolding Inr sum.case prod.case close_pools(2) [OF assms(1)] by (rule conjunct2)
    then have released: "opened (close_all B (snd (sv_closes sv)) (close_writers close ks w2)) = opened w"
      if "opened w2 = opened w1" for w2 ks
      unfolding close_pools(2) [OF assms(1)] close_writers_keep [of opened close, OF assms(2)] that .
    show ?thesis
    proof (cases m)
      case (Inl e)
      with b m v1 Inr released [of w1] assms(5) show ?thesis by (auto simp: served_def)
    next
      case m': (Inr c)
      obtain q w2 v2 where q: "serveHTTP sv c name (w1, v1) = (q, (w2, v2))" by (metis surj_pair)
      have "opened w2 = opened w1" "running v2 = running v"
        using assms(4) [of sv c name "(w1, v1)"] v1 by (simp_all add: q)
      moreover have "\<exists>sv c s. pathmgmt_boot B w = (Inr sv, fst s) \<and> fst (serveHTTP sv c name s) = q"
        using b Inr q by (intro exI [of _ sv] exI [of _ c] exI [of _ "(w1, v1)"]) simp
      ultimately show ?thesis using b m m' Inr q released [of w2] assms(5) by (auto simp: served_def)
    qed
  qed
qed

text \<open>
  C40. Whatever happens between its start and its exit, a run of the service leaves no connection pool
  open and no telemetry provider running that it opened: when the set-up of the telemetry, a
  migration, a ping or the metrics fail, when serving fails and when it ends. It succeeds only when
  a start succeeded and serving over what that start wired did.
\<close>

theorem run_leaves_nothing_open:
  assumes "tracks_pools B opened" "tracks_providers T running"
    and "\<And>k w. opened (snd (close k w)) = opened w" "\<And>u. running (snd (NewPathMetrics I u)) = running u"
    and "\<And>sv c name s. opened (fst (snd (serveHTTP sv c name s))) = opened (fst s)
           \<and> running (snd (snd (serveHTTP sv c name s))) = running (snd s)"
    and "pathmgmt_run B T I close version serveHTTP (w, v) = (r, (w', v'))"
  shows "opened w' = opened w \<and> running v' = running v
    \<and> ((\<exists>e. r = Inl e) \<or> (\<exists>sv c name s. pathmgmt_boot B w = (Inr sv, fst s) \<and> fst (serveHTTP sv c name s) = r))"
proof -
  obtain t v1 where t: "setupTelemetry B T version v = (t, v1)" by fastforce
  note served = served_keeps [OF assms(1,3,4,5)]
  from assms(2) t show ?thesis
  proof (cases rule: setupTelemetry_cases)
    case (1 e)
    with t assms(6) show ?thesis by (auto simp: pathmgmt_run_served)
  next
    case (2 name shutdown ts)
    obtain q w2 v2 where q: "served B I close serveHTTP name (w, v1) = (q, (w2, v2))" by (metis surj_pair)
    have "r = q" "w' = w2" "running v' = running v2 - ts"
      using assms(6) t q 2(1,4) by (auto simp: pathmgmt_run_served)
    with served [OF q] 2(2,3) have "opened w' = opened w" "running v' = running v" by auto
    with served [OF q] \<open>r = q\<close> show ?thesis by metis
  qed
qed

text \<open>An SDK over a list of running providers, whose runtime metrics cannot be started.\<close>

definition demo_otel :: "bool \<Rightarrow> (nat list, unit, unit, nat) otel" where
  "demo_otel up = \<lparr>o_Merge = (\<lambda>n v e. Inr ()), o_traceExporter = (\<lambda>u v. (Inr (), v)),
     o_metricExporter = (\<lambda>u v. (Inr (), v)),
     o_TracerProvider = (\<lambda>e x v. (Suc (sum_list v), Suc (sum_list v) # v)),
     o_MeterProvider = (\<lambda>x e d v. (Suc (sum_list v), Suc (sum_list v) # v)),
     o_SetTracerProvider = (\<lambda>t v. v), o_SetMeterProvider = (\<lambda>t v. v), o_SetTextMapPropagator = (\<lambda>p v. v),
     o_runtime_Start = (\<lambda>t v. (if up then Inr () else Inl (PlainErr ''no runtime metrics''), v)),
     o_Shutdown = (\<lambda>t v. (Some (PlainErr ''flush timed out''), removeAll t v))\<rparr>"

lemma demo_otel_tracks: "tracks_providers (demo_otel up) set"
proof -
  have "Suc (sum_list v) \<notin> set v" for v :: "nat list" using member_le_sum_list [of "Suc (sum_list v)" v] by auto
  then show ?thesis by (simp add: tracks_providers_def demo_otel_def)
qed

definition demo_instruments :: "(nat list, string) instruments" where
  "demo_instruments = \<lparr>i_Int64Counter = (\<lambda>m n v. (Inr n, v)), i_Add = (\<lambda>c n as v. v)\<rparr>"

text \<open>
  Runtime metrics that cannot be started, and a service that ends by itself: both leave what was there.
\<close>

definition demo_run :: "bool \<Rightarrow> (err + unit) \<times> (nat list \<times> nat list)" where
  "demo_run up = pathmgmt_run (demo_boot set_env (\<lambda>p. True)) (demo_otel up) demo_instruments (\<lambda>k w. (Inr (), w))
     ''v1'' (\<lambda>sv c name s. (Inr (), s)) ([7], [5])"

lemma run_leaves_nothing_open_witness:
  "(case demo_run False of (r, (w', v')) \<Rightarrow> (\<exists>e. r = Inl e) \<and> set w' = {7} \<and> set v' = {5})
   \<and> (case demo_run True of (r, (w', v')) \<Rightarrow> set w' = {7} \<and> set v' = {5})"
proof -
  have keeps: "set w' = {7} \<and> set v' = {5}" if "demo_run up = (r, (w', v'))" for up r w' v'
    using run_leaves_nothing_open [where opened = set and running = set, OF demo_boot_tracks demo_otel_tracks
        _ _ _ that [unfolded demo_run_def]] by (simp add: NewPathMetrics_def demo_instruments_def)
  have "\<exists>e. fst (demo_run False) = Inl e"
    by (simp add: demo_run_def pathmgmt_run_def setupTelemetry_def Setup_def newResource_def demo_otel_def
        shutdown_both_def install_def Let_def)
  with keeps [of False] keeps [of True] show ?thesis by (auto split: prod.split)
qed

section \<open>Log lines\<close>

text \<open>The groups a derived logger has open, and the attributes it carries with the groups of each.\<close>

fun open_groups :: "string list \<Rightarrow> derivation list \<Rightarrow> string list" where
  "open_groups gs [] = gs"
| "open_groups gs (With as # ds) = open_groups gs ds"
| "open_groups gs (WithGroup g # ds) = open_groups (if g = '''' then gs else gs @ [g]) ds"

fun carried_attrs :: "string list \<Rightarrow> derivation list \<Rightarrow> (string list \<times> attr) list" where
  "carried_attrs gs [] = []"
| "carried_attrs gs (With as # ds) = map (Pair gs) as @ carried_attrs gs ds"
| "carried_attrs gs (WithGroup g # ds) = carried_attrs (if g = '''' then gs else gs @ [g]) ds"

lemma derive_JSONHandler:
  "derive (JSONHandler lvl write gs as) ds = JSONHandler lvl write (open_groups gs ds) (as @ carried_attrs gs ds)"
  by (induction gs ds arbitrary: as rule: carried_attrs.induct) simp_all

lemma derive_TraceHandler: "derive (TraceHandler span h) ds = TraceHandler span (derive h ds)"
  by (induction h ds rule: derive.induct) simp_all

text \<open>
  Trace correlation survives every derivation of a logger: with an active span, each enabled line ends
  with the ids of the span, and nothing else about the line changes. The ids are inside the groups
  that are open, so only a logger without open groups writes them at the top level.
\<close>

theorem trace_correlation:
  "InfoContext (derive (newLogger B span stdout level) ds) c message attrs w =
    (if level_number (log_level_of B level) \<le> 0
     then snd (stdout \<lparr>ll_level = LevelInfo, ll_message = message,
       ll_attrs = carried_attrs [] ds @ map (Pair (open_groups [] ds)) attrs
         @ (if sc_valid (span c) then [(open_groups [] ds, (''trace_id'', sc_TraceID (span c))),
             (open_groups [] ds, (''span_id'', sc_SpanID (span c)))] else [])\<rparr> w)
     else w)"
  by (simp add: InfoContext_def newLogger_def NewTraceHandler_def derive_TraceHandler derive_JSONHandler
      stamped_def traceIDKey_def spanIDKey_def)

text \<open>
  The request log changes no answer, and its line has no line break of the request's making: the route
  is the pattern of a matched route or the path without its line breaks.
\<close>

theorem request_log_transparent:
  assumes "\<And>p. pattern r = Some p \<Longrightarrow> CHR 0x0A \<notin> set p \<and> CHR 0x0D \<notin> set p"
    and "now w = (t, w1)" "next_handler c r w1 = (resp, w2)" "now w2 = (t', w3)"
  shows "\<exists>l. RequestLogger info pattern reqid now next_handler c r w = (resp, info l w3)
    \<and> CHR 0x0A \<notin> set (rg_route l) \<and> CHR 0x0D \<notin> set (rg_route l) \<and> rg_status l = rs_status resp"
  using assms
  by (auto simp: RequestLogger_def chiRoutePattern_def sanitizeForLog_def split: option.split)

end
