(* ===== verification/EndToEnd.thy ===== *)
theory EndToEnd
  imports RelayClaims ConsumerRefine
begin

text \<open>
  From a request to a report: the outbox rows of the analytics topic, the events they carry, what the
  consumer reads of them after the relay and the broker, and the rows of the read model that follow.
\<close>

section \<open>The analytical fact of an event\<close>

fun event_fact :: "DomainEvent \<Rightarrow> (kind \<times> time) option" where
  "event_fact (ProcessPathCreated e) = Some (Defined, OccurredAt (ProcessPathCreated e))"
| "event_fact (ProcessPathUpdated e) = Some (Revised, OccurredAt (ProcessPathUpdated e))"
| "event_fact (ProcessPathDeactivated i t) = Some (Deactivated, OccurredAt (ProcessPathDeactivated i t))"
| "event_fact (CPTScheduleChanged s) = None"

lemma wire_fact:
  assumes "sdk_ok S" "i \<noteq> ''''" "UnmarshalJSON S (msg_Value (f_msg m)) = Inr (wire_event ev i StreamAnalytics)"
    and "ac_sdk C = S"
  shows "fact_of C m = map_option (Pair i) (event_fact ev)"
proof -
  have "Validate S (wire_event ev i StreamAnalytics) = None"
    using assms(1,2) wire_event_required by (simp add: sdk_ok_def)
  then have "ce_Decode (ac_text C) (ac_sdk C) (msg_Value (f_msg m)) = Inr (wire_event ev i StreamAnalytics)"
    using assms(3,4) by (simp add: ce_Decode_def) (simp add: wire_event_def)
  then show ?thesis
    by (cases ev) (simp_all add: fact_of_def decodeAnalyticsEvent_def wire_event_def kind_of_def type_defs)
qed

section \<open>The rows of the analytics topic\<close>

text \<open>A row that carries an event: its document was encoded from it under the row's event id.\<close>

definition carries :: "pg_env \<Rightarrow> sdk \<Rightarrow> outbox_row \<Rightarrow> DomainEvent \<Rightarrow> bool" where
  "carries V S r ev \<longleftrightarrow> (\<exists>x. AnalyticsEncoder_Encode S ev (ob_event_id r) = Inr x
     \<and> ob_payload r = v_jsonb V (enc_Value x))"

definition analytics_rows :: "oltp \<Rightarrow> outbox_row list" where
  "analytics_rows db = filter (\<lambda>r. ob_topic r = AnalyticsTopic) (t_outbox db)"

lemma encoder_topics:
  "Encode S ev i = Inr x \<Longrightarrow> enc_Topic x = Topic" "AnalyticsEncoder_Encode S ev i = Inr x \<Longrightarrow> enc_Topic x = AnalyticsTopic"
  "Topic \<noteq> AnalyticsTopic"
  by (auto simp: Encode_def AnalyticsEncoder_Encode_def encodeFor_def Topic_def AnalyticsTopic_def
      split: sum.splits prod.splits if_splits)

lemma emitted_rows:
  assumes "list_all2 (outbox_emit V) evs mss" "map outbox_msg rows = concat mss"
    and "v_encoders V = [Encode S, AnalyticsEncoder_Encode S]"
  shows "list_all2 (carries V S) (filter (\<lambda>r. ob_topic r = AnalyticsTopic) rows) evs"
  using assms(1,2)
proof (induction evs mss arbitrary: rows rule: list_all2_induct)
  case (Cons ev evs ms mss)
  obtain i x1 x2 where enc: "Encode S ev i = Inr x1" "AnalyticsEncoder_Encode S ev i = Inr x2" "enc_EventId x2 = i"
    and ms: "ms = [encoded_msg V ev x1, encoded_msg V ev x2]"
    using Cons.hyps(1) by (auto simp: outbox_emit_def assms(3) list_all2_Cons1)
  obtain r1 r2 rows' where rows: "rows = r1 # r2 # rows'" "outbox_msg r1 = encoded_msg V ev x1"
    "outbox_msg r2 = encoded_msg V ev x2" "map outbox_msg rows' = concat mss"
    using Cons.prems by (auto simp: ms)
  have "ob_topic r1 = Topic" "ob_topic r2 = AnalyticsTopic"
    using rows(2,3) encoder_topics(1) [OF enc(1)] encoder_topics(2) [OF enc(2)]
    by (simp_all add: outbox_msg_def encoded_msg_def)
  moreover have "carries V S r2 ev"
    using rows(3) enc(2,3) by (auto simp: carries_def outbox_msg_def encoded_msg_def)
  ultimately show ?case using Cons.IH [OF rows(4)] encoder_topics(3) by (simp add: rows(1))
qed simp

text \<open>The facts of the rows, in the order of the events.\<close>

definition row_facts :: "outbox_row list \<Rightarrow> DomainEvent list \<Rightarrow> fact list" where
  "row_facts rows evs = List.map_filter (\<lambda>(r, ev). map_option (Pair (ob_event_id r)) (event_fact ev)) (zip rows evs)"

lemma row_facts_Cons [simp]:
  "row_facts (r # rows) (ev # evs)
    = (case event_fact ev of None \<Rightarrow> row_facts rows evs | Some f \<Rightarrow> (ob_event_id r, f) # row_facts rows evs)"
  by (simp add: row_facts_def List.map_filter_simps split: option.split)

lemma row_facts_Nil [simp]: "row_facts [] evs = []"
  by (simp add: row_facts_def List.map_filter_simps)

lemma row_facts_kinds:
  "length rows = length evs \<Longrightarrow> map snd (row_facts rows evs) = List.map_filter event_fact evs"
  by (induction rows evs rule: list_induct2) (auto simp: List.map_filter_simps split: option.split)

lemma row_facts_ids: "set (map fst (row_facts rows evs)) \<subseteq> ob_event_id ` set rows"
  by (auto simp: row_facts_def List.map_filter_def dest: set_zip_leftD split: option.splits)

lemma row_facts_distinct:
  "length rows = length evs \<Longrightarrow> distinct (map ob_event_id rows) \<Longrightarrow> distinct (map fst (row_facts rows evs))"
proof (induction rows evs rule: list_induct2)
  case (Cons r rows ev evs)
  then show ?case using row_facts_ids [of rows evs] by (auto split: option.split)
qed simp

lemma row_facts_of_pair:
  "(r, ev) \<in> set (zip rows evs) \<Longrightarrow> event_fact ev = Some f \<Longrightarrow> (ob_event_id r, f) \<in> set (row_facts rows evs)"
  by (force simp: row_facts_def List.map_filter_def)

section \<open>From the outbox through the broker to the consumer\<close>

text \<open>The \<open>jsonb\<close> column gives back an equivalent document.\<close>

definition jsonb_ok :: "pg_env \<Rightarrow> sdk \<Rightarrow> bool" where
  "jsonb_ok V S \<longleftrightarrow> (\<forall>v e. UnmarshalJSON S v = Inr e \<longrightarrow> UnmarshalJSON S (v_jsonb V v) = Inr e)"

lemma carried_fact:
  assumes "carries V S r ev" "sdk_ok S" "jsonb_ok V S" "ob_event_id r \<noteq> ''''" "ac_sdk C = S"
    and "f_msg m = message_of (row_encoded r)"
  shows "fact_of C m = map_option (Pair (ob_event_id r)) (event_fact ev)"
proof -
  obtain x where x: "encodeFor S ev (ob_event_id r) AnalyticsTopic StreamAnalytics = Inr x"
    "ob_payload r = v_jsonb V (enc_Value x)"
    using assms(1) by (auto simp: carries_def AnalyticsEncoder_Encode_def)
  then have "MarshalJSON S (wire_event ev (ob_event_id r) StreamAnalytics) = Inr (enc_Value x)"
    using assms(2,4) by (auto simp: encodeFor_eq split: if_splits sum.splits)
  then have "UnmarshalJSON S (ob_payload r) = Inr (wire_event ev (ob_event_id r) StreamAnalytics)"
    using assms(2,3) x(2) by (simp add: sdk_ok_def jsonb_ok_def)
  then show ?thesis
    using wire_fact [OF assms(2,4) _ assms(5)] assms(6) by (simp add: message_of_def row_encoded_def)
qed

text \<open>The start of a history, and what the relay and the requests have made of it.\<close>

definition service_ok :: "pg_env \<Rightarrow> sdk \<Rightarrow> bool" where
  "service_ok V S \<longleftrightarrow> inj (v_id V) \<and> (\<forall>n. v_id V n \<noteq> '''') \<and> v_encoders V = [Encode S, AnalyticsEncoder_Encode S]
     \<and> sdk_ok S \<and> jsonb_ok V S \<and> closed_only (v_faults V)"

lemma history:
  assumes "service_ok V S" "writer_ok write topic_log" "topic_log k0 = []"
    and "relay_all V write ops (k0, pg_init) = (k, w)"
  obtains evs where "told (outbox_emit V) (pg_view V Background w) evs"
    "list_all2 (carries V S) (analytics_rows (committed w)) evs"
    "distinct (map ob_event_id (analytics_rows (committed w)))"
    "\<And>r. r \<in> set (t_outbox (committed w)) \<Longrightarrow> ob_event_id r \<noteq> ''''"
    "relay_ok False (topic_log k) (t_outbox (committed w))"
proof -
  have V: "inj (v_id V)" "v_encoders V = [Encode S, AnalyticsEncoder_Encode S]" "closed_only (v_faults V)"
    using assms(1) by (simp_all add: service_ok_def)
  have "pg_keeps V (relay_ok False (topic_log k0)) pg_init"
    using pg_inv_init [OF V(1,2)] assms(3)
    by (auto simp: pg_keeps_def both_def outbox_ok_def pg_init_def empty_oltp_def relay_ok_def intro!: appended_self)
  note end_state = relay_all_keeps [OF assms(2) V(3) this _ assms(4)]
  then have keeps: "pg_keeps V (relay_ok False (topic_log k)) w"
    and steps: "cat_steps (v_ext V) (pg_sp (v_ext V)) (pg_ss (v_ext V)) (outbox_emit V) empty_catalogue (pg_view V Background w)"
    by (simp_all add: pg_view_init)
  obtain evs where told: "told (outbox_emit V) (pg_view V Background w) evs"
    using pg_storage.steps_told [OF steps empty_catalogue_ok(1) empty_catalogue_ok(3)] by auto
  then obtain mss where "list_all2 (outbox_emit V) evs mss" "map outbox_msg (t_outbox (committed w)) = concat mss"
    by (auto simp: told_def pg_view_def oltp_view_def seen_def)
  note carried = emitted_rows [OF this V(2), folded analytics_rows_def]
  have "distinct (map outbox_key (t_outbox (committed w)))"
    using pg_keepsD(2) [OF keeps] by (simp add: serials_ok_def)
  then have ids: "distinct (map ob_event_id (analytics_rows (committed w)))"
    by (auto simp: analytics_rows_def outbox_key_def distinct_map inj_on_def)
  have named: "ob_event_id r \<noteq> ''''" if "r \<in> set (t_outbox (committed w))" for r
    using pg_keepsD(1) [OF keeps] assms(1) that by (force simp: outbox_ok_def ids_used_def service_ok_def)
  show thesis using that [OF told carried ids named pg_keepsD(3) [OF keeps]] .
qed

text \<open>A message of the analytics topic and the fact it carries.\<close>

lemma message_fact:
  assumes "list_all2 (carries V S) (analytics_rows db) evs" "service_ok V S" "ac_sdk C = S"
    and "\<And>r. r \<in> set (t_outbox db) \<Longrightarrow> ob_event_id r \<noteq> ''''"
    and "r \<in> set (t_outbox db)" "f_msg m = message_of (row_encoded r)" "msg_Topic (f_msg m) = AnalyticsTopic"
  obtains ev where "(r, ev) \<in> set (zip (analytics_rows db) evs)"
    "fact_of C m = map_option (Pair (ob_event_id r)) (event_fact ev)"
proof -
  have "r \<in> set (analytics_rows db)"
    using assms(5,6,7) by (simp add: analytics_rows_def message_of_def row_encoded_def)
  then obtain n where n: "n < length (analytics_rows db)" "analytics_rows db ! n = r" by (auto simp: in_set_conv_nth)
  then have len: "n < length evs" using assms(1) by (simp add: list_all2_lengthD)
  have "carries V S r (evs ! n)" using list_all2_nthD [OF assms(1) n(1)] n(2) by simp
  note fact = carried_fact [OF this _ _ assms(4) [OF assms(5)] assms(3,6)]
  have "(r, evs ! n) \<in> set (zip (analytics_rows db) evs)"
    using n len by (auto simp: set_zip intro!: exI [where x = n])
  then show thesis using that fact assms(2) by (auto simp: service_ok_def)
qed

lemma message_facts_told:
  assumes "list_all2 (carries V S) (analytics_rows db) evs" "service_ok V S" "ac_sdk C = S"
    and "\<And>r. r \<in> set (t_outbox db) \<Longrightarrow> ob_event_id r \<noteq> ''''" "relay_ok False log (t_outbox db)"
    and "\<forall>m \<in> set ms. f_msg m \<in> set log \<and> msg_Topic (f_msg m) = AnalyticsTopic"
  shows "set (facts_of C ms) \<subseteq> set (row_facts (analytics_rows db) evs)"
proof
  fix f assume "f \<in> set (facts_of C ms)"
  then obtain m where m: "m \<in> set ms" "fact_of C m = Some f"
    by (auto simp: facts_of_def List.map_filter_def)
  then obtain r where r: "r \<in> set (t_outbox db)" "f_msg m = message_of (row_encoded r)" "msg_Topic (f_msg m) = AnalyticsTopic"
    using assms(5,6) by (force simp: relay_ok_def)
  from message_fact [OF assms(1-4) r] obtain ev where "(r, ev) \<in> set (zip (analytics_rows db) evs)"
    "fact_of C m = map_option (Pair (ob_event_id r)) (event_fact ev)" by blast
  with m(2) row_facts_of_pair show "f \<in> set (row_facts (analytics_rows db) evs)" by fastforce
qed

section \<open>A consumer whose database answers\<close>

lemma quiet_gate: "ae_faults A = (\<lambda>_. None) \<Longrightarrow> MarkProcessed A i d \<noteq> (Inl e, d')"
  by (auto simp: MarkProcessed_def sql_exec_def consume_stmt_def split: prod.splits)

definition consume_all :: "'w AnalyticsConsumer \<Rightarrow> fetched list \<Rightarrow> 'w \<Rightarrow> 'w" where
  "consume_all C ms w = fold (\<lambda>m w. snd (handleFetchedMessage C m w)) ms w"

text \<open>The counters are \<open>bigint\<close> columns, so the number of messages is bounded.\<close>

lemma consume_all_counts:
  assumes "C = NewAnalyticsConsumer K topic (pg_projection A) (MarkProcessed A) S X R"
    and "ae_faults A = (\<lambda>_. None)" "consumer_ok A R w" "consumed_ids w = g_seen (adb_growth (committed (fst w)))"
    and "card (g_seen (adb_growth (committed (fst w)))) + length ms < 2 ^ 62"
  shows "adb_growth (committed (fst (consume_all C ms w)))
    = fold grow (facts_of C ms) (adb_growth (committed (fst w)))"
  using assms(3-5)
proof (induction ms arbitrary: w)
  case (Cons m ms)
  let ?abs = "\<lambda>w :: adb pg \<times> 'a. adb_growth (committed (fst w))"
  obtain r w1 where run: "handleFetchedMessage C m w = (r, w1)" by (metis surj_pair)
  have gate: "ac_Processed (NewAnalyticsConsumer K topic (pg_projection A) (MarkProcessed A) S X R) i v \<noteq> (Inl e, v')"
    for i v e v'
    using quiet_gate [OF assms(2)] by (auto simp: NewAnalyticsConsumer_def on_db_eq)
  have room: "card (g_seen (?abs w)) < 2 ^ 62" using Cons.prems(3) by linarith
  have applies: "apply_fact (db_projection (pg_projection A)) f v \<noteq> (Inl e, v')"
    if "consumer_ok A R v" "?abs v = ?abs w" for f e v v'
  proof -
    have "pg_ok A (fst v)" using that(1) by (simp add: consumer_ok_def)
    from projection_answers [OF assms(2) this room [folded that(2)]] show ?thesis
      by (auto simp: db_apply_fact on_db_eq)
  qed
  note step = projector.healthy [OF run [unfolded assms(1)] Cons.prems(1,2) gate applies, folded assms(1)]
  have "card (g_seen (?abs w1)) \<le> Suc (card (g_seen (?abs w)))"
    using step by (auto split: option.splits intro: card_insert_le_m1)
  then have "card (g_seen (?abs w1)) + length ms < 2 ^ 62" using Cons.prems(3) by simp
  with Cons.IH [of w1] step run show ?case
    by (simp add: consume_all_def facts_of_def List.map_filter_simps split: option.splits)
qed (simp add: consume_all_def facts_of_def List.map_filter_simps)

lemma facts_of_set: "set (facts_of C ms) = {f. \<exists>m \<in> set ms. fact_of C m = Some f}"
  unfolding facts_of_def List.map_filter_def by force

section \<open>The report a history calls for\<close>

text \<open>The row of a day counts the events of that day by kind; a day without any has no row.\<close>

definition history_row :: "time \<Rightarrow> DomainEvent list \<Rightarrow> Row option" where
  "history_row d evs = (let ks = map fst (filter (\<lambda>(k, t). dayBucket t = d) (List.map_filter event_fact evs)) in
     if ks = [] then None
     else Some \<lparr>Key = \<lparr>DayBucket = d\<rparr>, PathsDefined = of_nat (count_list ks Defined),
       PathsRevised = of_nat (count_list ks Revised), PathsDeactivated = of_nat (count_list ks Deactivated)\<rparr>)"

lemma count_kinds_on: "count_list (map fst (filter (\<lambda>(k, t). dayBucket t = d) (map snd fs))) K
    = length (filter (\<lambda>(i, k, at). k = K \<and> dayBucket at = d) fs)"
  by (induction fs) auto

lemma tally_history:
  assumes "map snd fs = List.map_filter event_fact evs" "distinct (map fst fs)"
  shows "tally d fs = history_row d evs"
proof -
  have "distinct fs" using assms(2) by (simp add: distinct_map)
  then have "counted K d fs = length (filter (\<lambda>(i, k, at). k = K \<and> dayBucket at = d) fs)" for K
    unfolding counted_def by (intro distinct_card distinct_filter)
  then have "counted K d fs = count_list (map fst (filter (\<lambda>(k, t). dayBucket t = d) (map snd fs))) K" for K
    by (simp add: count_kinds_on)
  moreover have "list_all (\<lambda>(i, k, at). dayBucket at \<noteq> d) fs
      \<longleftrightarrow> map fst (filter (\<lambda>(k, t). dayBucket t = d) (map snd fs)) = []"
    by (simp add: list_all_iff filter_map filter_empty_conv comp_def case_prod_beta)
  ultimately show ?thesis by (simp add: tally_def history_row_def assms(1) Let_def)
qed

lemma published_facts_read:
  assumes "list_all2 (carries V S) (analytics_rows db) evs" "service_ok V S" "ac_sdk C = S"
    and "\<And>r. r \<in> set (t_outbox db) \<Longrightarrow> ob_event_id r \<noteq> ''''" "relay_ok False log (t_outbox db)"
    and "unpublished db = []" "\<forall>m \<in> set log. msg_Topic m = AnalyticsTopic \<longrightarrow> m \<in> f_msg ` set ms"
  shows "set (row_facts (analytics_rows db) evs) \<subseteq> set (facts_of C ms)"
proof
  fix f assume "f \<in> set (row_facts (analytics_rows db) evs)"
  then obtain r ev where rv: "(r, ev) \<in> set (zip (analytics_rows db) evs)"
    and f: "Some f = map_option (Pair (ob_event_id r)) (event_fact ev)"
    by (auto simp: row_facts_def List.map_filter_def)
  then have carries: "carries V S r ev"
    using assms(1) by (auto simp: list_all2_iff)
  have r: "r \<in> set (t_outbox db)" "ob_topic r = AnalyticsTopic"
    using set_zip_leftD [OF rv] by (simp_all add: analytics_rows_def)
  then have "message_of (row_encoded r) \<in> set log"
    using assms(5,6) by (auto simp: relay_ok_def unpublished_def filter_empty_conv)
  then obtain m where m: "m \<in> set ms" "f_msg m = message_of (row_encoded r)"
    using assms(7) r(2) by (fastforce simp: message_of_def row_encoded_def)
  have "fact_of C m = Some f"
    using carried_fact [OF carries _ _ assms(4) [OF r(1)] assms(3) m(2)] assms(2) f by (simp add: service_ok_def)
  with m(1) show "f \<in> set (facts_of C ms)" by (auto simp: facts_of_set)
qed

end
