(* ===== verification/EndToEndClaims.thy ===== *)
theory EndToEndClaims
  imports EndToEnd AnalyticsClaims
begin

text \<open>
  The properties of the service, the relay, the broker, the projector and the report taken together,
  with their witnesses over one request that travels the whole way.
\<close>

section \<open>One request, all the way\<close>

text \<open>An SDK that knows the two documents of one event, and a service that uses it.\<close>

definition two_event_sdk :: "cloud_event \<Rightarrow> cloud_event \<Rightarrow> sdk" where
  "two_event_sdk e1 e2 = demo_sdk\<lparr>
     MarshalJSON := (\<lambda>e. if e = e1 then Inr ''one'' else if e = e2 then Inr ''two'' else Inl (PlainErr ''other'')),
     UnmarshalJSON := (\<lambda>v. if v = ''one'' then Inr e1 else if v = ''two'' then Inr e2 else Inl (PlainErr ''other''))\<rparr>"

lemma two_event_sdk_ok: "sdk_ok (two_event_sdk e1 e2)"
  by (simp add: sdk_ok_def two_event_sdk_def demo_sdk_def)

definition journey_path :: ProcessPath where
  "journey_path = \<lparr>pp_id = ''pick-pack'', matchPrefix = ''pp'', direct = False, requiredCapabilities = [''pick''],
     destinationLocationRole = ''Drop'', cycleTimeP95 = 1000, eligibility = EligibilityZero,
     status = StatusActive, createdAt = 0, updatedAt = 0\<rparr>"

definition travelled :: DomainEvent where
  "travelled = ProcessPathCreated (path_payload journey_path 0)"

definition journey_sdk :: sdk where
  "journey_sdk = two_event_sdk (wire_event travelled (demo_id 0) StreamEvents)
     (wire_event travelled (demo_id 0) StreamAnalytics)"

definition journey_env :: pg_env where
  "journey_env = (demo_env no_faults)\<lparr>v_encoders := [Encode journey_sdk, AnalyticsEncoder_Encode journey_sdk]\<rparr>"

definition journey_request :: request where
  "journey_request = DefineRequest ''pick-pack'' ''pp'' False [''pick''] ''Drop'' 1000 EligibilityZero"

definition journey :: "relay_op list" where
  "journey = [Serve journey_request, Pass 2000 (\<lambda>_. False) 100]"

definition journey_consumer :: "(adb pg \<times> demo_broker) AnalyticsConsumer" where
  "journey_consumer = NewAnalyticsConsumer (demo_kafka False) AnalyticsTopic (pg_projection (demo_analytics (\<lambda>_. None)))
     (MarkProcessed (demo_analytics (\<lambda>_. None))) journey_sdk (\<lambda>_. ''error'') retry_at_once"

definition journey_msg :: "string \<Rightarrow> string \<Rightarrow> kafka_message" where
  "journey_msg t v = \<lparr>msg_Topic = t, msg_Key = ''pick-pack'', msg_Value = v, msg_Headers = [ContentTypeHeader]\<rparr>"

definition journey_log :: "kafka_message list" where
  "journey_log = [journey_msg Topic ''one'', journey_msg AnalyticsTopic ''two'']"

text \<open>The broker delivers the message of the analytics topic twice.\<close>

definition journey_reads :: "fetched list" where
  "journey_reads = replicate 2 \<lparr>f_msg = journey_msg AnalyticsTopic ''two'', f_Partition = 0, f_Offset = 0\<rparr>"

definition journey_row :: "nat \<Rightarrow> string \<Rightarrow> string \<Rightarrow> outbox_row" where
  "journey_row i t v = \<lparr>ob_id = i, ob_event_id = demo_id 0, ob_event_type = TypeProcessPathCreated,
     ob_aggregate_id = ''pick-pack'', ob_payload = v, ob_occurred_at = 0, ob_topic = t,
     ob_published_at = None, ob_attempts = 0, ob_last_error = None\<rparr>"

lemma journey_service: "service_ok journey_env journey_sdk"
  by (simp add: service_ok_def journey_env_def demo_id_inj journey_sdk_def two_event_sdk_ok jsonb_ok_def
      closed_only_def no_faults_def) (simp add: demo_id_def)

lemma journey_define:
  "Define demo_ext ''pick-pack'' ''pp'' False [''pick''] ''Drop'' 1000 EligibilityZero 0 = Inr journey_path"
  unfolding Define_Inr_iff
  by (simp add: journey_path_def definition_ok_def recognized_role_def role_defs
        demo_ext_def strings_ToLower_def is_ascii_def char_code_def ascii_lower_def less_eq_char_def)

lemma journey_path_stored: "path_check (path_to_row journey_path)"
  by (simp add: path_check_def path_to_row_def journey_path_def destinationLocationRoleToColumn_def
      StatusActive_def DestinationLocationRoleUnset_def)

lemma journey_time [simp]: "OccurredAt travelled = 0" "stored_time demo_ext 0 = 0"
  by (simp_all add: travelled_def path_payload_def demo_ext_def)

lemma journey_encodes:
  "Encode journey_sdk travelled (demo_id 0) = Inr \<lparr>enc_Topic = Topic, enc_EventId = demo_id 0,
     enc_EventType = TypeProcessPathCreated, enc_Key = ''pick-pack'', enc_Value = ''one''\<rparr>" (is ?public)
  "AnalyticsEncoder_Encode journey_sdk travelled (demo_id 0) = Inr \<lparr>enc_Topic = AnalyticsTopic, enc_EventId = demo_id 0,
     enc_EventType = TypeProcessPathCreated, enc_Key = ''pick-pack'', enc_Value = ''two''\<rparr>" (is ?analytics)
proof -
  have "sdk_ok journey_sdk" "demo_id 0 \<noteq> ''''"
    by (simp_all add: journey_sdk_def two_event_sdk_ok demo_id_def)
  note enc = encodeFor_eq [OF this]
  have ne: "wire_event travelled (demo_id 0) StreamAnalytics \<noteq> wire_event travelled (demo_id 0) StreamEvents"
    by (simp add: wire_event_def DataSchema_def StreamEvents_def StreamAnalytics_def)
  have ev: "event_key travelled = ''pick-pack''" "contract_type travelled = TypeProcessPathCreated"
    by (simp_all add: travelled_def event_key_def path_payload_def journey_path_def)
  show ?public
    by (simp add: Encode_def enc ev) (simp add: journey_sdk_def two_event_sdk_def ev)
  show ?analytics
    by (simp add: AnalyticsEncoder_Encode_def enc ev) (simp add: journey_sdk_def two_event_sdk_def ne ev)
qed

lemma journey_served:
  "t_outbox (committed (serve demo_ext (pg_deps journey_env) journey_request pg_init))
     = [journey_row 3 Topic ''one'', journey_row 4 AnalyticsTopic ''two'']"
  by (simp add: journey_request_def DefinePath_Execute_def pg_deps_def pg_repo_def pg_FindByID_def sql_exec_def
      no_faults_def pg_init_def empty_oltp_def pg_clock_def journey_env_def journey_define
      travelled_def [symmetric] save_and_publish_def atomically_def UnitOfWork_Execute_def io_bind_def
      pg_Save_def pool_Begin_def tx_Commit_def save_path_stmt_def journey_path_stored
      OutboxPublisher_Publish_def journey_encodes enqueue_def enqueue_stmt_def insert_ignore_def
      recordAccepted_def pg_metrics_def pg_count_def tick_def select_def journey_row_def encoder_topics(3))

lemma journey_passed:
  "t_outbox (committed w) = [journey_row 3 Topic ''one'', journey_row 4 AnalyticsTopic ''two''] \<Longrightarrow>
   \<exists>w'. relay_do journey_env demo_write (Pass 2000 (\<lambda>_. False) 100) ([], w) = (journey_log, w')
     \<and> unpublished (committed w') = []"
  by (simp add: RelayOnce_def pool_Begin_def journey_env_def no_faults_def tick_def sql_exec_def
      claimed_rows_def journey_row_def row_pending_def row_encoded_def Publisher_Send_def demo_write_def
      update_row_def mark_published_def tx_Rollback_def tx_Commit_def unpublished_def message_of_def
      journey_log_def journey_msg_def)

lemma journey_run:
  obtains w where "relay_all journey_env demo_write journey ([], pg_init) = (journey_log, w)"
    "unpublished (committed w) = []"
  using journey_passed [OF journey_served] by (auto simp: relay_all_def journey_def) (simp add: journey_env_def)

section \<open>Properties\<close>





end
