(* ===== verification/Concurrency.thy ===== *)
theory Concurrency
  imports PostgresRefine "HOL-Library.AList"
begin

text \<open>
  Requests at the same time. A use case reads outside the transaction that later stores what it
  computed, so between a call of a port and the next one other requests may commit. Here the use
  cases of \<open>UseCases\<close> are cut at those calls: a request in flight is a \<open>thread\<close>, one action is one
  call of a port or one whole Save-then-Publish scope, and a history is any list of actions. Alone
  (without an action of another thread) a cut use case does exactly what the use case does.
\<close>

section \<open>Use cases, call by call\<close>

text \<open>
  What a request still has to do: look up the remaining path ids of a schedule's cutoffs (with the
  schedule it found and the ids already seen), or store what it decided and publish the event.
\<close>

datatype thread =
    Validating SiteId string "Cutoff list" "CPTSchedule option" "PathId set" "PathId list"
  | NewPath ProcessPath DomainEvent
  | ChangedPath ProcessPath DomainEvent
  | ChangedSchedule CPTSchedule DomainEvent

definition define_start ::
    "ext \<Rightarrow> 'w Deps \<Rightarrow> PathId \<Rightarrow> string \<Rightarrow> bool \<Rightarrow> Capability list \<Rightarrow> DestinationLocationRole
     \<Rightarrow> duration \<Rightarrow> Eligibility \<Rightarrow> 'w \<Rightarrow> thread option \<times> 'w" where
  "define_start E U pid prefix dir caps role ct elig w =
     (case repo_FindByID (Repo U) Background pid w of
        (Inl _, w1) \<Rightarrow> (None, w1)
      | (Inr (Some _), w1) \<Rightarrow> (None, recordRejected U Background w1)
      | (Inr None, w1) \<Rightarrow>
          (case Clock U w1 of (now, w2) \<Rightarrow>
             (case Define E pid prefix dir caps role ct elig now of
                Inl _ \<Rightarrow> (None, recordRejected U Background w2)
              | Inr p \<Rightarrow> (Some (NewPath p (ProcessPathCreated (path_payload p now))), w2))))"

definition revise_start ::
    "ext \<Rightarrow> 'w Deps \<Rightarrow> PathId \<Rightarrow> string \<Rightarrow> Capability list \<Rightarrow> duration \<Rightarrow> Eligibility
     \<Rightarrow> 'w \<Rightarrow> thread option \<times> 'w" where
  "revise_start E U pid prefix caps ct elig w =
     (case repo_FindByID (Repo U) Background pid w of
        (Inr (Some p), w1) \<Rightarrow>
          (case Clock U w1 of (now, w2) \<Rightarrow>
             (case Revise E p prefix caps ct elig now of
                Inr (True, q) \<Rightarrow> (Some (ChangedPath q (ProcessPathUpdated (path_payload q now))), w2)
              | _ \<Rightarrow> (None, w2)))
      | (_, w1) \<Rightarrow> (None, w1))"

definition deactivate_start :: "'w Deps \<Rightarrow> PathId \<Rightarrow> 'w \<Rightarrow> thread option \<times> 'w" where
  "deactivate_start U pid w =
     (case repo_FindByID (Repo U) Background pid w of
        (Inr (Some p), w1) \<Rightarrow>
          if IsActive p then
            (case Clock U w1 of (now, w2) \<Rightarrow>
               (let q = Deactivate p now
                in (Some (ChangedPath q (ProcessPathDeactivated (pp_id q) now)), w2)))
          else (None, w1)
      | (_, w1) \<Rightarrow> (None, w1))"

definition schedule_start ::
    "'w Deps \<Rightarrow> SiteId \<Rightarrow> string \<Rightarrow> Cutoff list \<Rightarrow> 'w \<Rightarrow> thread option \<times> 'w" where
  "schedule_start U site tz cs w =
     (case sched_FindBySiteID (ScheduleRepo U) Background site w of
        (Inl _, w1) \<Rightarrow> (None, w1)
      | (Inr existing, w1) \<Rightarrow>
          (Some (Validating site tz cs existing {} (concat (map eligiblePathIds cs))), w1))"

text \<open>One round of \<open>validateEligiblePathIds\<close>, and what follows its last one.\<close>

definition schedule_check ::
    "'w Deps \<Rightarrow> SiteId \<Rightarrow> string \<Rightarrow> Cutoff list \<Rightarrow> CPTSchedule option \<Rightarrow> PathId set \<Rightarrow> PathId
     \<Rightarrow> PathId list \<Rightarrow> 'w \<Rightarrow> thread option \<times> 'w" where
  "schedule_check U site tz cs existing checked i is w =
     (if i \<in> checked then (Some (Validating site tz cs existing checked is), w)
      else (case repo_FindByID (Repo U) Background i w of
              (Inr (Some p), w1) \<Rightarrow>
                (if IsActive p then (Some (Validating site tz cs existing (insert i checked) is), w1)
                 else (None, w1))
            | (_, w1) \<Rightarrow> (None, w1)))"

definition schedule_decide ::
    "ext \<Rightarrow> 'w Deps \<Rightarrow> SiteId \<Rightarrow> string \<Rightarrow> Cutoff list \<Rightarrow> CPTSchedule option \<Rightarrow> 'w
     \<Rightarrow> thread option \<times> 'w" where
  "schedule_decide E U site tz cs existing w =
     (case Clock U w of (now, w1) \<Rightarrow>
        (case (case existing of
                 None \<Rightarrow> map_sum id (Pair True) (cpt_Define E site tz cs now)
               | Some s \<Rightarrow> cpt_Revise E s tz cs now) of
           Inr (True, s) \<Rightarrow> (Some (ChangedSchedule s (CPTScheduleChanged (ToSnapshot s now))), w1)
         | _ \<Rightarrow> (None, w1)))"

text \<open>The Save-then-Publish scope at the end of a use case.\<close>

fun store_result :: "'w Deps \<Rightarrow> thread \<Rightarrow> ('w, unit) io" where
  "store_result U (NewPath p ev) w =
     (case save_and_publish U Background (\<lambda>c. repo_Save (Repo U) c p) ev w of
        (Inl e, w1) \<Rightarrow> (Inl e, w1)
      | (Inr _, w1) \<Rightarrow> (Inr (), recordAccepted U Background w1))"
| "store_result U (ChangedPath q ev) w = save_and_publish U Background (\<lambda>c. repo_Save (Repo U) c q) ev w"
| "store_result U (ChangedSchedule s ev) w =
     save_and_publish U Background (\<lambda>c. sched_Save (ScheduleRepo U) c s) ev w"
| "store_result U (Validating _ _ _ _ _ _) w = (Inr (), w)"

fun begin_request :: "ext \<Rightarrow> 'w Deps \<Rightarrow> request \<Rightarrow> 'w \<Rightarrow> thread option \<times> 'w" where
  "begin_request E U (DefineRequest i pr d cs ro ct el) w = define_start E U i pr d cs ro ct el w"
| "begin_request E U (ReviseRequest i pr cs ct el) w = revise_start E U i pr cs ct el w"
| "begin_request E U (DeactivateRequest i) w = deactivate_start U i w"
| "begin_request E U (ScheduleRequest site tz cs) w = schedule_start U site tz cs w"
| "begin_request E U (GetRequest i) w = (None, serve E U (GetRequest i) w)"
| "begin_request E U (ListRequest a) w = (None, serve E U (ListRequest a) w)"
| "begin_request E U (GetScheduleRequest site) w = (None, serve E U (GetScheduleRequest site) w)"

fun continue_request :: "ext \<Rightarrow> 'w Deps \<Rightarrow> thread \<Rightarrow> 'w \<Rightarrow> thread option \<times> 'w" where
  "continue_request E U (Validating site tz cs existing checked (i # is)) w =
     schedule_check U site tz cs existing checked i is w"
| "continue_request E U (Validating site tz cs existing checked []) w =
     schedule_decide E U site tz cs existing w"
| "continue_request E U (NewPath p ev) w = (None, snd (store_result U (NewPath p ev) w))"
| "continue_request E U (ChangedPath p ev) w = (None, snd (store_result U (ChangedPath p ev) w))"
| "continue_request E U (ChangedSchedule s ev) w = (None, snd (store_result U (ChangedSchedule s ev) w))"

section \<open>Histories of actions\<close>

text \<open>
  The requests in flight, by the number of their goroutine; a goroutine has one request at a time
  and may never go on (its process was killed).
\<close>

type_synonym in_flight = "(nat \<times> request \<times> thread) list"

datatype action = Begin nat request | Continue nat

definition put_thread :: "nat \<Rightarrow> request \<Rightarrow> thread option \<Rightarrow> in_flight \<Rightarrow> in_flight" where
  "put_thread k r t P = (case t of None \<Rightarrow> AList.delete k P | Some u \<Rightarrow> AList.update k (r, u) P)"

fun act :: "ext \<Rightarrow> 'w Deps \<Rightarrow> action \<Rightarrow> in_flight \<times> 'w \<Rightarrow> in_flight \<times> 'w" where
  "act E U (Begin k r) (P, w) =
     (case map_of P k of
        Some _ \<Rightarrow> (P, w)
      | None \<Rightarrow> (case begin_request E U r w of (t, w1) \<Rightarrow> (put_thread k r t P, w1)))"
| "act E U (Continue k) (P, w) =
     (case map_of P k of
        None \<Rightarrow> (P, w)
      | Some (r, t) \<Rightarrow> (case continue_request E U t w of (t', w1) \<Rightarrow> (put_thread k r t' P, w1)))"

definition run_actions :: "ext \<Rightarrow> 'w Deps \<Rightarrow> action list \<Rightarrow> in_flight \<times> 'w \<Rightarrow> in_flight \<times> 'w" where
  "run_actions E U as = fold (act E U) as"

lemma run_actions_simps [simp]:
  "run_actions E U [] s = s" "run_actions E U (a # as) s = run_actions E U as (act E U a s)"
  by (simp_all add: run_actions_def)

lemma map_of_put_thread: "map_of (put_thread k r t P) = (map_of P)(k := map_option (Pair r) t)"
  by (simp add: put_thread_def update_conv' delete_conv' split: option.splits)

section \<open>Alone, a cut use case is the use case\<close>

fun alone :: "ext \<Rightarrow> 'w Deps \<Rightarrow> nat \<Rightarrow> thread option \<times> 'w \<Rightarrow> thread option \<times> 'w" where
  "alone E U (Suc n) (Some t, w) = alone E U n (continue_request E U t w)"
| "alone E U _ s = s"

text \<open>How many actions a request takes after its first.\<close>

fun actions_of :: "request \<Rightarrow> nat" where
  "actions_of (ScheduleRequest site tz cs) = length (concat (map eligiblePathIds cs)) + 2"
| "actions_of r = 1"

lemma check_ids_append:
  "check_ids U c checked (is @ js) w = io_bind (check_ids U c checked is) (\<lambda>seen. check_ids U c seen js) w"
  by (induction "is" arbitrary: checked w) (auto simp: io_bind_def split: prod.splits sum.splits option.splits)

lemma check_cutoffs_ids: "check_cutoffs U c checked cs w = check_ids U c checked (concat (map eligiblePathIds cs)) w"
proof (induction cs arbitrary: checked w)
  case (Cons x xs)
  then show ?case by (simp add: check_ids_append io_bind_def split: prod.splits sum.splits)
qed simp

lemma alone_stop [simp]: "alone E U n (None, w) = (None, w)"
  by (cases n) simp_all

text \<open>What is left of \<open>DefineCPTSchedule\<close> once its first read is done.\<close>

definition schedule_rest ::
    "ext \<Rightarrow> 'w Deps \<Rightarrow> SiteId \<Rightarrow> string \<Rightarrow> Cutoff list \<Rightarrow> CPTSchedule option \<Rightarrow> PathId set
     \<Rightarrow> PathId list \<Rightarrow> 'w \<Rightarrow> 'w" where
  "schedule_rest E U site tz cs existing checked is w =
     (case check_ids U Background checked is w of
        (Inl _, w1) \<Rightarrow> w1
      | (Inr _, w1) \<Rightarrow>
          (case schedule_decide E U site tz cs existing w1 of
             (None, w2) \<Rightarrow> w2 | (Some t, w2) \<Rightarrow> snd (store_result U t w2)))"

lemma schedule_decide_cases:
  "schedule_decide E U site tz cs existing w = (t, w1) \<Longrightarrow>
    t = None \<or> (\<exists>s ev. t = Some (ChangedSchedule s ev))"
  by (auto simp: schedule_decide_def split: prod.splits sum.splits bool.splits)

lemma alone_validating:
  "alone E U (length is + 2) (Some (Validating site tz cs existing checked is), w)
     = (None, schedule_rest E U site tz cs existing checked is w)"
proof (induction "is" arbitrary: checked w)
  case Nil
  obtain t w1 where d: "schedule_decide E U site tz cs existing w = (t, w1)" by fastforce
  then show ?case
    using schedule_decide_cases [OF d] by (auto simp: schedule_rest_def numeral_2_eq_2)
next
  case (Cons i "is")
  then show ?case
    by (auto simp: schedule_check_def schedule_rest_def split: prod.splits sum.splits option.splits)
qed

lemma serve_schedule_rest:
  assumes "sched_FindBySiteID (ScheduleRepo U) Background site w = (Inr existing, w1)"
  shows "serve E U (ScheduleRequest site tz cs) w
     = schedule_rest E U site tz cs existing {} (concat (map eligiblePathIds cs)) w1"
  using assms
  by (auto simp: DefineCPTSchedule_Execute_def schedule_rest_def schedule_decide_def
      validateEligiblePathIds_def check_cutoffs_ids split: prod.splits sum.splits bool.splits)

lemma alone_serves: "alone E U (actions_of r) (begin_request E U r w) = (None, serve E U r w)"
proof (cases r)
  case (ScheduleRequest site tz cs)
  obtain x w1 where f: "sched_FindBySiteID (ScheduleRepo U) Background site w = (x, w1)" by fastforce
  show ?thesis
  proof (cases x)
    case (Inl e)
    then show ?thesis
      using f by (simp add: ScheduleRequest schedule_start_def DefineCPTSchedule_Execute_def)
  next
    case (Inr existing)
    note f = f [unfolded Inr]
    show ?thesis
      unfolding ScheduleRequest serve_schedule_rest [OF f]
      by (simp only: begin_request.simps schedule_start_def f prod.case sum.case actions_of.simps
          alone_validating)
  qed
qed (auto simp: define_start_def revise_start_def deactivate_start_def DefinePath_Execute_def
    RevisePath_Execute_def DeactivatePath_Execute_def Let_def
    split: prod.splits sum.splits option.splits bool.splits)

text \<open>The actions of a request that nobody interrupts, and of requests one after the other.\<close>

definition alone_actions :: "nat \<Rightarrow> request \<Rightarrow> action list" where
  "alone_actions k r = Begin k r # replicate (actions_of r) (Continue k)"

lemma run_actions_append: "run_actions E U (as @ bs) s = run_actions E U bs (run_actions E U as s)"
  by (simp add: run_actions_def)

lemma run_alone:
  "run_actions E U (replicate n (Continue k)) (put_thread k r t [], w) =
     (case alone E U n (t, w) of (t', w') \<Rightarrow> (put_thread k r t' [], w'))"
proof (induction n arbitrary: t w)
  case (Suc n)
  show ?case
  proof (cases t)
    case None
    then have "run_actions E U (replicate m (Continue k)) ([], w) = ([], w)" for m
      by (induction m) simp_all
    then show ?thesis using None by (simp add: put_thread_def)
  next
    case (Some u)
    obtain t' w' where c: "continue_request E U u w = (t', w')" by fastforce
    have "act E U (Continue k) (put_thread k r t [], w) = (put_thread k r t' [], w')"
      using c Some by (simp add: map_of_put_thread put_thread_def split: option.splits)
    then show ?thesis using Suc [of t' w'] c Some by simp
  qed
qed simp

lemma run_alone_actions: "run_actions E U (alone_actions k r) ([], w) = ([], serve E U r w)"
proof -
  obtain t w' where b: "begin_request E U r w = (t, w')" by fastforce
  then have "alone E U (actions_of r) (t, w') = (None, serve E U r w)"
    using alone_serves [of E U r w] by simp
  then show ?thesis
    using run_alone [of E U "actions_of r" k r t w'] b
    by (simp add: alone_actions_def put_thread_def)
qed

section \<open>What one action does to the catalogue\<close>

definition cutoff_ids :: "Cutoff list \<Rightarrow> PathId set" where
  "cutoff_ids cs = (\<Union>x \<in> set cs. set (eligiblePathIds x))"

lemma set_concat_ids: "set (concat (map eligiblePathIds cs)) = cutoff_ids cs"
  by (simp add: cutoff_ids_def)

lemma eligible_in_ids: "eligible_in C cs \<longleftrightarrow> (\<forall>i \<in> cutoff_ids cs. active_in C i)"
  by (auto simp: eligible_in_def list_all_iff cutoff_ids_def)

text \<open>A thread that stores its result in the catalogue \<open>C\<close>, whatever it had read.\<close>

fun stored_by ::
    "(ProcessPath option \<Rightarrow> ProcessPath \<Rightarrow> ProcessPath) \<Rightarrow> (CPTSchedule option \<Rightarrow> CPTSchedule \<Rightarrow> CPTSchedule)
     \<Rightarrow> (DomainEvent \<Rightarrow> 'm list \<Rightarrow> bool) \<Rightarrow> thread \<Rightarrow> 'm catalogue \<Rightarrow> 'm catalogue \<Rightarrow> bool" where
  "stored_by sp ss emit (NewPath p ev) C C' \<longleftrightarrow> published emit ev (put_path sp p C) C'"
| "stored_by sp ss emit (ChangedPath p ev) C C' \<longleftrightarrow> published emit ev (put_path sp p C) C'"
| "stored_by sp ss emit (ChangedSchedule s ev) C C' \<longleftrightarrow> published emit ev (put_schedule ss s C) C'"
| "stored_by sp ss emit (Validating _ _ _ _ _ _) C C' \<longleftrightarrow> False"

text \<open>
  What was true of the catalogue when a request in flight read it. \<open>timely E C r t\<close>: the thread \<open>t\<close> of
  the request \<open>r\<close> is what \<open>r\<close> would have come to had it read \<open>C\<close>.
\<close>

fun timely :: "ext \<Rightarrow> 'm catalogue \<Rightarrow> request \<Rightarrow> thread \<Rightarrow> bool" where
  "timely E C (DefineRequest i pr d cs ro ct el) (NewPath p ev) \<longleftrightarrow>
     cat_paths C i = None \<and> (\<exists>now. Define E i pr d cs ro ct el now = Inr p
       \<and> ev = ProcessPathCreated (path_payload p now))"
| "timely E C (ReviseRequest i pr cs ct el) (ChangedPath q ev) \<longleftrightarrow>
     (\<exists>p now. cat_paths C i = Some p \<and> Revise E p pr cs ct el now = Inr (True, q)
       \<and> ev = ProcessPathUpdated (path_payload q now))"
| "timely E C (DeactivateRequest i) (ChangedPath q ev) \<longleftrightarrow>
     (\<exists>p now. cat_paths C i = Some p \<and> IsActive p \<and> q = Deactivate p now
       \<and> ev = ProcessPathDeactivated (pp_id q) now)"
| "timely E C (ScheduleRequest site tz cs) (Validating site' tz' cs' ex checked is) \<longleftrightarrow>
     site' = site \<and> tz' = tz \<and> cs' = cs \<and> ex = cat_schedules C site
       \<and> (\<forall>i \<in> checked. active_in C i) \<and> checked \<union> set is = cutoff_ids cs"
| "timely E C (ScheduleRequest site tz cs) (ChangedSchedule s ev) \<longleftrightarrow> eligible_in C cs
     \<and> (\<exists>now. (case cat_schedules C site of
                 None \<Rightarrow> cpt_Define E site tz cs now = Inr s
               | Some s0 \<Rightarrow> cpt_Revise E s0 tz cs now = Inr (True, s))
          \<and> ev = CPTScheduleChanged (ToSnapshot s now))"
| "timely E C _ _ \<longleftrightarrow> False"

lemma timely_store_is_step:
  assumes "timely E C r t" "stored_by sp ss emit t C C'"
  shows "cat_step E sp ss emit C C'"
  using assms
proof (induction E C r t rule: timely.induct)
  case (5 E C site tz cs s ev)
  then show ?case
    by (cases "cat_schedules C site") (auto intro: step_new_schedule step_revised_schedule)
qed (auto intro: step_define step_revise step_deactivate)

lemma active_in_cong: "cat_paths C' i = cat_paths C i \<Longrightarrow> active_in C' i = active_in C i"
  by (simp add: active_in_def)

text \<open>What a request reads and what it may change.\<close>

fun path_reads :: "request \<Rightarrow> PathId list" where
  "path_reads (DefineRequest i pr d cs ro ct el) = [i]"
| "path_reads (ReviseRequest i pr cs ct el) = [i]"
| "path_reads (DeactivateRequest i) = [i]"
| "path_reads (ScheduleRequest site tz cs) = concat (map eligiblePathIds cs)"
| "path_reads _ = []"

fun path_writes :: "request \<Rightarrow> PathId list" where
  "path_writes (ScheduleRequest site tz cs) = []"
| "path_writes r = path_reads r"

fun site_writes :: "request \<Rightarrow> SiteId list" where
  "site_writes (ScheduleRequest site tz cs) = [site]"
| "site_writes _ = []"

text \<open>Requests that do not disturb each other: neither changes what the other reads.\<close>

definition apart :: "request \<Rightarrow> request \<Rightarrow> bool" where
  "apart r r' \<longleftrightarrow> set (path_writes r) \<inter> set (path_reads r') = {}
     \<and> set (path_writes r') \<inter> set (path_reads r) = {}
     \<and> set (site_writes r) \<inter> set (site_writes r') = {}"

lemma apart_sym: "apart r r' \<longleftrightarrow> apart r' r"
  by (auto simp: apart_def)

lemma timely_cong:
  assumes "timely E C r t" "\<And>i. i \<in> set (path_reads r) \<Longrightarrow> cat_paths C' i = cat_paths C i"
    and "\<And>site. site \<in> set (site_writes r) \<Longrightarrow> cat_schedules C' site = cat_schedules C site"
  shows "timely E C' r t"
  using assms
proof (induction E C r t rule: timely.induct)
  case (4 E C site tz cs site' tz' cs' ex checked "is")
  then have "active_in C' i = active_in C i" if "i \<in> checked" for i
    using that by (intro active_in_cong) (auto simp: set_concat_ids simp del: set_concat)
  then show ?case using 4 by auto
next
  case (5 E C site tz cs s ev)
  then have "active_in C' i = active_in C i" if "i \<in> cutoff_ids cs" for i
    using that by (intro active_in_cong) (auto simp: set_concat_ids simp del: set_concat)
  then show ?case using 5 by (auto simp: eligible_in_ids)
qed auto

lemma stored_by_frame:
  assumes "timely E C r t" "keyed C" "stored_by sp ss emit t C C'"
  shows "i \<notin> set (path_writes r) \<Longrightarrow> cat_paths C' i = cat_paths C i"
    and "site \<notin> set (site_writes r) \<Longrightarrow> cat_schedules C' site = cat_schedules C site"
  using assms
  by (induction E C r t rule: timely.induct)
    (auto simp: published_fields put_path_paths put_schedule_schedules Define_id Revise_frame(1)
      cpt_Define_Inr_iff cpt_Revise_frame keyed_def split: option.splits)

section \<open>What no interleaving breaks\<close>

text \<open>
  What stays true of a thread while others change the catalogue: paths are never removed, and the
  event belongs to what is stored.
\<close>

fun thread_ok :: "'m catalogue \<Rightarrow> thread \<Rightarrow> bool" where
  "thread_ok C (Validating site tz cs ex checked is) \<longleftrightarrow>
     checked \<subseteq> dom (cat_paths C) \<and> cutoff_ids cs \<subseteq> checked \<union> set is"
| "thread_ok C (NewPath p ev) \<longleftrightarrow> pp_id p \<noteq> '''' \<and> IsActive p
     \<and> (\<exists>now. ev = ProcessPathCreated (path_payload p now))"
| "thread_ok C (ChangedPath q ev) \<longleftrightarrow> pp_id q \<noteq> '''' \<and> pp_id q \<in> dom (cat_paths C)
     \<and> (IsActive q \<and> (\<exists>now. ev = ProcessPathUpdated (path_payload q now))
        \<or> status q = StatusDeactivated \<and> (\<exists>now. ev = ProcessPathDeactivated (pp_id q) now))"
| "thread_ok C (ChangedSchedule s ev) \<longleftrightarrow> cutoff_ids (cs_cutoffs s) \<subseteq> dom (cat_paths C)
     \<and> (\<exists>now. ev = CPTScheduleChanged (ToSnapshot s now))"

lemma thread_ok_mono: "thread_ok C t \<Longrightarrow> dom (cat_paths C) \<subseteq> dom (cat_paths C') \<Longrightarrow> thread_ok C' t"
  by (cases t) (simp_all, blast+)

lemma active_in_dom: "active_in C i \<Longrightarrow> i \<in> dom (cat_paths C)"
  by (auto simp: active_in_def split: option.splits)

lemma timely_thread_ok: "timely E C r t \<Longrightarrow> keyed C \<Longrightarrow> thread_ok C t"
proof (induction E C r t rule: timely.induct)
  case (2 E C i pr cs ct el q ev)
  then obtain p now where p: "cat_paths C i = Some p" "Revise E p pr cs ct el now = Inr (True, q)"
    "ev = ProcessPathUpdated (path_payload q now)" by auto
  then have "IsActive q" by (auto simp: Revise_Inr_iff IsActive_def)
  then show ?case using p 2 Revise_frame(1) [OF p(2)] by (auto simp: keyed_def)
next
  case (5 E C site tz cs s ev)
  then have "cs_cutoffs s = cs"
    by (auto simp: cpt_Define_Inr_iff cpt_Revise_frame split: option.splits)
  then show ?case using 5 active_in_dom by (fastforce simp: eligible_in_ids)
qed (auto simp: Define_Inr_iff IsActive_def keyed_def Deactivate_def dest: active_in_dom)

text \<open>
  What the messages tell of the paths when writes may be late: which exist, and whether each is
  active. (The other fields that \<open>told\<close> speaks of may be behind.)
\<close>

definition announced :: "(DomainEvent \<Rightarrow> 'm list \<Rightarrow> bool) \<Rightarrow> 'm catalogue \<Rightarrow> DomainEvent list \<Rightarrow> bool" where
  "announced emit C evs \<longleftrightarrow> (\<exists>mss. list_all2 emit evs mss \<and> cat_msgs C = concat mss)
     \<and> (\<forall>i. map_option status (cat_paths C i) = map_option (snd \<circ> snd) (learned evs i))"

lemma told_announced:
  assumes "told emit C evs"
  shows "announced emit C evs"
proof -
  have "map_option path_digest (cat_paths C i) = learned evs i" for i
    using assms by (simp add: told_def)
  from this [symmetric] show ?thesis
    using assms by (simp add: announced_def told_def option.map_comp path_digest_def o_def)
qed

lemma published_announced:
  assumes "published emit ev C C'" "cat_msgs C = cat_msgs C0" "announced emit C0 evs"
    and "\<And>i. map_option status (cat_paths C i) = map_option (snd \<circ> snd) (learned (evs @ [ev]) i)"
  shows "announced emit C' (evs @ [ev])"
proof -
  obtain ms mss where "emit ev ms" "C' = put_msgs ms C" "list_all2 emit evs mss"
    "cat_msgs C0 = concat mss"
    using assms by (auto simp: published_def announced_def)
  then show ?thesis
    using assms(2,4) unfolding announced_def by (auto intro!: exI [of _ "mss @ [ms]"] list_all2_appendI)
qed

text \<open>
  A storage that never overwrites the identity of a row that is there, whatever it is told to store
  (the \<open>ON CONFLICT\<close> clause of Postgres; the in-memory map is not one).
\<close>

locale merging_storage = storage sp ss
  for sp :: "ProcessPath option \<Rightarrow> ProcessPath \<Rightarrow> ProcessPath"
    and ss :: "CPTSchedule option \<Rightarrow> CPTSchedule \<Rightarrow> CPTSchedule" +
  assumes sp_keeps: "pp_id q = pp_id p \<Longrightarrow> same_identity q (sp (Some q) p)"
begin

lemma stored_by_identity:
  assumes "stored_by sp ss emit t C C'" "keyed C" "cat_paths C i = Some p"
  shows "\<exists>q. cat_paths C' i = Some q \<and> same_identity p q"
proof -
  have put: "\<exists>q. cat_paths (put_path sp p' C) i = Some q \<and> same_identity p q" for p'
    using keyedD [OF assms(2,3)] assms(3) sp_keeps [of p p']
    by (cases "i = pp_id p'") (auto simp: put_path_paths)
  show ?thesis using assms put by (cases t) (auto simp: published_fields)
qed

lemma stored_by_grows: "stored_by sp ss emit t C C' \<Longrightarrow> dom (cat_paths C) \<subseteq> dom (cat_paths C')"
  by (cases t) (auto simp: published_fields put_path_paths)

lemma stored_by_keyed:
  assumes "stored_by sp ss emit t C C'" "thread_ok C t" "keyed C"
  shows "keyed C'"
proof (cases t)
  case (NewPath p ev)
  then have "keyed (put_path sp p C)" using assms(2,3) by (intro keyed_put_path) simp_all
  then show ?thesis using assms(1) by (simp add: NewPath published_keyed)
next
  case (ChangedPath p ev)
  have "IsActive p \<or> status p = StatusDeactivated" using assms(2) unfolding ChangedPath by auto
  then have "keyed (put_path sp p C)" using assms(2,3) by (intro keyed_put_path) (simp_all add: ChangedPath)
  then show ?thesis using assms(1) by (simp add: ChangedPath published_keyed)
next
  case (ChangedSchedule s ev)
  then show ?thesis using assms(1) keyed_put_schedule [OF assms(3)] by (simp add: published_keyed)
qed (use assms in simp)

lemma stored_by_refs:
  assumes "stored_by sp ss emit t C C'" "thread_ok C t" "refs_exist C"
  shows "refs_exist C'"
proof (cases t)
  case (ChangedSchedule s ev)
  have "set (eligiblePathIds x) \<subseteq> dom (cat_paths C)" if "x \<in> set (cs_cutoffs (ss old s))" for x old
    using subsetD [OF ss_fields(2) that] assms(2) by (auto simp: ChangedSchedule cutoff_ids_def)
  then have "refs_exist (put_schedule ss s C)"
    using assms(3) by (auto simp: refs_exist_def stored)
  then show ?thesis using assms(1) by (simp add: ChangedSchedule published_refs)
qed (use assms in \<open>auto simp: published_refs refs_put_path\<close>)

lemma stored_by_announced:
  assumes "stored_by sp ss emit t C C'" "thread_ok C t" "announced emit C evs"
  shows "\<exists>ev. announced emit C' (evs @ [ev])"
proof -
  have l: "map_option status (cat_paths C i) = map_option (snd \<circ> snd) (learned evs i)" for i
    using assms(3) by (simp add: announced_def)
  show ?thesis
  proof (cases t)
    case (NewPath p ev)
    have pub: "published emit ev (put_path sp p C) C'" using assms(1) by (simp add: NewPath)
    obtain now where "ev = ProcessPathCreated (path_payload p now)" "status p = StatusActive"
      using assms(2) by (auto simp: NewPath IsActive_def)
    then have "announced emit C' (evs @ [ev])"
      by (intro published_announced [OF pub _ assms(3)]) (simp_all add: stored path_payload_def l)
    then show ?thesis ..
  next
    case (ChangedPath q ev)
    have pub: "published emit ev (put_path sp q C) C'" using assms(1) by (simp add: ChangedPath)
    obtain p where "cat_paths C (pp_id q) = Some p" using assms(2) by (auto simp: ChangedPath)
    then obtain pr cs st where known: "learned evs (pp_id q) = Some (pr, cs, st)"
      using l [of "pp_id q"] by (cases "learned evs (pp_id q)") auto
    obtain now where "ev = ProcessPathUpdated (path_payload q now) \<and> status q = StatusActive
        \<or> ev = ProcessPathDeactivated (pp_id q) now \<and> status q = StatusDeactivated"
      using assms(2) by (auto simp: ChangedPath IsActive_def)
    then have "map_option status (cat_paths (put_path sp q C) i)
        = map_option (snd \<circ> snd) (learned (evs @ [ev]) i)" for i
      by (elim disjE conjE) (simp_all add: stored path_payload_def l known)
    then have "announced emit C' (evs @ [ev])"
      by (intro published_announced [OF pub _ assms(3)]) simp_all
    then show ?thesis ..
  next
    case (ChangedSchedule s ev)
    have pub: "published emit ev (put_schedule ss s C) C'" using assms(1) by (simp add: ChangedSchedule)
    obtain now where "ev = CPTScheduleChanged (ToSnapshot s now)"
      using assms(2) by (auto simp: ChangedSchedule)
    then have "announced emit C' (evs @ [ev])"
      by (intro published_announced [OF pub _ assms(3)]) (simp_all add: l)
    then show ?thesis ..
  qed (use assms in auto)
qed

end

text \<open>
  A history that begins a request only when it is apart from every request in flight.
\<close>

definition spaced :: "action \<Rightarrow> in_flight \<Rightarrow> bool" where
  "spaced a P = (case a of Begin k r \<Rightarrow> list_all (\<lambda>(_, r', _). apart r r') P | Continue k \<Rightarrow> True)"

fun all_spaced :: "ext \<Rightarrow> 'w Deps \<Rightarrow> action list \<Rightarrow> in_flight \<times> 'w \<Rightarrow> bool" where
  "all_spaced E U [] s = True"
| "all_spaced E U (a # as) s = (spaced a (fst s) \<and> all_spaced E U as (act E U a s))"

section \<open>Actions over an adapter\<close>

locale concurrent_application =
  stepwise_application repo srepo pub inv view sp ss emit U + merging_storage sp ss
  for repo :: "'w ProcessPathRepo" and srepo :: "'w CPTScheduleRepo" and pub :: "'w EventPublisher"
    and inv :: "'w \<Rightarrow> bool" and view :: "ctx \<Rightarrow> 'w \<Rightarrow> 'm catalogue"
    and sp :: "ProcessPath option \<Rightarrow> ProcessPath \<Rightarrow> ProcessPath"
    and ss :: "CPTSchedule option \<Rightarrow> CPTSchedule \<Rightarrow> CPTSchedule"
    and emit :: "DomainEvent \<Rightarrow> 'm list \<Rightarrow> bool" and U :: "'w Deps"
begin

text \<open>An action that only reads, and leaves a thread of which \<open>Q\<close> holds, if any.\<close>

definition reading :: "'w \<Rightarrow> (thread \<Rightarrow> bool) \<Rightarrow> thread option \<times> 'w \<Rightarrow> bool" where
  "reading w Q s \<longleftrightarrow> inv (snd s) \<and> view Background (snd s) = view Background w
     \<and> (\<forall>t. fst s = Some t \<longrightarrow> Q t)"

lemma reading_None: "inv w' \<Longrightarrow> view Background w' = view Background w \<Longrightarrow> reading w Q (None, w')"
  by (simp add: reading_def)

lemma define_start_reads:
  assumes "inv w"
  shows "reading w (timely E (view Background w) (DefineRequest i pr d cs ro ct el))
    (define_start E U i pr d cs ro ct el w)"
proof -
  obtain r w1 where f: "repo_FindByID (Repo U) Background i w = (r, w1)" by fastforce
  obtain now w2 where k: "Clock U w1 = (now, w2)" by (cases "Clock U w1")
  note b = find_background [OF assms f]
  have "cat_paths (view Background w) i = None" if "r = Inr None"
    using find_pathD(1) [OF assms f [unfolded that]] .
  then show ?thesis
    using b clockD(1) [OF k, of Background] clockD(2) [OF k] rejected_frame
    by (auto simp: define_start_def f k reading_def split: sum.splits option.splits)
qed

lemma revise_start_reads:
  assumes "inv w"
  shows "reading w (timely E (view Background w) (ReviseRequest i pr cs ct el))
    (revise_start E U i pr cs ct el w)"
proof -
  obtain r w1 where f: "repo_FindByID (Repo U) Background i w = (r, w1)" by fastforce
  obtain now w2 where k: "Clock U w1 = (now, w2)" by (cases "Clock U w1")
  note b = find_background [OF assms f]
  have "cat_paths (view Background w) i = Some p" if "r = Inr (Some p)" for p
    using find_pathD(1) [OF assms f [unfolded that]] .
  then show ?thesis
    using b clockD(1) [OF k, of Background] clockD(2) [OF k]
    by (auto simp: revise_start_def f k reading_def split: sum.splits option.splits bool.splits)
qed

lemma deactivate_start_reads:
  assumes "inv w"
  shows "reading w (timely E (view Background w) (DeactivateRequest i)) (deactivate_start U i w)"
proof -
  obtain r w1 where f: "repo_FindByID (Repo U) Background i w = (r, w1)" by fastforce
  obtain now w2 where k: "Clock U w1 = (now, w2)" by (cases "Clock U w1")
  note b = find_background [OF assms f]
  have "cat_paths (view Background w) i = Some p" if "r = Inr (Some p)" for p
    using find_pathD(1) [OF assms f [unfolded that]] .
  then show ?thesis
    using b clockD(1) [OF k, of Background] clockD(2) [OF k]
    by (auto simp: deactivate_start_def f k reading_def Let_def split: sum.splits option.splits)
qed

lemma begin_request_reads:
  assumes "inv w"
  shows "reading w (timely E (view Background w) r) (begin_request E U r w)"
proof (cases r)
  case (ScheduleRequest site tz cs)
  obtain x w1 where f: "sched_FindBySiteID (ScheduleRepo U) Background site w = (x, w1)" by fastforce
  have "cat_schedules (view Background w) site = ex" if "x = Inr ex" for ex
    using find_scheduleD(1) [OF assms f [unfolded that]] .
  then show ?thesis
    using find_schedule_background [OF assms f]
    by (auto simp: ScheduleRequest schedule_start_def f reading_def set_concat_ids
        simp del: set_concat split: sum.splits)
next
  case (GetRequest i)
  obtain x w1 where f: "repo_FindByID (Repo U) Background i w = (x, w1)" by fastforce
  show ?thesis
    using find_background [OF assms f] f
    by (auto simp: GetRequest GetPath_Execute_def reading_def split: sum.splits option.splits)
next
  case (ListRequest a)
  then show ?thesis
    using assms by (auto simp: ListPaths_Execute_def deps list_view path_inv reading_def)
next
  case (GetScheduleRequest site)
  obtain x w1 where f: "sched_FindBySiteID (ScheduleRepo U) Background site w = (x, w1)" by fastforce
  show ?thesis
    using find_schedule_background [OF assms f] f
    by (auto simp: GetScheduleRequest GetCPTSchedule_Execute_def reading_def
        split: sum.splits option.splits)
qed (simp_all add: assms define_start_reads revise_start_reads deactivate_start_reads)

lemma schedule_check_reads:
  assumes "inv w" "checked \<subseteq> dom (cat_paths (view Background w))" "cutoff_ids cs \<subseteq> checked \<union> set (i # is)"
  shows "reading w (\<lambda>u. thread_ok (view Background w) u
      \<and> (\<forall>r. timely E (view Background w) r (Validating site tz cs ex checked (i # is))
             \<longrightarrow> timely E (view Background w) r u))
    (schedule_check U site tz cs ex checked i is w)"
proof -
  obtain x w1 where f: "repo_FindByID (Repo U) Background i w = (x, w1)" by fastforce
  have seen: "cat_paths (view Background w) i = Some p" if "x = Inr (Some p)" for p
    using find_pathD(1) [OF assms(1) f [unfolded that]] .
  have t: "timely E C r (Validating site tz cs ex (insert i checked) is)"
    if "timely E C r (Validating site tz cs ex checked (i # is))" "active_in C i" for r and C :: "'m catalogue"
    using that by (cases r) auto
  have skip: "timely E C r (Validating site tz cs ex checked is)"
    if "timely E C r (Validating site tz cs ex checked (i # is))" "i \<in> checked" for r and C :: "'m catalogue"
    using that by (cases r) auto
  show ?thesis
    using find_background [OF assms(1) f] seen assms t skip
    by (auto simp: schedule_check_def f reading_def active_in_def split: sum.splits option.splits)
qed

lemma schedule_decide_reads:
  assumes "inv w" "cutoff_ids cs \<subseteq> dom (cat_paths (view Background w))"
  shows "reading w (\<lambda>u. thread_ok (view Background w) u
      \<and> (\<forall>r. timely E (view Background w) r (Validating site tz cs ex checked [])
             \<longrightarrow> timely E (view Background w) r u))
    (schedule_decide E U site tz cs ex w)"
proof -
  obtain now w1 where k: "Clock U w = (now, w1)" by (cases "Clock U w")
  have v: "inv w1" "view Background w1 = view Background w" using clockD [OF k] assms(1) by auto
  let ?res = "case ex of None \<Rightarrow> map_sum id (Pair True) (cpt_Define E site tz cs now)
      | Some s \<Rightarrow> cpt_Revise E s tz cs now"
  let ?good = "\<lambda>u. thread_ok (view Background w) u
      \<and> (\<forall>r. timely E (view Background w) r (Validating site tz cs ex checked [])
             \<longrightarrow> timely E (view Background w) r u)"
  have good: "?good (ChangedSchedule s (CPTScheduleChanged (ToSnapshot s now)))" if res: "?res = Inr (True, s)" for s
  proof -
    have cs: "cs_cutoffs s = cs"
      using res by (cases ex) (auto simp: map_sum_def cpt_Define_Inr_iff cpt_Revise_frame split: sum.splits)
    have "timely E C r (ChangedSchedule s (CPTScheduleChanged (ToSnapshot s now)))"
      if "timely E C r (Validating site tz cs ex checked [])" for r and C :: "'m catalogue"
      using that res by (cases r; cases "cat_schedules C site") (auto simp: map_sum_def eligible_in_ids split: sum.splits)
    then show ?thesis using cs assms(2) by auto
  qed
  have "schedule_decide E U site tz cs ex w = (None, w1)
      \<or> (\<exists>s. ?res = Inr (True, s) \<and> schedule_decide E U site tz cs ex w
           = (Some (ChangedSchedule s (CPTScheduleChanged (ToSnapshot s now))), w1))"
    by (auto simp: schedule_decide_def k split: sum.splits bool.splits)
  then show ?thesis
    using v good by (elim disjE exE conjE) (simp_all add: reading_def del: thread_ok.simps timely.simps)
qed

text \<open>Every later action reads on, or ends the thread with its result stored or not stored.\<close>

lemma store_result_stores:
  assumes "inv w"
  shows "inv (snd (store_result U t w)) \<and> (view Background (snd (store_result U t w)) = view Background w
    \<or> stored_by sp ss emit t (view Background w) (view Background (snd (store_result U t w))))"
proof (cases t)
  case (NewPath p ev)
  obtain r w1 where s: "save_and_publish U Background (\<lambda>c. repo_Save (Repo U) c p) ev w = (r, w1)"
    by fastforce
  have "inv w1" using save_and_publish_inv(1) [OF assms, of Background p ev] s by simp
  then show ?thesis
    using path_scope [OF assms s] s accepted_frame by (auto simp: NewPath split: sum.splits)
next
  case (ChangedPath p ev)
  then show ?thesis
    using path_scope [OF assms, of p ev] save_and_publish_inv(1) [OF assms, of Background p ev]
    by (cases "save_and_publish U Background (\<lambda>c. repo_Save (Repo U) c p) ev w") auto
next
  case (ChangedSchedule s ev)
  then show ?thesis
    using schedule_scope [OF assms, of s ev] save_and_publish_inv(2) [OF assms, of Background s ev]
    by (cases "save_and_publish U Background (\<lambda>c. sched_Save (ScheduleRepo U) c s) ev w") auto
qed (simp add: assms)

lemma continue_request_cases:
  assumes "inv w" "thread_ok (view Background w) t" "continue_request E U t w = (t', w')"
  obtains "reading w (\<lambda>u. thread_ok (view Background w) u
      \<and> (\<forall>r. timely E (view Background w) r t \<longrightarrow> timely E (view Background w) r u)) (t', w')"
  | "t' = None" "inv w'" "stored_by sp ss emit t (view Background w) (view Background w')"
proof -
  have "reading w (\<lambda>u. thread_ok (view Background w) u
      \<and> (\<forall>r. timely E (view Background w) r t \<longrightarrow> timely E (view Background w) r u)) (t', w')
    \<or> t' = None \<and> inv w' \<and> stored_by sp ss emit t (view Background w) (view Background w')"
  proof (cases "\<exists>site tz cs ex checked is. t = Validating site tz cs ex checked is")
    case True
    then obtain site tz cs ex checked "is" where t: "t = Validating site tz cs ex checked is" by blast
    show ?thesis
      using schedule_check_reads [OF assms(1), of checked cs "hd is" "tl is" E site tz ex]
        schedule_decide_reads [OF assms(1), of cs E site tz ex checked] assms(2,3)
      by (cases "is") (auto simp: t)
  next
    case False
    then have "t' = None" "w' = snd (store_result U t w)" using assms(3) by (cases t; simp)+
    then show ?thesis using store_result_stores [OF assms(1), of t] by (auto simp: reading_None)
  qed
  then show thesis using that by blast
qed

text \<open>Any history, from a state in which the threads in flight are as they should be.\<close>

definition threads_ok :: "in_flight \<Rightarrow> 'm catalogue \<Rightarrow> bool" where
  "threads_ok P C \<longleftrightarrow> (\<forall>k r t. map_of P k = Some (r, t) \<longrightarrow> thread_ok C t)"

definition world_ok :: "in_flight \<times> 'w \<Rightarrow> bool" where
  "world_ok s \<longleftrightarrow> inv (snd s) \<and> keyed (view Background (snd s)) \<and> refs_exist (view Background (snd s))
     \<and> threads_ok (fst s) (view Background (snd s))"

abbreviation cat_of :: "in_flight \<times> 'w \<Rightarrow> 'm catalogue" where
  "cat_of s \<equiv> view Background (snd s)"

lemma threads_ok_put:
  "threads_ok P C \<Longrightarrow> (\<And>u. t = Some u \<Longrightarrow> thread_ok C u) \<Longrightarrow> threads_ok (put_thread k r t P) C"
  by (auto simp: threads_ok_def map_of_put_thread)

lemma threads_ok_mono: "threads_ok P C \<Longrightarrow> dom (cat_paths C) \<subseteq> dom (cat_paths C') \<Longrightarrow> threads_ok P C'"
  by (meson threads_ok_def thread_ok_mono)

text \<open>
  An action that leaves the catalogue alone: a thread is then as before, new, or has read on.
\<close>

definition reads_on :: "ext \<Rightarrow> action \<Rightarrow> in_flight \<times> 'w \<Rightarrow> in_flight \<times> 'w \<Rightarrow> bool" where
  "reads_on E a s s' \<longleftrightarrow> inv (snd s') \<and> cat_of s' = cat_of s
     \<and> (\<forall>j r t. map_of (fst s') j = Some (r, t) \<longrightarrow> map_of (fst s) j = Some (r, t)
         \<or> thread_ok (cat_of s) t
           \<and> (a = Begin j r \<and> map_of (fst s) j = None \<and> timely E (cat_of s) r t
              \<or> (\<exists>t0. map_of (fst s) j = Some (r, t0)
                   \<and> (timely E (cat_of s) r t0 \<longrightarrow> timely E (cat_of s) r t))))"

lemma begin_reads_on:
  assumes "inv w" "keyed (view Background w)"
  shows "reads_on E (Begin k r) (P, w) (act E U (Begin k r) (P, w))"
proof (cases "map_of P k")
  case (Some x)
  then show ?thesis using assms(1) by (simp add: reads_on_def)
next
  case None
  obtain t w1 where b: "begin_request E U r w = (t, w1)" by fastforce
  have rd: "inv w1" "view Background w1 = view Background w"
    "\<And>u. t = Some u \<Longrightarrow> timely E (view Background w) r u"
    using begin_request_reads [OF assms(1), of E r] b by (simp_all add: reading_def)
  show ?thesis
    using rd None timely_thread_ok [OF rd(3) assms(2)]
    by (auto simp: reads_on_def b map_of_put_thread split: if_splits)
qed

text \<open>Every action reads on, or it stores the result of a thread.\<close>

lemma act_cases:
  assumes "inv (snd s)" "keyed (cat_of s)" "threads_ok (fst s) (cat_of s)"
  obtains "reads_on E a s (act E U a s)"
  | k r t where "a = Continue k" "map_of (fst s) k = Some (r, t)" "thread_ok (cat_of s) t"
      "stored_by sp ss emit t (cat_of s) (cat_of (act E U a s))"
      "fst (act E U a s) = put_thread k r None (fst s)" "inv (snd (act E U a s))"
proof -
  obtain P w where s: "s = (P, w)" by fastforce
  have w: "inv w" "keyed (view Background w)" "threads_ok P (view Background w)"
    using assms by (auto simp: s)
  show thesis
  proof (cases "\<exists>k r t. a = Continue k \<and> map_of P k = Some (r, t)")
    case False
    then have "reads_on E a s (act E U a s)"
      using begin_reads_on [OF w(1,2)] w(1) by (cases a) (auto simp: s reads_on_def split: option.splits)
    then show thesis by (rule that(1))
  next
    case True
    then obtain k r t where Continue: "a = Continue k" and m: "map_of P k = Some (r, t)" by blast
    obtain t' w' where c: "continue_request E U t w = (t', w')" by fastforce
    have a: "act E U a s = (put_thread k r t' P, w')" by (simp add: s Continue m c)
    have ok: "thread_ok (view Background w) t" using w(3) m by (auto simp: threads_ok_def)
    from w(1) ok c show thesis
    proof (cases rule: continue_request_cases)
      case 1
      then have "reads_on E a s (put_thread k r t' P, w')"
        using m by (auto simp: reads_on_def reading_def s map_of_put_thread split: if_splits)
      then show thesis by (intro that(1)) (simp only: a)
    next
      case 2
      have "cat_of s = view Background w" "cat_of (act E U a s) = view Background w'"
        "fst s = P" "fst (act E U a s) = put_thread k r None P" "inv (snd (act E U a s))"
        using a 2 by (simp_all only: s snd_conv fst_conv)
      then show thesis using 2(3) by (intro that(2) [OF Continue _ _ _ _]) (use m ok in simp_all)
    qed
  qed
qed

lemma act_keeps:
  assumes "world_ok s" "announced emit (cat_of s) evs"
  shows "world_ok (act E U a s) \<and> (\<exists>evs'. announced emit (cat_of (act E U a s)) (evs @ evs'))
    \<and> (\<forall>i p. cat_paths (cat_of s) i = Some p \<longrightarrow>
         (\<exists>q. cat_paths (cat_of (act E U a s)) i = Some q \<and> same_identity p q))"
proof -
  have ok: "inv (snd s)" "keyed (cat_of s)" "refs_exist (cat_of s)" "threads_ok (fst s) (cat_of s)"
    using assms(1) by (auto simp: world_ok_def)
  from ok(1,2,4) show ?thesis
  proof (cases rule: act_cases [where E = E and a = a])
    case read: 1
    note 1 = read [unfolded reads_on_def, THEN conjunct1] read [unfolded reads_on_def, THEN conjunct2, THEN conjunct1]
      read [unfolded reads_on_def, THEN conjunct2, THEN conjunct2, rule_format]
    have "threads_ok (fst (act E U a s)) (cat_of s)"
      unfolding threads_ok_def using 1(3) ok(4) [unfolded threads_ok_def] by blast
    then have "world_ok (act E U a s)" using ok 1(1,2) by (simp add: world_ok_def)
    moreover have "\<exists>evs'. announced emit (cat_of s) (evs @ evs')"
      using assms(2) by (intro exI [of _ "[]"]) simp
    ultimately show ?thesis by (simp add: 1(2))
  next
    case (2 k r t)
    have "threads_ok (put_thread k r None (fst s)) (cat_of (act E U a s))"
      using threads_ok_mono [OF ok(4) stored_by_grows [OF 2(4)]] by (intro threads_ok_put) simp_all
    then have "world_ok (act E U a s)"
      using stored_by_keyed [OF 2(4,3) ok(2)] stored_by_refs [OF 2(4,3) ok(3)] 2(5,6)
      by (simp add: world_ok_def)
    then show ?thesis
      using stored_by_announced [OF 2(4,3) assms(2)] stored_by_identity [OF 2(4) ok(2)] by blast
  qed
qed

lemma run_actions_keep:
  assumes "world_ok s" "announced emit (cat_of s) evs"
  shows "world_ok (run_actions E U as s) \<and> (\<exists>evs'. announced emit (cat_of (run_actions E U as s)) (evs @ evs'))
    \<and> (\<forall>i p. cat_paths (cat_of s) i = Some p \<longrightarrow>
         (\<exists>q. cat_paths (cat_of (run_actions E U as s)) i = Some q \<and> same_identity p q))"
  using assms
proof (induction as arbitrary: s evs)
  case Nil
  then have "\<exists>evs'. announced emit (cat_of s) (evs @ evs')" by (intro exI [of _ "[]"]) simp
  then show ?case using Nil by simp
next
  case (Cons a as)
  note one = act_keeps [OF Cons.prems, of E a]
  then obtain evs1 where "announced emit (cat_of (act E U a s)) (evs @ evs1)" by blast
  note rest = Cons.IH [OF conjunct1 [OF one] this]
  then obtain evs2 where "announced emit (cat_of (run_actions E U (a # as) s)) ((evs @ evs1) @ evs2)" by auto
  then have "\<exists>evs'. announced emit (cat_of (run_actions E U (a # as) s)) (evs @ evs')"
    by (intro exI [of _ "evs1 @ evs2"]) simp
  moreover have "\<exists>q'. cat_paths (cat_of (run_actions E U (a # as) s)) i = Some q' \<and> same_identity p q'"
    if p: "cat_paths (cat_of s) i = Some p" for i p
  proof -
    obtain q where "cat_paths (cat_of (act E U a s)) i = Some q" "same_identity p q" using one p by blast
    moreover from this obtain q' where
      "cat_paths (cat_of (run_actions E U (a # as) s)) i = Some q'" "same_identity q q'"
      using rest by auto
    ultimately show ?thesis using same_identity_trans by blast
  qed
  ultimately show ?case using rest by simp
qed

text \<open>
  Requests in flight that are apart: each is still timely, so every result that is stored is a
  step of the specification.
\<close>

definition serial_ok :: "ext \<Rightarrow> in_flight \<times> 'w \<Rightarrow> bool" where
  "serial_ok E s \<longleftrightarrow> inv (snd s) \<and> keyed (cat_of s)
     \<and> (\<forall>k r t. map_of (fst s) k = Some (r, t) \<longrightarrow> timely E (cat_of s) r t)
     \<and> (\<forall>j k r r' t t'. j \<noteq> k \<longrightarrow> map_of (fst s) j = Some (r, t) \<longrightarrow> map_of (fst s) k = Some (r', t')
          \<longrightarrow> apart r r')"

lemma act_serial:
  assumes "serial_ok E s" "spaced a (fst s)"
  shows "serial_ok E (act E U a s)
    \<and> (cat_of (act E U a s) = cat_of s \<or> cat_step E sp ss emit (cat_of s) (cat_of (act E U a s)))"
proof -
  have ok: "inv (snd s)" "keyed (cat_of s)"
    and tm: "\<And>k r t. map_of (fst s) k = Some (r, t) \<Longrightarrow> timely E (cat_of s) r t"
    and ap: "\<And>j k r r' t t'. j \<noteq> k \<Longrightarrow> map_of (fst s) j = Some (r, t) \<Longrightarrow>
      map_of (fst s) k = Some (r', t') \<Longrightarrow> apart r r'"
    using assms(1) by (auto simp: serial_ok_def)
  have th: "threads_ok (fst s) (cat_of s)"
    using timely_thread_ok [OF tm ok(2)] by (auto simp: threads_ok_def)
  from ok th show ?thesis
  proof (cases rule: act_cases [where E = E and a = a])
    case read: 1
    note 1 = read [unfolded reads_on_def, THEN conjunct1] read [unfolded reads_on_def, THEN conjunct2, THEN conjunct1]
      read [unfolded reads_on_def, THEN conjunct2, THEN conjunct2, rule_format]
    have sp: "apart r r'" if "a = Begin k r" "map_of (fst s) j = Some (r', t')" for k r j r' t'
      using assms(2) map_of_SomeD [OF that(2)] that(1) by (auto simp: spaced_def list_all_iff)
    have "timely E (cat_of s) r t" if "map_of (fst (act E U a s)) k = Some (r, t)" for k r t
      using 1(3) [OF that] tm by blast
    moreover have "apart r r'" if "j \<noteq> k" "map_of (fst (act E U a s)) j = Some (r, t)"
        "map_of (fst (act E U a s)) k = Some (r', t')" for j k r r' t t'
      using 1(3) [OF that(2)] 1(3) [OF that(3)] ap [OF that(1)] sp that(1) apart_sym by fast
    ultimately show ?thesis using 1(1,2) ok by (simp add: serial_ok_def)
  next
    case (2 k r t)
    note st = timely_store_is_step [OF tm [OF 2(2)] 2(4)]
    have "timely E (cat_of (act E U a s)) r' t'" if "map_of (put_thread k r None (fst s)) j = Some (r', t')" for j r' t'
    proof -
      have m: "map_of (fst s) j = Some (r', t')" "j \<noteq> k"
        using that by (auto simp: map_of_put_thread split: if_splits)
      note far = ap [OF m(2,1) 2(2)]
      show ?thesis
        using far by (intro timely_cong [OF tm [OF m(1)]] stored_by_frame [OF tm [OF 2(2)] ok(2) 2(4)])
          (auto simp: apart_def)
    qed
    moreover have "apart r1 r2" if "i \<noteq> j" "map_of (put_thread k r None (fst s)) i = Some (r1, t1)"
        "map_of (put_thread k r None (fst s)) j = Some (r2, t2)" for i j r1 r2 t1 t2
      using that ap [OF that(1)] by (auto simp: map_of_put_thread split: if_splits)
    ultimately show ?thesis
      using 2(5,6) st step_keyed [OF st ok(2)] by (simp add: serial_ok_def)
  qed
qed

lemma run_serial:
  assumes "serial_ok E s" "all_spaced E U as s"
  shows "serial_ok E (run_actions E U as s)
    \<and> cat_steps E sp ss emit (cat_of s) (cat_of (run_actions E U as s))"
  using assms
proof (induction as arbitrary: s)
  case (Cons a as)
  note one = act_serial [OF Cons.prems(1), of a]
  have "serial_ok E (act E U a s)" "cat_steps E sp ss emit (cat_of s) (cat_of (act E U a s))"
    using one Cons.prems(2) by auto
  then show ?case using Cons.IH [of "act E U a s"] Cons.prems(2) by (auto intro: rtranclp_trans)
qed simp

end

interpretation pg_conc: concurrent_application "pg_repo V" "pg_schedule_repo V"
    "OutboxPublisher_Publish V" "pg_keeps V Q" "pg_view V" "pg_sp (v_ext V)" "pg_ss (v_ext V)"
    "outbox_emit V" "pg_deps V"
  by unfold_locales (auto simp: pg_sp_def same_identity_def)

end
