(* ===== verification/ConcurrencyClaims.thy ===== *)
theory ConcurrencyClaims
  imports Concurrency AppClaims
begin

text \<open>
  The properties of requests in flight at the same time over Postgres: what every interleaving
  keeps, when an interleaving is as good as one request after the other, and what a late write does.
\<close>

section \<open>Stores that succeed\<close>

text \<open>Without faults a result whose event can be encoded is stored.\<close>

lemma enqueue_all_calm:
  assumes "\<forall>enc \<in> set encs. \<exists>x. enc ev i = Inr x" "v_faults V = no_faults"
    and "open_tx w = Some (db, False)"
  shows "\<exists>w' db'. enqueue_all V WithTx ev i encs w = (Inr (), w') \<and> open_tx w' = Some (db', False)"
  using assms(1,3)
proof (induction encs arbitrary: w db)
  case (Cons enc encs)
  obtain x where x: "enc ev i = Inr x" "\<forall>enc \<in> set encs. \<exists>x. enc ev i = Inr x"
    using Cons.prems(1) by auto
  obtain w1 db1 where e: "enqueue V WithTx x (OccurredAt ev) w = (Inr (), w1)" "open_tx w1 = Some (db1, False)"
    using Cons.prems(2) assms(2) by (simp add: enqueue_def sql_exec_def no_faults_def enqueue_stmt_def)
  show ?case using Cons.IH [OF x(2) e(2)] x(1) e(1) by (simp add: io_bind_def)
qed simp

lemma store_path_calm:
  assumes "v_faults V = no_faults" "path_check (path_to_row p)"
    and "\<And>n. \<forall>enc \<in> set (v_encoders V). \<exists>x. enc ev (v_id V n) = Inr x"
  obtains w' where "store_result (pg_deps V) (ChangedPath p ev) w = (Inr (), w')"
proof -
  obtain w1 where b: "pool_Begin (v_faults V) w = (Inr (), w1)" "open_tx w1 = Some (committed w, False)"
    using assms(1) by (simp add: pool_Begin_def no_faults_def)
  obtain w2 db2 where s: "pg_Save V WithTx p w1 = (Inr (), w2)" "open_tx w2 = Some (db2, False)"
    using b(2) assms(1,2) by (simp add: pg_Save_def sql_exec_def no_faults_def save_path_stmt_def)
  have o: "open_tx (w2\<lparr>ids := Suc (ids w2)\<rparr>) = Some (db2, False)" using s(2) by simp

  obtain w3 db3 where p: "OutboxPublisher_Publish V WithTx ev w2 = (Inr (), w3)" "open_tx w3 = Some (db3, False)"
    using enqueue_all_calm [OF assms(3) [of "ids w2"] assms(1) o] by (auto simp: OutboxPublisher_Publish_def)
  obtain w4 where "tx_Commit (v_faults V) w3 = (Inr (), w4)"
    using p(2) assms(1) by (simp add: tx_Commit_def no_faults_def)
  then show thesis
    using that b(1) s(1) p(1)
    by (auto simp: save_and_publish_def atomically_def pg_deps_def pg_repo_def UnitOfWork_Execute_def
        io_bind_def)
qed

text \<open>What a store that succeeds leaves, whatever was there.\<close>

lemma pg_stored:
  assumes "pg_inv V w" "store_result (pg_deps V) t w = (Inr u, w')" "t = NewPath p ev \<or> t = ChangedPath p ev"
  shows "published (outbox_emit V) ev (put_path (pg_sp (v_ext V)) p (pg_view V Background w))
    (pg_view V Background w')"
proof -
  obtain u1 w1 where s: "save_and_publish (pg_deps V) Background (\<lambda>c'. repo_Save (Repo (pg_deps V)) c' p) ev w
      = (Inr u1, w1)" and v: "pg_view V Background w' = pg_view V Background w1"
    using assms(2,3) pg_app.accepted_frame(1) [of V Background]
    by (auto split: prod.splits sum.splits)
  show ?thesis using pg_app.save_and_publish_path [OF assms(1) s] by (simp add: v)
qed

section \<open>Properties\<close>

text \<open>
  The cut use cases are the use cases: requests served one after the other do, action by action,
  exactly what \<open>serve_all\<close> does.
\<close>

lemma one_after_the_other:
  "run_actions E U (concat (map (alone_actions k) rs)) ([], w) = ([], serve_all E U rs w)"
  by (induction rs arbitrary: w)
    (simp_all add: serve_all_def run_actions_append run_alone_actions)

text \<open>
  C13. Any interleaving of requests over Postgres, whatever calls fail, keeps the store in order: every
  path is under its own id, every path that a stored schedule names exists, and once stored a path
  keeps its id, direct flag, destination role and creation time. The outbox tells exactly which
  paths exist and which of them are active.
\<close>

theorem any_interleaving_keeps:
  assumes "inj (v_id V)" "v_encoders V = [Encode S, AnalyticsEncoder_Encode S]"
  shows "let s = run_actions (v_ext V) (pg_deps V) as ([], pg_init);
      C = pg_view V Background (snd s);
      C' = pg_view V Background (snd (run_actions (v_ext V) (pg_deps V) bs s))
    in keyed C \<and> refs_exist C \<and> (\<exists>evs. announced (outbox_emit V) C evs)
     \<and> (\<forall>i p. cat_paths C i = Some p \<longrightarrow> (\<exists>q. cat_paths C' i = Some q \<and> same_identity p q))"
proof -
  have start: "pg_conc.world_ok V (\<lambda>_. True) ([], pg_init)"
    using pg_inv_init [OF assms] empty_catalogue_ok
    by (simp add: pg_conc.world_ok_def pg_conc.threads_ok_def)
  have none: "announced (outbox_emit V) (pg_view V Background (snd ([] :: in_flight, pg_init))) []"
    using told_announced [OF empty_catalogue_ok(3)] by simp
  obtain evs where evs: "announced (outbox_emit V)
      (pg_view V Background (snd (run_actions (v_ext V) (pg_deps V) as ([], pg_init)))) evs"
    and ok: "pg_conc.world_ok V (\<lambda>_. True) (run_actions (v_ext V) (pg_deps V) as ([], pg_init))"
    using pg_conc.run_actions_keep [OF start none, of "v_ext V" as] by auto
  show ?thesis
    using pg_conc.run_actions_keep [OF ok evs, of "v_ext V" bs] ok evs
    by (auto simp: Let_def pg_conc.world_ok_def)
qed

text \<open>
  C14. Requests that are apart may overlap: when no request begins while another is in flight that
  changes what it reads or reads what it changes, any interleaving of their calls takes the stored
  catalogue and the outbox through whole steps of the specification, whatever calls fail.
\<close>

theorem apart_requests_refine:
  assumes "pg_inv V w" "keyed (pg_view V Background w)" "all_spaced (v_ext V) (pg_deps V) as ([], w)"
  shows "cat_steps (v_ext V) (pg_sp (v_ext V)) (pg_ss (v_ext V)) (outbox_emit V) (pg_view V Background w)
    (pg_view V Background (snd (run_actions (v_ext V) (pg_deps V) as ([], w))))"
proof -
  have "pg_conc.serial_ok V (\<lambda>_. True) (v_ext V) ([], w)"
    using assms(1,2) by (simp add: pg_conc.serial_ok_def)
  from pg_conc.run_serial [OF this assms(3)] show ?thesis by simp
qed

text \<open>
  C15. A write does not look at what is stored: a revision that read an active path stores an active path
  and announces it, whatever happened to the path since it was read. So a path that was deactivated
  in between is active again.
\<close>

theorem late_revision_reactivates:
  assumes "pg_inv V w" "keyed (pg_view V Background w)"
    and "revise_start (v_ext V) (pg_deps V) i prefix caps ct elig w = (Some t, w1)"
    and "pg_inv V w2" "store_result (pg_deps V) t w2 = (Inr u, w')"
  shows "\<exists>q r now. cat_paths (pg_view V Background w') i = Some r \<and> IsActive r
    \<and> matchPrefix r = prefix \<and> requiredCapabilities r = caps
    \<and> published (outbox_emit V) (ProcessPathUpdated (path_payload q now))
        (put_path (pg_sp (v_ext V)) q (pg_view V Background w2)) (pg_view V Background w')"
proof -
  have "timely (v_ext V) (pg_view V Background w) (ReviseRequest i prefix caps ct elig) t"
    using pg_conc.revise_start_reads [OF assms(1), of "v_ext V" i prefix caps ct elig] assms(3)
    by (simp add: pg_conc.reading_def)
  then obtain p q now where t: "t = ChangedPath q (ProcessPathUpdated (path_payload q now))"
    and p: "cat_paths (pg_view V Background w) i = Some p"
    and r: "Revise (v_ext V) p prefix caps ct elig now = Inr (True, q)"
    by (cases t) auto
  note pub = pg_stored [OF assms(4,5) disjI2 [OF t]]
  have q: "pp_id q = i" "IsActive q" "matchPrefix q = prefix" "requiredCapabilities q = caps"
    using r p assms(2) by (auto simp: Revise_Inr_iff IsActive_def keyed_def)
  have "cat_paths (pg_view V Background w') i
      = Some (pg_sp (v_ext V) (cat_paths (pg_view V Background w2) i) q)"
    by (simp add: published_fields [OF pub] put_path_paths q(1))
  then show ?thesis using q pub by (auto simp: pg_storage.stored)
qed

text \<open>A store that has no faults, and the encoders of the demonstration.\<close>

lemma calm_find:
  "v_faults V = no_faults \<Longrightarrow>
    \<exists>w'. pg_FindByID V Background i w = (Inr (cat_paths (pg_view V Background w) i), w')"
  by (simp add: pg_FindByID_def sql_exec_def no_faults_def pg_view_def oltp_view_def seen_def)

lemma storable_event:
  assumes "event_key ev \<noteq> ''''"
  shows "\<forall>enc \<in> set (v_encoders (demo_env F)). \<exists>x. enc ev (v_id (demo_env F) n) = Inr x"
proof -
  obtain m where "mapEvent ev = Inr m" "m_key m = event_key ev" using mapEvent_Inr [of ev] by blast
  then show ?thesis using assms
    by (simp add: Encode_def AnalyticsEncoder_Encode_def encodeFor_def ce_New_def demo_sdk_def ce_required_def
        demo_id_def ce_Source_def ce_Type_def Let_def SpecVersion_def)
qed

text \<open>
  Two creations of one path that overlap are both accepted and both announced: the second to be
  stored changes the row of the first, but not its direct flag, destination role or creation time,
  so its event and its answer tell fields that the store does not have.
\<close>

lemma second_definition_accepted:
  assumes "pg_inv V w" "define_start (v_ext V) (pg_deps V) i prefix dir caps role ct elig w = (Some t, w1)"
    and "pg_inv V w2" "keyed (pg_view V Background w2)" "cat_paths (pg_view V Background w2) i = Some old"
    and "store_result (pg_deps V) t w2 = (Inr u, w')"
  shows "\<exists>p q now. direct p = dir \<and> destinationLocationRole p = role
    \<and> published (outbox_emit V) (ProcessPathCreated (path_payload p now))
        (put_path (pg_sp (v_ext V)) p (pg_view V Background w2)) (pg_view V Background w')
    \<and> cat_paths (pg_view V Background w') i = Some q \<and> same_identity old q
    \<and> matchPrefix q = prefix \<and> IsActive q"
proof -
  have "timely (v_ext V) (pg_view V Background w) (DefineRequest i prefix dir caps role ct elig) t"
    using pg_conc.define_start_reads [OF assms(1), of "v_ext V" i prefix dir caps role ct elig] assms(2)
    by (simp add: pg_conc.reading_def)
  then obtain p now where t: "t = NewPath p (ProcessPathCreated (path_payload p now))"
    and d: "Define (v_ext V) i prefix dir caps role ct elig now = Inr p"
    by (cases t) auto
  note pub = pg_stored [OF assms(3,6) disjI1 [OF t]]
  have p: "pp_id p = i" "direct p = dir" "destinationLocationRole p = role" "matchPrefix p = prefix" "IsActive p"
    using d by (auto simp: Define_Inr_iff IsActive_def)
  have "cat_paths (pg_view V Background w') i = Some (pg_sp (v_ext V) (Some old) p)"
    by (simp add: published_fields [OF pub] put_path_paths p assms(5))
  moreover have "same_identity old (pg_sp (v_ext V) (Some old) p)"
    using assms(4,5) p(1) by (intro pg_conc.sp_keeps) (auto simp: keyed_def)
  ultimately show ?thesis using pub p by (auto simp: pg_storage.stored intro!: exI [of _ p] exI [of _ now])
qed

section \<open>Overlapping requests, concretely\<close>

text \<open>What is computed of a path with a known role can be stored over the demonstration store.\<close>

lemma demo_stores:
  fixes w :: "oltp pg"
  defines "V \<equiv> demo_env no_faults"
  assumes "pg_inv V w" "event_key ev \<noteq> ''''" "IsActive q \<or> status q = StatusDeactivated"
    and "destinationLocationRole q = ''Drop''"
  obtains w' where "store_result (pg_deps V) (ChangedPath q ev) w = (Inr (), w')"
    "active_in (pg_view V Background w') (pp_id q) = IsActive q"
proof -
  have "path_check (path_to_row q)"
    using assms(4,5) by (auto simp: path_check_def path_to_row_def IsActive_def StatusActive_def
        StatusDeactivated_def destinationLocationRoleToColumn_def role_defs)
  then obtain w' where s: "store_result (pg_deps V) (ChangedPath q ev) w = (Inr (), w')"
    using store_path_calm [of V q ev w] storable_event [OF assms(3)] by (auto simp: V_def)
  have "active_in (pg_view V Background w') (pp_id q) = IsActive q"
    using pg_stored [OF assms(2) s disjI2 [OF refl]]
    by (simp add: active_in_def published_fields put_path_paths pg_storage.stored)
  from that [OF s this] show thesis .
qed

lemma demo_deactivates:
  fixes w :: "oltp pg"
  defines "V \<equiv> demo_env no_faults"
  assumes "pg_inv V w" "keyed (pg_view V Background w)" "cat_paths (pg_view V Background w) i = Some p"
    and "IsActive p" "destinationLocationRole p = ''Drop''"
  shows "\<not> active_in (pg_view V Background (serve demo_ext (pg_deps V) (DeactivateRequest i) w)) i"
proof -
  obtain w1 where f: "repo_FindByID (Repo (pg_deps V)) Background i w = (Inr (Some p), w1)"
    using calm_find [of V i w] assms(4) by (auto simp: V_def)
  note fd = pg_app.find_pathD [OF assms(2) f]
  obtain now w2 where k: "Clock (pg_deps V) w1 = (now, w2)" by fastforce
  let ?q = "Deactivate p now"
  have p: "pp_id p = i" "i \<noteq> ''''" using assms(3,4) by (auto simp: keyed_def)
  have q: "pp_id ?q = i" "status ?q = StatusDeactivated" "\<not> IsActive ?q" "destinationLocationRole ?q = ''Drop''"
    using p assms(5,6) by (simp_all add: Deactivate_def IsActive_def)
  obtain w3 where "store_result (pg_deps V) (ChangedPath ?q (ProcessPathDeactivated i now)) w2 = (Inr (), w3)"
    "\<not> active_in (pg_view V Background w3) i"
    using demo_stores [OF pg_app.clockD(2) [OF k fd(3), unfolded V_def], of "ProcessPathDeactivated i now" ?q] p q
    by (auto simp: V_def event_key_def)
  then show ?thesis using f k assms(5) q(1) by (simp add: DeactivatePath_Execute_def Let_def)
qed

lemma stored_sample: "IsActive (scanProcessPath (path_to_row sample_path))"
    "destinationLocationRole (scanProcessPath (path_to_row sample_path)) = ''Drop''"
  by (simp_all add: scanProcessPath_def path_to_row_def Rehydrate_def sample_path_def IsActive_def)

text \<open>The revision of the stored path to another prefix, up to its store.\<close>

lemma demo_revision_starts:
  obtains q now w1 where "revise_start demo_ext (pg_deps (demo_env no_faults)) ''pick-pack'' ''xx'' [''pick''] 1000
      EligibilityZero stored_pick_pack = (Some (ChangedPath q (ProcessPathUpdated (path_payload q now))), w1)"
    "pp_id q = ''pick-pack''" "IsActive q" "destinationLocationRole q = ''Drop''"
    "pg_inv (demo_env no_faults) w1"
    "pg_view (demo_env no_faults) Background w1 = pg_view (demo_env no_faults) Background stored_pick_pack"
proof -
  let ?V = "demo_env no_faults" and ?p = "scanProcessPath (path_to_row sample_path)"
  have p: "cat_paths (pg_view ?V Background stored_pick_pack) ''pick-pack'' = Some ?p"
    by (simp add: stored_view)
  then obtain w0 where f: "repo_FindByID (Repo (pg_deps ?V)) Background ''pick-pack'' stored_pick_pack = (Inr (Some ?p), w0)"
    using calm_find [of ?V "''pick-pack''" stored_pick_pack] by auto
  obtain now w1 where k: "Clock (pg_deps ?V) w0 = (now, w1)" by fastforce
  have "definition_ok demo_ext ''xx'' [''pick''] ''Drop'' 1000"
    by (simp add: definition_ok_def recognized_role_def role_defs demo_ext_def strings_ToLower_def is_ascii_def
        char_code_def ascii_lower_def less_eq_char_def)
  then obtain q where r: "Revise demo_ext ?p ''xx'' [''pick''] 1000 EligibilityZero now = Inr (True, q)"
    by (simp add: Revise_Inr_iff scanProcessPath_def path_to_row_def Rehydrate_def sample_path_def)
  have q: "pp_id q = ''pick-pack''" "IsActive q" "destinationLocationRole q = ''Drop''"
    using r by (auto simp: Revise_Inr_iff IsActive_def scanProcessPath_def path_to_row_def Rehydrate_def sample_path_def)
  have s: "revise_start demo_ext (pg_deps ?V) ''pick-pack'' ''xx'' [''pick''] 1000 EligibilityZero stored_pick_pack
      = (Some (ChangedPath q (ProcessPathUpdated (path_payload q now))), w1)"
    using f k r by (simp add: revise_start_def)
  show thesis
    using pg_conc.revise_start_reads [OF stored_inv [of no_faults], of demo_ext "''pick-pack''" "''xx''" "[''pick'']" 1000 EligibilityZero] s
    by (intro that [OF s q]) (simp_all add: pg_conc.reading_def)
qed

lemma late_revision_reactivates_witness:
  "\<exists>t w1 w2 w'. revise_start demo_ext (pg_deps (demo_env no_faults)) ''pick-pack'' ''xx'' [''pick''] 1000
       EligibilityZero stored_pick_pack = (Some t, w1)
   \<and> run_actions demo_ext (pg_deps (demo_env no_faults)) (alone_actions 1 (DeactivateRequest ''pick-pack''))
       ([], w1) = ([], w2)
   \<and> \<not> active_in (pg_view (demo_env no_faults) Background w2) ''pick-pack''
   \<and> store_result (pg_deps (demo_env no_faults)) t w2 = (Inr (), w')
   \<and> active_in (pg_view (demo_env no_faults) Background w') ''pick-pack''"
proof -
  let ?V = "demo_env no_faults" and ?i = "''pick-pack''"
  obtain q now w1 where s: "revise_start demo_ext (pg_deps ?V) ?i ''xx'' [''pick''] 1000 EligibilityZero stored_pick_pack
      = (Some (ChangedPath q (ProcessPathUpdated (path_payload q now))), w1)" (is "_ = (Some ?t, _)")
    and q: "pp_id q = ?i" "IsActive q" "destinationLocationRole q = ''Drop''"
    and w1: "pg_inv ?V w1" "pg_view ?V Background w1 = pg_view ?V Background stored_pick_pack"
    by (rule demo_revision_starts)
  let ?w2 = "serve demo_ext (pg_deps ?V) (DeactivateRequest ?i) w1"
  have w2: "pg_inv ?V ?w2" using pg_atomic.serve_atomic [OF w1(1), of demo_ext "DeactivateRequest ?i"]
    unfolding pg_atomic.one_step_def by blast
  have off: "\<not> active_in (pg_view ?V Background ?w2) ?i"
    using demo_deactivates [OF w1(1), of ?i "scanProcessPath (path_to_row sample_path)"]
      stored_keyed [of ?V] stored_sample by (simp add: w1(2) stored_view)
  obtain w' where st: "store_result (pg_deps ?V) ?t ?w2 = (Inr (), w')"
    using demo_stores [OF w2, of "ProcessPathUpdated (path_payload q now)" q] q
    by (auto simp: event_key_def path_payload_def)
  have "revise_start (v_ext ?V) (pg_deps ?V) ?i ''xx'' [''pick''] 1000 EligibilityZero stored_pick_pack
      = (Some ?t, w1)" using s by simp
  from late_revision_reactivates [OF stored_inv stored_keyed this w2 st]
  have "active_in (pg_view ?V Background w') ?i" unfolding active_in_def by (elim exE conjE) (simp only: option.case)
  from s run_alone_actions off st this show ?thesis by (intro exI conjI)
qed

text \<open>
  A deactivation that read a path before a revision was stored puts the old fields back, and its event
  does not say so: a consumer of the events goes on with the revised prefix.
\<close>

lemma late_deactivation_forgets:
  assumes "pg_inv V w" "keyed (pg_view V Background w)" "deactivate_start (pg_deps V) i w = (Some t, w1)"
    and "cat_paths (pg_view V Background w) i = Some p"
    and "pg_inv V w2" "told (outbox_emit V) (pg_view V Background w2) evs"
    and "cat_paths (pg_view V Background w2) i = Some p2" "matchPrefix p2 \<noteq> matchPrefix p"
    and "store_result (pg_deps V) t w2 = (Inr u, w')"
  shows "\<exists>now. announced (outbox_emit V) (pg_view V Background w') (evs @ [ProcessPathDeactivated i now])
    \<and> map_option path_digest (cat_paths (pg_view V Background w') i)
       \<noteq> learned (evs @ [ProcessPathDeactivated i now]) i"
proof -
  have "timely (v_ext V) (pg_view V Background w) (DeactivateRequest i) t"
    using pg_conc.deactivate_start_reads [OF assms(1), of "v_ext V" i] assms(3)
    by (simp add: pg_conc.reading_def)
  moreover have i: "pp_id p = i" using assms(2,4) by (auto simp: keyed_def)
  ultimately obtain now where act: "IsActive p"
    and t: "t = ChangedPath (Deactivate p now) (ProcessPathDeactivated i now)"
    using assms(4) by (cases t) auto
  note pub = pg_stored [OF assms(5,9) disjI2 [OF t]]
  have q: "pp_id (Deactivate p now) = i" "matchPrefix (Deactivate p now) = matchPrefix p"
    "status (Deactivate p now) = StatusDeactivated"
    using i act by (auto simp: Deactivate_def IsActive_def)
  have told: "map_option path_digest (cat_paths (pg_view V Background w2) j) = learned evs j" for j
    using assms(6) by (simp add: told_def)
  have known: "learned evs i = Some (path_digest p2)" using told [of i] assms(7) by simp
  have "map_option status (cat_paths (pg_view V Background w2) j) = map_option (snd \<circ> snd) (learned evs j)" for j
    using told_announced [OF assms(6)] by (simp add: announced_def)
  then have "announced (outbox_emit V) (pg_view V Background w') (evs @ [ProcessPathDeactivated i now])"
    by (intro published_announced [OF pub _ told_announced [OF assms(6)]])
      (simp_all add: pg_storage.stored q i known path_digest_def)
  moreover have "map_option path_digest (cat_paths (pg_view V Background w') i)
      \<noteq> learned (evs @ [ProcessPathDeactivated i now]) i"
    using assms(8) by (simp add: published_fields [OF pub] pg_storage.stored q i known path_digest_def)
  ultimately show ?thesis by blast
qed

lemma any_interleaving_keeps_witness:
  "keyed (pg_view (demo_env third_call_fails) Background (snd (run_actions demo_ext
      (pg_deps (demo_env third_call_fails))
      [Begin 0 define_pick_pack, Begin 1 define_pick_pack, Continue 1, Continue 0] ([], pg_init))))"
  using any_interleaving_keeps [of "demo_env third_call_fails" demo_sdk
      "[Begin 0 define_pick_pack, Begin 1 define_pick_pack, Continue 1, Continue 0]" "[]"]
  by (simp only: demo_env_sel demo_id_inj Let_def simp_thms)

text \<open>Two requests that are apart may begin one after the other and go on in any order.\<close>

lemma two_spaced:
  assumes "apart r r'"
  shows "all_spaced E U [Begin 0 r, Begin 1 r', Continue 1, Continue 0] ([], w)"
proof -
  obtain t w1 where "begin_request E U r w = (t, w1)" by fastforce
  then show ?thesis
    using assms apart_sym [of r r'] by (cases t) (simp_all add: spaced_def put_thread_def)
qed

lemma apart_requests_refine_witness:
  "cat_steps demo_ext (pg_sp demo_ext) (pg_ss demo_ext) (outbox_emit (demo_env no_faults))
     (pg_view (demo_env no_faults) Background stored_pick_pack)
     (pg_view (demo_env no_faults) Background (snd (run_actions demo_ext (pg_deps (demo_env no_faults))
        [Begin 0 (DeactivateRequest ''pick-pack''), Begin 1 (ScheduleRequest ''S'' ''UTC'' []),
         Continue 1, Continue 0] ([], stored_pick_pack))))"
proof -
  have "apart (DeactivateRequest ''pick-pack'') (ScheduleRequest ''S'' ''UTC'' [])"
    by (simp add: apart_def)
  from apart_requests_refine [OF stored_inv [of no_faults] stored_keyed two_spaced [OF this]]
  show ?thesis by simp
qed

text \<open>Two overlapping creations of one path, with different direct flags, from the empty store.\<close>

lemma demo_stores_new:
  assumes "pg_inv (demo_env no_faults) w" "pp_id p = ''pick-pack''" "IsActive p" "destinationLocationRole p = ''Drop''"
  obtains w' where "store_result (pg_deps (demo_env no_faults)) (NewPath p (ProcessPathCreated (path_payload p now))) w
      = (Inr (), w')" "pg_inv (demo_env no_faults) w'"
proof -
  obtain w1 where "store_result (pg_deps (demo_env no_faults)) (ChangedPath p (ProcessPathCreated (path_payload p now))) w
      = (Inr (), w1)"
    using demo_stores [OF assms(1), of "ProcessPathCreated (path_payload p now)" p] assms(2-4)
    by (auto simp: event_key_def path_payload_def)
  then have s: "store_result (pg_deps (demo_env no_faults)) (NewPath p (ProcessPathCreated (path_payload p now))) w
      = (Inr (), recordAccepted (pg_deps (demo_env no_faults)) Background w1)"
    by simp
  show thesis
    using pg_conc.store_result_stores [OF assms(1), of "NewPath p (ProcessPathCreated (path_payload p now))"]
    by (intro that [OF s]) (simp only: s snd_conv)
qed

lemma demo_definition_starts:
  assumes "pg_inv (demo_env no_faults) w" "cat_paths (pg_view (demo_env no_faults) Background w) ''pick-pack'' = None"
  obtains p now w1 where "define_start demo_ext (pg_deps (demo_env no_faults)) ''pick-pack'' ''pp'' dir [''pick'']
      ''Drop'' 1000 EligibilityZero w = (Some (NewPath p (ProcessPathCreated (path_payload p now))), w1)"
    "pp_id p = ''pick-pack''" "IsActive p" "destinationLocationRole p = ''Drop''" "direct p = dir"
    "pg_inv (demo_env no_faults) w1" "pg_view (demo_env no_faults) Background w1 = pg_view (demo_env no_faults) Background w"
proof -
  let ?V = "demo_env no_faults"
  obtain w0 where f: "repo_FindByID (Repo (pg_deps ?V)) Background ''pick-pack'' w = (Inr None, w0)"
    using calm_find [of ?V "''pick-pack''" w] assms(2) by auto
  obtain now w1 where k: "Clock (pg_deps ?V) w0 = (now, w1)" by fastforce
  have "definition_ok demo_ext ''pp'' [''pick''] ''Drop'' 1000"
    by (simp add: definition_ok_def recognized_role_def role_defs demo_ext_def strings_ToLower_def is_ascii_def
        char_code_def ascii_lower_def less_eq_char_def)
  then obtain p where d: "Define demo_ext ''pick-pack'' ''pp'' dir [''pick''] ''Drop'' 1000 EligibilityZero now = Inr p"
    by (simp add: Define_Inr_iff)
  have p: "pp_id p = ''pick-pack''" "IsActive p" "destinationLocationRole p = ''Drop''" "direct p = dir"
    using d by (auto simp: Define_Inr_iff IsActive_def)
  have s: "define_start demo_ext (pg_deps ?V) ''pick-pack'' ''pp'' dir [''pick''] ''Drop'' 1000 EligibilityZero w
      = (Some (NewPath p (ProcessPathCreated (path_payload p now))), w1)"
    using f k d by (simp add: define_start_def)
  show thesis
    using pg_conc.define_start_reads [OF assms(1), of demo_ext "''pick-pack''" "''pp''" dir "[''pick'']" "''Drop''"
        1000 EligibilityZero] s
    by (intro that [OF s p]) (simp_all add: pg_conc.reading_def)
qed

lemma overlapping_definitions:
  "\<exists>t1 w1 t2 w2 w3 w4.
     define_start demo_ext (pg_deps (demo_env no_faults)) ''pick-pack'' ''pp'' False [''pick''] ''Drop'' 1000
       EligibilityZero pg_init = (Some t1, w1)
   \<and> define_start demo_ext (pg_deps (demo_env no_faults)) ''pick-pack'' ''pp'' True [''pick''] ''Drop'' 1000
       EligibilityZero w1 = (Some t2, w2)
   \<and> store_result (pg_deps (demo_env no_faults)) t1 w2 = (Inr (), w3)
   \<and> store_result (pg_deps (demo_env no_faults)) t2 w3 = (Inr (), w4)
   \<and> map_option direct (cat_paths (pg_view (demo_env no_faults) Background w4) ''pick-pack'') = Some False"
proof -
  let ?V = "demo_env no_faults" and ?i = "''pick-pack''"
  have none: "cat_paths (pg_view ?V Background pg_init) ?i = None" by (simp add: empty_catalogue_def)
  obtain p1 now1 w1 where d1: "define_start demo_ext (pg_deps ?V) ?i ''pp'' False [''pick''] ''Drop'' 1000
      EligibilityZero pg_init = (Some (NewPath p1 (ProcessPathCreated (path_payload p1 now1))), w1)"
    and p1: "pp_id p1 = ?i" "IsActive p1" "destinationLocationRole p1 = ''Drop''" "direct p1 = False"
    and w1: "pg_inv ?V w1" "pg_view ?V Background w1 = pg_view ?V Background pg_init"
    by (rule demo_definition_starts [OF demo_inv none])
  obtain p2 now2 w2 where d2: "define_start demo_ext (pg_deps ?V) ?i ''pp'' True [''pick''] ''Drop'' 1000
      EligibilityZero w1 = (Some (NewPath p2 (ProcessPathCreated (path_payload p2 now2))), w2)"
    and p2: "pp_id p2 = ?i" "IsActive p2" "destinationLocationRole p2 = ''Drop''" "direct p2 = True"
    and w2: "pg_inv ?V w2" "pg_view ?V Background w2 = pg_view ?V Background w1"
    by (rule demo_definition_starts [OF w1(1) none [folded w1(2)]])
  let ?t1 = "NewPath p1 (ProcessPathCreated (path_payload p1 now1))"
  let ?t2 = "NewPath p2 (ProcessPathCreated (path_payload p2 now2))"
  obtain w3 where s1: "store_result (pg_deps ?V) ?t1 w2 = (Inr (), w3)" and w3: "pg_inv ?V w3"
    by (rule demo_stores_new [OF w2(1) p1(1-3)])
  obtain w4 where s2: "store_result (pg_deps ?V) ?t2 w3 = (Inr (), w4)"
    by (rule demo_stores_new [OF w3 p2(1-3)])
  have "map_option direct (cat_paths (pg_view ?V Background w3) ?i) = Some False"
    using p1 none unfolding published_fields [OF pg_stored [OF w2(1) s1 disjI1 [OF refl]]]
    by (simp add: put_path_paths w1(2) w2(2) pg_sp_def)
  then have "map_option direct (cat_paths (pg_view ?V Background w4) ?i) = Some False"
    using p2 unfolding published_fields [OF pg_stored [OF w3 s2 disjI1 [OF refl]]]
    by (auto simp: put_path_paths pg_sp_def)
  from d1 d2 s1 s2 this show ?thesis by (intro exI conjI)
qed

end
