(* ===== verification/KeyRace.thy ===== *)
theory KeyRace
  imports IdempotencyRefine Boot
begin

text \<open>
  POSTs at the same time through the idempotency middleware: any number of sessions, each at a
  program point of \<open>RequireIdempotencyKey\<close> or \<open>runFreshRequest\<close>, over one table of committed keys. The
  step relation adds to the code what Postgres documents of \<open>INSERT ... ON CONFLICT DO NOTHING\<close>: an
  insert of a key that an open transaction has inserted waits until that transaction has ended, and
  then finds its row, or none if it was rolled back. A transaction holds one of the pool's
  connections from its \<open>Begin\<close> to its end.
\<close>

section \<open>Sessions\<close>

text \<open>
  \<open>Begun\<close>: in the transaction, before the insert. \<open>Inserted\<close>: the insert reported one row. \<open>Ran resp\<close>: the
  handler returned. \<open>Recorded resp\<close>: its response is in the key's row. \<open>Missed\<close>: the insert reported no
  row and the transaction was rolled back. \<open>Replied\<close>: the response, or \<open>None\<close> after a panic.
\<close>

datatype session_at = Arrived | Begun | Inserted | Ran response | Recorded response | Missed
  | Replied "response option"

record race =
  kr_rows :: "idem_row list"
  kr_sess :: "session_at list"
  kr_applied :: "(nat \<times> response) list"

text \<open>
  \<open>kr_applied\<close> remembers the sessions whose transaction was committed: the handler's writes are in the
  database exactly then.
\<close>

fun in_tx :: "session_at \<Rightarrow> bool" where
  "in_tx Begun = True" | "in_tx Inserted = True" | "in_tx (Ran _) = True" | "in_tx (Recorded _) = True"
| "in_tx Arrived = False" | "in_tx Missed = False" | "in_tx (Replied _) = False"

definition holds_key :: "session_at \<Rightarrow> bool" where
  "holds_key a \<longleftrightarrow> in_tx a \<and> a \<noteq> Begun"

definition session_key :: "http_request list \<Rightarrow> nat \<Rightarrow> string" where
  "session_key reqs i = header_get (reqs ! i) IdempotencyKeyHeader"

definition connection_free :: "race \<Rightarrow> bool" where
  "connection_free s \<longleftrightarrow> int (length (filter in_tx (kr_sess s))) < MaxConns"

text \<open>Some other session has inserted the key of session \<open>i\<close> and not ended its transaction.\<close>

definition key_locked :: "http_request list \<Rightarrow> race \<Rightarrow> nat \<Rightarrow> bool" where
  "key_locked reqs s i \<longleftrightarrow> (\<exists>j < length (kr_sess s). j \<noteq> i \<and> holds_key (kr_sess s ! j)
     \<and> session_key reqs j = session_key reqs i)"

definition goes :: "race \<Rightarrow> nat \<Rightarrow> session_at \<Rightarrow> race" where
  "goes s i a = s\<lparr>kr_sess := (kr_sess s)[i := a]\<rparr>"

definition commits_row :: "(string \<Rightarrow> string) \<Rightarrow> http_request list \<Rightarrow> nat \<Rightarrow> response \<Rightarrow> race \<Rightarrow> race" where
  "commits_row sha reqs i resp s = s\<lparr>kr_rows := kr_rows s @ [key_row sha (reqs ! i) (outcome_of resp)],
     kr_applied := kr_applied s @ [(i, resp)]\<rparr>"

text \<open>One step of session \<open>i\<close> whose calls succeed; the handler may panic.\<close>

inductive key_step ::
    "http_env \<Rightarrow> (string \<Rightarrow> string) \<Rightarrow> http_request list \<Rightarrow> nat \<Rightarrow> race \<Rightarrow> race \<Rightarrow> bool"
  for H sha reqs i where
  no_key: "i < length (kr_sess s) \<Longrightarrow> kr_sess s ! i = Arrived \<Longrightarrow>
     session_key reqs i = '''' \<or> rq_read_error (reqs ! i) \<noteq> None \<Longrightarrow> rs_status resp = 400 \<Longrightarrow>
     key_step H sha reqs i s (goes s i (Replied (Some resp)))"
| begins: "i < length (kr_sess s) \<Longrightarrow> kr_sess s ! i = Arrived \<Longrightarrow> session_key reqs i \<noteq> '''' \<Longrightarrow>
     rq_read_error (reqs ! i) = None \<Longrightarrow> connection_free s \<Longrightarrow> key_step H sha reqs i s (goes s i Begun)"
| inserts: "i < length (kr_sess s) \<Longrightarrow> kr_sess s ! i = Begun \<Longrightarrow> \<not> key_locked reqs s i \<Longrightarrow>
     select ik_key (session_key reqs i) (kr_rows s) = None \<Longrightarrow> key_step H sha reqs i s (goes s i Inserted)"
| misses: "i < length (kr_sess s) \<Longrightarrow> kr_sess s ! i = Begun \<Longrightarrow> \<not> key_locked reqs s i \<Longrightarrow>
     select ik_key (session_key reqs i) (kr_rows s) \<noteq> None \<Longrightarrow> key_step H sha reqs i s (goes s i Missed)"
| runs: "i < length (kr_sess s) \<Longrightarrow> kr_sess s ! i = Inserted \<Longrightarrow> key_step H sha reqs i s (goes s i (Ran resp))"
| panics: "i < length (kr_sess s) \<Longrightarrow> kr_sess s ! i = Inserted \<Longrightarrow>
     key_step H sha reqs i s (goes s i (Replied None))"
| records: "i < length (kr_sess s) \<Longrightarrow> kr_sess s ! i = Ran resp \<Longrightarrow>
     key_step H sha reqs i s (goes s i (Recorded resp))"
| commits: "i < length (kr_sess s) \<Longrightarrow> kr_sess s ! i = Recorded resp \<Longrightarrow>
     key_step H sha reqs i s (commits_row sha reqs i resp (goes s i (Replied (Some resp))))"
| replays: "i < length (kr_sess s) \<Longrightarrow> kr_sess s ! i = Missed \<Longrightarrow> connection_free s \<Longrightarrow>
     select ik_key (session_key reqs i) (kr_rows s) = Some row \<Longrightarrow>
     key_step H sha reqs i s
       (goes s i (Replied (Some (replayed H (reqs ! i) (sha (rq_body (reqs ! i))) row))))"

text \<open>
  A call of the database that fails: the answer is a 500, and the transaction is rolled back, except
  that a commit may report an error and have happened.
\<close>

inductive key_fault :: "(string \<Rightarrow> string) \<Rightarrow> http_request list \<Rightarrow> nat \<Rightarrow> race \<Rightarrow> race \<Rightarrow> bool"
  for sha reqs i where
  fails: "i < length (kr_sess s) \<Longrightarrow> kr_sess s ! i \<notin> {Inserted} \<union> range Replied \<Longrightarrow>
     kr_sess s ! i = Arrived \<longrightarrow> session_key reqs i \<noteq> '''' \<and> rq_read_error (reqs ! i) = None \<Longrightarrow>
     rs_status resp = 500 \<Longrightarrow> key_fault sha reqs i s (goes s i (Replied (Some resp)))"
| commits_unknown: "i < length (kr_sess s) \<Longrightarrow> kr_sess s ! i = Recorded resp \<Longrightarrow> rs_status resp' = 500 \<Longrightarrow>
     key_fault sha reqs i s (commits_row sha reqs i resp (goes s i (Replied (Some resp'))))"

definition race_step :: "http_env \<Rightarrow> (string \<Rightarrow> string) \<Rightarrow> http_request list \<Rightarrow> race \<Rightarrow> race \<Rightarrow> bool" where
  "race_step H sha reqs s s' \<longleftrightarrow> (\<exists>i. key_step H sha reqs i s s' \<or> key_fault sha reqs i s s')"

definition race_start :: "idem_row list \<Rightarrow> http_request list \<Rightarrow> race" where
  "race_start rows reqs = \<lparr>kr_rows = rows, kr_sess = replicate (length reqs) Arrived, kr_applied = []\<rparr>"

section \<open>Alone, the steps are the middleware\<close>

text \<open>
  A request that no other one disturbs: from \<open>w\<close> to \<open>w'\<close> the middleware takes the key table from one end
  of a path of steps to the other, with its response as the session's.
\<close>

abbreviation alone_race :: "idem_row list \<Rightarrow> session_at \<Rightarrow> (nat \<times> response) list \<Rightarrow> race" where
  "alone_race rows a ap \<equiv> \<lparr>kr_rows = rows, kr_sess = [a], kr_applied = ap\<rparr>"

lemma alone_simps:
  "session_key [r] 0 = header_get r IdempotencyKeyHeader" "\<not> key_locked reqs (alone_race rows a ap) 0"
  "goes (alone_race rows a ap) 0 a' = alone_race rows a' ap" "connection_free (alone_race rows a ap)"
  "commits_row sha [r] 0 resp (alone_race rows a ap)
     = alone_race (rows @ [key_row sha r (outcome_of resp)]) a (ap @ [(0, resp)])"
  by (simp_all add: session_key_def key_locked_def goes_def connection_free_def MaxConns_def commits_row_def)

lemma alone_stepI:
  "key_step H sha [r] 0 (alone_race rows a ap) s \<or> key_fault sha [r] 0 (alone_race rows a ap) s \<Longrightarrow>
    race_step H sha [r] (alone_race rows a ap) s"
  by (auto simp: race_step_def)

text \<open>The handlers the middleware wraps keep the transaction and the table of keys.\<close>

definition keeps_keys :: "oltp pg raw_handler \<Rightarrow> bool" where
  "keeps_keys nh \<longleftrightarrow> (\<forall>r w db out w'. open_tx w = Some (db, False) \<longrightarrow> nh WithTx r w = (out, w') \<longrightarrow>
     committed w' = committed w \<and> (\<exists>db' b. open_tx w' = Some (db', b) \<and> t_idempotency db' = t_idempotency db))"

lemma keeps_keys_define: "keeps_keys (raw (handleDefinePath H (v_ext V) (pg_deps V)))"
  unfolding keeps_keys_def raw_def
  by (auto split: prod.splits) (metis handler_joins)+

text \<open>The steps of a session alone.\<close>

lemma alone_steps:
  "rs_status resp = 400 \<Longrightarrow> header_get r IdempotencyKeyHeader = '''' \<or> rq_read_error r \<noteq> None \<Longrightarrow>
    race_step H sha [r] (alone_race rows Arrived ap) (alone_race rows (Replied (Some resp)) ap)"
  "header_get r IdempotencyKeyHeader \<noteq> '''' \<Longrightarrow> rq_read_error r = None \<Longrightarrow>
    race_step H sha [r] (alone_race rows Arrived ap) (alone_race rows Begun ap)"
  "select ik_key (header_get r IdempotencyKeyHeader) rows = None \<Longrightarrow>
    race_step H sha [r] (alone_race rows Begun ap) (alone_race rows Inserted ap)"
  "select ik_key (header_get r IdempotencyKeyHeader) rows = Some row \<Longrightarrow>
    race_step H sha [r] (alone_race rows Begun ap) (alone_race rows Missed ap)"
  "race_step H sha [r] (alone_race rows Inserted ap) (alone_race rows (Ran resp) ap)"
  "race_step H sha [r] (alone_race rows Inserted ap) (alone_race rows (Replied None) ap)"
  "race_step H sha [r] (alone_race rows (Ran resp) ap) (alone_race rows (Recorded resp) ap)"
  "resp' = resp \<or> rs_status resp' = 500 \<Longrightarrow> race_step H sha [r] (alone_race rows (Recorded resp) ap)
    (alone_race (rows @ [key_row sha r (outcome_of resp)]) (Replied (Some resp')) (ap @ [(0, resp)]))"
  "select ik_key (header_get r IdempotencyKeyHeader) rows = Some row \<Longrightarrow>
    race_step H sha [r] (alone_race rows Missed ap)
      (alone_race rows (Replied (Some (replayed H r (sha (rq_body r)) row))) ap)"
  "rs_status resp = 500 \<Longrightarrow> a \<in> {Begun, Missed} \<union> range Ran \<union> range Recorded \<Longrightarrow>
    race_step H sha [r] (alone_race rows a ap) (alone_race rows (Replied (Some resp)) ap)"
  "rs_status resp = 500 \<Longrightarrow> header_get r IdempotencyKeyHeader \<noteq> '''' \<Longrightarrow> rq_read_error r = None \<Longrightarrow>
    race_step H sha [r] (alone_race rows Arrived ap) (alone_race rows (Replied (Some resp)) ap)"
  using no_key [of 0 "alone_race rows Arrived ap" "[r]" resp H sha]
    begins [of 0 "alone_race rows Arrived ap" "[r]" H sha]
    inserts [of 0 "alone_race rows Begun ap" "[r]" H sha]
    misses [of 0 "alone_race rows Begun ap" "[r]" H sha]
    runs [of 0 "alone_race rows Inserted ap" H sha "[r]" resp]
    panics [of 0 "alone_race rows Inserted ap" H sha "[r]"]
    records [of 0 "alone_race rows (Ran resp) ap" resp H sha "[r]"]
    commits [of 0 "alone_race rows (Recorded resp) ap" resp H sha "[r]"]
    replays [of 0 "alone_race rows Missed ap" "[r]" row H sha]
    fails [of 0 "alone_race rows a ap" "[r]" resp sha]
    fails [of 0 "alone_race rows Arrived ap" "[r]" resp sha]
    commits_unknown [of 0 "alone_race rows (Recorded resp) ap" resp resp' sha "[r]"]
  by (auto simp: alone_simps intro!: alone_stepI)

lemma fresh_alone:
  assumes run: "runFreshRequest H V nh r (header_get r IdempotencyKeyHeader) w = (res, w')"
    and new: "select ik_key (header_get r IdempotencyKeyHeader) rows = None"
    and w: "t_idempotency (committed w) = rows" "open_tx w = Some (db, False)"
      "t_idempotency db = rows @ [key_row sha r None]"
    and nh: "keeps_keys nh"
  shows "\<exists>ap. (race_step H sha [r])\<^sup>*\<^sup>* (alone_race rows Inserted [])
    (alone_race (t_idempotency (committed w')) (Replied res) ap)"
proof -
  obtain out w3 where h: "nh WithTx r w = (out, w3)" by fastforce
  obtain db3 b where w3: "committed w3 = committed w" "open_tx w3 = Some (db3, b)"
    "t_idempotency db3 = rows @ [key_row sha r None]"
    using nh w(2,3) h by (fastforce simp: keeps_keys_def)
  have some: "res \<noteq> None" if "out \<noteq> None"
    using run h that by (auto simp: runFreshRequest_def split: sum.splits prod.splits)
  from runFreshRequest_cases(2) [OF run h w3(1,2)]
  consider (not_done) "committed w' = committed w" "\<forall>resp. res = Some resp \<longrightarrow> rs_status resp = 500" "out = None \<longrightarrow> res = None"
    | (done_row) resp resp' where "committed w' = recorded (header_get r IdempotencyKeyHeader) resp db3"
        "res = Some resp'" "resp' = resp \<or> rs_status resp' = 500"
    by blast
  then show ?thesis
  proof cases
    case c: not_done
    show ?thesis
    proof (cases out)
      case None
      then show ?thesis
        using c w(1) alone_steps(6) [of H sha r rows "[]"] by (auto intro!: exI [of _ "[]"])
    next
      case (Some resp)
      then obtain resp' where "res = Some resp'" "rs_status resp' = 500" using some c(2) by auto
      then show ?thesis
        using alone_steps(5) [of H sha r rows "[]" resp] alone_steps(10) [of resp' "Ran resp" H sha r rows "[]"] c(1) w(1)
        by (auto intro!: exI [of _ "[]"] intro: converse_rtranclp_into_rtranclp)
    qed
  next
    case c: done_row
    have rows: "t_idempotency (committed w') = rows @ [key_row sha r (outcome_of resp)]"
      using recorded_append [OF new w3(3)] c(1) by simp
    show ?thesis
      unfolding rows c(2)
      using alone_steps(5) [of H sha r rows "[]" resp] alone_steps(7) [of H sha r rows resp "[]"]
        alone_steps(8) [OF c(3), of H sha r rows "[]"]
      by (meson r_into_rtranclp rtranclp.rtrancl_into_rtrancl)
  qed
qed

lemma middleware_alone:
  assumes "RequireIdempotencyKey H V sha nh c r w = (res, w')" "keeps_keys nh"
  shows "\<exists>ap. (race_step H sha [r])\<^sup>*\<^sup>* (alone_race (t_idempotency (committed w)) Arrived [])
    (alone_race (t_idempotency (committed w')) (Replied res) ap)"
  using assms(1)
proof (cases rule: RequireIdempotencyKey_cases)
  case (refused resp)
  then show ?thesis
    using alone_steps(1,11) by (cases "rs_status resp = 400") (auto intro!: exI [of _ "[]"])
next
  case (known resp row)
  have "race_step H sha [r] (alone_race (t_idempotency (committed w)) Missed [])
      (alone_race (t_idempotency (committed w)) (Replied (Some resp)) [])"
    using known(5) alone_steps(9) [OF known(4)] alone_steps(10) by blast
  then show ?thesis
    using known(1,2) alone_steps(2) [OF known(7,8)] alone_steps(4) [OF known(4)]
    by (metis (no_types, lifting) r_into_rtranclp rtranclp.rtrancl_into_rtrancl)
next
  case (fresh w2)
  then obtain ap where "(race_step H sha [r])\<^sup>*\<^sup>* (alone_race (t_idempotency (committed w)) Inserted [])
      (alone_race (t_idempotency (committed w')) (Replied res) ap)"
    using fresh_alone [OF fresh(6,1) _ fresh(3) _ assms(2)] by auto
  then show ?thesis
    using alone_steps(2) [OF fresh(5,7)] alone_steps(3) [OF fresh(1)]
    by (meson converse_rtranclp_into_rtranclp)
qed

section \<open>What holds in every race\<close>

definition table_ok :: "idem_row list \<Rightarrow> bool" where
  "table_ok rows \<longleftrightarrow> distinct (map ik_key rows) \<and> (\<forall>row \<in> set rows. ik_outcome row \<noteq> None)"

text \<open>What a session may assume at its program point.\<close>

fun session_ok :: "http_env \<Rightarrow> (string \<Rightarrow> string) \<Rightarrow> http_request \<Rightarrow> idem_row list \<Rightarrow> session_at \<Rightarrow> bool" where
  "session_ok H sha r rows Missed \<longleftrightarrow> select ik_key (header_get r IdempotencyKeyHeader) rows \<noteq> None"
| "session_ok H sha r rows (Replied (Some resp)) \<longleftrightarrow> rs_status resp \<in> {400, 500}
     \<or> (\<exists>row. select ik_key (header_get r IdempotencyKeyHeader) rows = Some row
          \<and> resp = replayed H r (sha (rq_body r)) row)"
| "session_ok H sha r rows a \<longleftrightarrow> True"

text \<open>A key that is held is not in the table, and no other session holds it.\<close>

definition locks_ok :: "http_request list \<Rightarrow> race \<Rightarrow> bool" where
  "locks_ok reqs s \<longleftrightarrow> (\<forall>i < length (kr_sess s). holds_key (kr_sess s ! i) \<longrightarrow>
     select ik_key (session_key reqs i) (kr_rows s) = None \<and> \<not> key_locked reqs s i)"

definition applied_ok :: "(string \<Rightarrow> string) \<Rightarrow> http_request list \<Rightarrow> race \<Rightarrow> bool" where
  "applied_ok sha reqs s \<longleftrightarrow> distinct (map (session_key reqs \<circ> fst) (kr_applied s))
     \<and> (\<forall>(i, resp) \<in> set (kr_applied s). key_row sha (reqs ! i) (outcome_of resp) \<in> set (kr_rows s))"

definition race_inv :: "http_env \<Rightarrow> (string \<Rightarrow> string) \<Rightarrow> http_request list \<Rightarrow> race \<Rightarrow> bool" where
  "race_inv H sha reqs s \<longleftrightarrow> length (kr_sess s) = length reqs \<and> table_ok (kr_rows s)
     \<and> (\<forall>i < length reqs. session_ok H sha (reqs ! i) (kr_rows s) (kr_sess s ! i))
     \<and> locks_ok reqs s \<and> applied_ok sha reqs s"

lemma goes_sel [simp]:
  "kr_rows (goes s i a) = kr_rows s" "kr_sess (goes s i a) = (kr_sess s)[i := a]"
  "kr_applied (goes s i a) = kr_applied s"
  by (simp_all add: goes_def)

lemma commits_row_sel [simp]:
  "kr_rows (commits_row sha reqs i resp s) = kr_rows s @ [key_row sha (reqs ! i) (outcome_of resp)]"
  "kr_sess (commits_row sha reqs i resp s) = kr_sess s"
  "kr_applied (commits_row sha reqs i resp s) = kr_applied s @ [(i, resp)]"
  by (simp_all add: commits_row_def)

lemma key_locked_frame:
  assumes "i < length (kr_sess s)" "holds_key a \<Longrightarrow> holds_key (kr_sess s ! i)"
    and "key_locked reqs (s\<lparr>kr_sess := (kr_sess s)[i := a]\<rparr>) j"
  shows "key_locked reqs s j"
  using assms by (auto simp: key_locked_def nth_list_update split: if_splits)

text \<open>Every step but the insert and the commit only lets go of keys.\<close>

lemma goes_keeps:
  assumes "race_inv H sha reqs s" "i < length (kr_sess s)" "holds_key a \<Longrightarrow> holds_key (kr_sess s ! i)"
    and "session_ok H sha (reqs ! i) (kr_rows s) a"
  shows "race_inv H sha reqs (goes s i a)"
proof -
  have "locks_ok reqs (goes s i a)"
    using assms(1-3) key_locked_frame [of i s a reqs]
    by (auto simp: race_inv_def locks_ok_def goes_def nth_list_update split: if_splits)
  then show ?thesis
    using assms(1,2,4) by (auto simp: race_inv_def applied_ok_def nth_list_update)
qed

lemma inserts_keeps:
  assumes "race_inv H sha reqs s" "i < length (kr_sess s)" "\<not> key_locked reqs s i"
    and "select ik_key (session_key reqs i) (kr_rows s) = None"
  shows "race_inv H sha reqs (goes s i Inserted)"
proof -
  have other: "session_key reqs j \<noteq> session_key reqs i"
    if "j < length (kr_sess s)" "j \<noteq> i" "holds_key (kr_sess s ! j)" for j
    using that assms(3) by (auto simp: key_locked_def)
  have "locks_ok reqs (goes s i Inserted)"
    unfolding locks_ok_def
  proof (intro allI impI)
    fix j assume j: "j < length (kr_sess (goes s i Inserted))" "holds_key (kr_sess (goes s i Inserted) ! j)"
    show "select ik_key (session_key reqs j) (kr_rows (goes s i Inserted)) = None
        \<and> \<not> key_locked reqs (goes s i Inserted) j"
    proof (cases "j = i")
      case True
      then show ?thesis using assms(3,4) by (auto simp: key_locked_def)
    next
      case False
      then have h: "j < length (kr_sess s)" "holds_key (kr_sess s ! j)" using j by simp_all
      then have "select ik_key (session_key reqs j) (kr_rows s) = None" "\<not> key_locked reqs s j"
        using assms(1) by (auto simp: race_inv_def locks_ok_def)
      moreover have "\<not> key_locked reqs (goes s i Inserted) j"
        using \<open>\<not> key_locked reqs s j\<close> other [OF h(1) False h(2)] assms(2)
        by (auto simp: key_locked_def nth_list_update split: if_splits)
      ultimately show ?thesis by simp
    qed
  qed
  then show ?thesis
    using assms(1,2) by (auto simp: race_inv_def applied_ok_def nth_list_update)
qed

text \<open>A commit adds the row of a key nobody else holds.\<close>

lemma key_row_key [simp]: "ik_key (key_row sha (reqs ! i) out) = session_key reqs i"
  by (simp add: key_row_def session_key_def)

lemma session_ok_grows:
  assumes "session_ok H sha r rows a" "select ik_key (ik_key row) rows = None"
  shows "session_ok H sha r (rows @ [row]) a"
  using assms by (cases "(H, sha, r, rows, a)" rule: session_ok.cases) (auto simp: select_append)

lemma own_row_replays:
  "replayed H r (sha (rq_body r)) (key_row sha r (outcome_of resp)) = resp"
  by (simp add: replayed_def key_row_def outcome_of_def)

lemma commits_locks:
  assumes "locks_ok reqs s" "i < length (kr_sess s)" "holds_key (kr_sess s ! i)" "\<not> holds_key a"
  shows "locks_ok reqs (commits_row sha reqs i resp (goes s i a))"
  unfolding locks_ok_def
proof (intro allI impI)
  let ?s = "commits_row sha reqs i resp (goes s i a)"
  fix j assume "j < length (kr_sess ?s)" "holds_key (kr_sess ?s ! j)"
  then have ne: "j \<noteq> i" and h: "j < length (kr_sess s)" "holds_key (kr_sess s ! j)"
    using assms(2,4) by (auto simp: nth_list_update split: if_splits)
  have "\<not> key_locked reqs s i" using assms(1-3) by (simp add: locks_ok_def)
  then have "session_key reqs j \<noteq> session_key reqs i" using ne h by (auto simp: key_locked_def)
  moreover have "select ik_key (session_key reqs j) (kr_rows s) = None" "\<not> key_locked reqs s j"
    using assms(1) h by (auto simp: locks_ok_def)
  moreover from this have "\<not> key_locked reqs ?s j"
    using assms(2,4) by (auto simp: key_locked_def nth_list_update split: if_splits)
  ultimately show "select ik_key (session_key reqs j) (kr_rows ?s) = None \<and> \<not> key_locked reqs ?s j"
    by (simp add: select_append)
qed

lemma commits_applied:
  assumes "applied_ok sha reqs s" "select ik_key (session_key reqs i) (kr_rows s) = None"
  shows "applied_ok sha reqs (commits_row sha reqs i resp (goes s i a))"
proof -
  have "session_key reqs j \<noteq> session_key reqs i" if "(j, resp0) \<in> set (kr_applied s)" for j resp0
  proof -
    have "key_row sha (reqs ! j) (outcome_of resp0) \<in> set (kr_rows s)"
      using assms(1) that by (auto simp: applied_ok_def)
    then show ?thesis using assms(2) by (force simp: select_None_iff)
  qed
  then show ?thesis using assms(1) by (fastforce simp: applied_ok_def)
qed

lemma commits_keeps:
  assumes inv: "race_inv H sha reqs s" and i: "i < length (kr_sess s)" "kr_sess s ! i = Recorded resp"
    and resp: "resp' = resp \<or> rs_status resp' = 500"
  shows "race_inv H sha reqs (commits_row sha reqs i resp (goes s i (Replied (Some resp'))))"
proof -
  let ?row = "key_row sha (reqs ! i) (outcome_of resp)" and ?s = "goes s i (Replied (Some resp'))"
  have held: "select ik_key (session_key reqs i) (kr_rows s) = None"
    using inv i by (auto simp: race_inv_def locks_ok_def holds_key_def)
  have new: "select ik_key (session_key reqs i) (kr_rows s @ [?row]) = Some ?row"
    using held by (simp add: select_append)
  have "table_ok (kr_rows s @ [?row])"
    using inv held by (auto simp: race_inv_def table_ok_def select_None_iff outcome_of_def key_row_def
        session_key_def)
  moreover have "session_ok H sha (reqs ! j) (kr_rows s @ [?row]) (kr_sess ?s ! j)" if "j < length reqs" for j
  proof (cases "j = i")
    case True
    then show ?thesis
      using i resp new own_row_replays [of H "reqs ! i" sha resp] by (auto simp: session_key_def)
  next
    case False
    then show ?thesis
      using inv that held by (auto simp: race_inv_def intro!: session_ok_grows)
  qed
  ultimately show ?thesis
    using inv commits_locks [of reqs s i "Replied (Some resp')" sha resp] i
      commits_applied [OF _ held, of sha resp "Replied (Some resp')"]
    by (simp add: race_inv_def holds_key_def)
qed

lemma key_step_inv: "key_step H sha reqs i s s' \<Longrightarrow> race_inv H sha reqs s \<Longrightarrow> race_inv H sha reqs s'"
proof (induction rule: key_step.induct)
  case (inserts s)
  then show ?case by (intro inserts_keeps)
next
  case (commits s resp)
  then show ?case by (intro commits_keeps) simp_all
qed (rule goes_keeps; auto simp: holds_key_def session_key_def)+

lemma key_fault_inv: "key_fault sha reqs i s s' \<Longrightarrow> race_inv H sha reqs s \<Longrightarrow> race_inv H sha reqs s'"
proof (induction rule: key_fault.induct)
  case (commits_unknown s resp resp')
  then show ?case by (intro commits_keeps) simp_all
qed (rule goes_keeps; auto simp: holds_key_def)

lemma race_start_inv: "table_ok rows \<Longrightarrow> race_inv H sha reqs (race_start rows reqs)"
  by (simp add: race_inv_def race_start_def locks_ok_def applied_ok_def holds_key_def)

lemma race_inv_steps: "(race_step H sha reqs)\<^sup>*\<^sup>* s s' \<Longrightarrow> race_inv H sha reqs s \<Longrightarrow> race_inv H sha reqs s'"
  by (induction rule: rtranclp_induct) (auto simp: race_step_def intro: key_step_inv key_fault_inv)

section \<open>A race ends\<close>

fun steps_to_reply :: "session_at \<Rightarrow> nat" where
  "steps_to_reply Arrived = 5" | "steps_to_reply Begun = 4" | "steps_to_reply Inserted = 3"
| "steps_to_reply (Ran _) = 2" | "steps_to_reply (Recorded _) = 1" | "steps_to_reply Missed = 1"
| "steps_to_reply (Replied _) = 0"

definition race_left :: "race \<Rightarrow> nat" where
  "race_left s = sum_list (map steps_to_reply (kr_sess s))"

lemma goes_left:
  assumes "i < length (kr_sess s)" "steps_to_reply a < steps_to_reply (kr_sess s ! i)"
  shows "race_left (goes s i a) < race_left s"
proof -
  have "steps_to_reply (kr_sess s ! i) \<le> sum_list (map steps_to_reply (kr_sess s))"
    using assms(1) by (intro member_le_sum_list) simp_all
  then show ?thesis
    using assms by (simp add: race_left_def map_update sum_list_update)
qed

lemma commits_row_left [simp]: "race_left (commits_row sha reqs i resp s) = race_left s"
  by (simp add: race_left_def)

lemma replies_left: "kr_sess s ! i \<notin> range Replied \<Longrightarrow> 0 < steps_to_reply (kr_sess s ! i)"
  by (cases "kr_sess s ! i") auto

lemma race_step_left: "race_step H sha reqs s s' \<Longrightarrow> race_left s' < race_left s"
  unfolding race_step_def
  by (elim exE disjE; erule key_step.cases key_fault.cases; simp)
    (auto intro!: goes_left replies_left)

lemma race_bound: "(race_step H sha reqs ^^ k) s s' \<Longrightarrow> race_left s' + k \<le> race_left s"
proof (induction k arbitrary: s')
  case (Suc k)
  then obtain t where "(race_step H sha reqs ^^ k) s t" "race_step H sha reqs t s'" by auto
  then show ?case using Suc.IH race_step_left by fastforce
qed simp

text \<open>
  While a session is not answered, some session can go on without a fault: one that holds its key
  waits for nobody, and one that waits for a key or a connection waits for such a session.
\<close>

lemma key_holder_goes:
  assumes "i < length (kr_sess s)" "holds_key (kr_sess s ! i)"
  shows "\<exists>s'. key_step H sha reqs i s s'"
  using assms
  by (cases "kr_sess s ! i") (auto simp: holds_key_def intro: key_step.intros)

lemma race_progress:
  assumes "race_inv H sha reqs s" "i < length (kr_sess s)" "kr_sess s ! i \<notin> range Replied"
  shows "\<exists>j s'. key_step H sha reqs j s s'"
proof (cases "\<exists>j < length (kr_sess s). holds_key (kr_sess s ! j)")
  case True
  then show ?thesis using key_holder_goes by blast
next
  case none: False
  then have unlocked: "\<not> key_locked reqs s j" for j by (auto simp: key_locked_def)
  show ?thesis
  proof (cases "\<exists>j < length (kr_sess s). kr_sess s ! j = Begun")
    case True
    then show ?thesis using inserts misses unlocked by metis
  next
    case False
    then have "filter in_tx (kr_sess s) = []"
      using none by (auto simp: filter_empty_conv in_set_conv_nth holds_key_def)
    then have free: "connection_free s" by (simp add: connection_free_def MaxConns_def)
    show ?thesis
    proof (cases "kr_sess s ! i")
      case Arrived
      obtain resp :: response where "rs_status resp = 400" by (meson response.select_convs(1))
      then show ?thesis
        using no_key [OF assms(2) Arrived] begins [OF assms(2) Arrived _ _ free] by blast
    next
      case Missed
      then have "select ik_key (session_key reqs i) (kr_rows s) \<noteq> None"
        using assms(1,2) by (auto simp: race_inv_def session_key_def dest!: spec [of _ i])
      then show ?thesis using replays [OF assms(2) Missed free] by blast
    qed (use none False assms in \<open>auto simp: holds_key_def\<close>)
  qed
qed

end
