(* ===== verification/KeyRaceClaims.thy ===== *)
theory KeyRaceClaims
  imports KeyRace HttpClaims
begin

text \<open>
  The properties of concurrent POSTs through the idempotency middleware, with a race of two requests
  with one key as their witness.
\<close>

section \<open>Two requests with one key\<close>

definition twice :: "http_request list" where
  "twice = [demo_post ''k'' ''x'', demo_post ''k'' ''x'']"

definition created :: response where
  "created = \<lparr>rs_status = 201, rs_headers = [], rs_body = ''pathId''\<rparr>"

definition twice_at :: "idem_row list \<Rightarrow> session_at \<Rightarrow> session_at \<Rightarrow> (nat \<times> response) list \<Rightarrow> race" where
  "twice_at rows a b ap = \<lparr>kr_rows = rows, kr_sess = [a, b], kr_applied = ap\<rparr>"

definition created_row :: idem_row where
  "created_row = key_row id (demo_post ''k'' ''x'') (outcome_of created)"

lemma twice_simps:
  "length (kr_sess (twice_at rows a b ap)) = 2" "kr_sess (twice_at rows a b ap) ! 0 = a"
  "kr_sess (twice_at rows a b ap) ! 1 = b" "kr_rows (twice_at rows a b ap) = rows"
  "session_key twice 0 = ''k''" "session_key twice 1 = ''k''" "rq_read_error (twice ! 0) = None"
  "rq_read_error (twice ! 1) = None"
  "goes (twice_at rows a b ap) 0 c = twice_at rows c b ap" "goes (twice_at rows a b ap) 1 c = twice_at rows a c ap"
  "connection_free (twice_at rows a b ap)"
  "commits_row id twice 0 created (twice_at [] a b []) = twice_at [created_row] a b [(0, created)]"
  "replayed demo_http (twice ! 1) (rq_body (twice ! 1)) created_row = created"
  "select ik_key ''k'' [created_row] = Some created_row"
  by (auto simp: twice_at_def twice_def session_key_def demo_post_def header_get_def goes_def connection_free_def
      MaxConns_def commits_row_def created_row_def own_row_replays select_def
      key_row_def replayed_def outcome_of_def created_def)

lemma twice_locked:
  "key_locked twice (twice_at rows a b ap) 0 \<longleftrightarrow> holds_key b"
  "key_locked twice (twice_at rows a b ap) 1 \<longleftrightarrow> holds_key a"
  by (auto simp: key_locked_def twice_simps twice_simps [unfolded One_nat_def] less_2_cases_iff)

lemma race_stepI: "key_step H sha reqs i s s' \<Longrightarrow> race_step H sha reqs s s'"
  by (auto simp: race_step_def)

text \<open>The second waits for the first, finds its row and is answered from it.\<close>

lemma twice_race:
  "(race_step demo_http id twice ^^ 8) (race_start [] twice)
     (twice_at [created_row] (Replied (Some created)) (Replied (Some created)) [(0, created)])"
proof -
  let ?R = "race_step demo_http id twice"
  have "?R (twice_at [] Arrived Arrived []) (twice_at [] Begun Arrived [])"
    "?R (twice_at [] Begun Arrived []) (twice_at [] Begun Begun [])"
    "?R (twice_at [] Begun Begun []) (twice_at [] Inserted Begun [])"
    "?R (twice_at [] Inserted Begun []) (twice_at [] (Ran created) Begun [])"
    "?R (twice_at [] (Ran created) Begun []) (twice_at [] (Recorded created) Begun [])"
    "?R (twice_at [] (Recorded created) Begun []) (twice_at [created_row] (Replied (Some created)) Begun [(0, created)])"
    "?R (twice_at [created_row] (Replied (Some created)) Begun [(0, created)])
        (twice_at [created_row] (Replied (Some created)) Missed [(0, created)])"
    "?R (twice_at [created_row] (Replied (Some created)) Missed [(0, created)])
        (twice_at [created_row] (Replied (Some created)) (Replied (Some created)) [(0, created)])"
    using begins [of 0 "twice_at [] Arrived Arrived []" twice demo_http id]
      begins [of 1 "twice_at [] Begun Arrived []" twice demo_http id]
      inserts [of 0 "twice_at [] Begun Begun []" twice demo_http id]
      runs [of 0 "twice_at [] Inserted Begun []" demo_http id twice created]
      records [of 0 "twice_at [] (Ran created) Begun []" created demo_http id twice]
      commits [of 0 "twice_at [] (Recorded created) Begun []" created demo_http id twice]
      misses [of 1 "twice_at [created_row] (Replied (Some created)) Begun [(0, created)]" twice demo_http id]
      replays [of 1 "twice_at [created_row] (Replied (Some created)) Missed [(0, created)]" twice created_row demo_http id]
    by (simp_all add: twice_simps twice_locked holds_key_def race_stepI del: One_nat_def)
  moreover have "race_start [] twice = twice_at [] Arrived Arrived []"
    by (simp add: race_start_def twice_at_def twice_def)
  ultimately show ?thesis by (simp add: numeral_eq_Suc relpowp_Suc_I2 del: relpowp.simps)
qed

section \<open>Properties\<close>

text \<open>
  C10. Under any interleaving of any number of POSTs and any failing calls, a key is applied at most
  once: no two committed transactions of handlers have the same key. Every committed key has its
  response, a session whose insert found a row can rely on reading it back with its response (the
  middleware's defensive branch is dead), and an answer other than a 400 or a 500 is what the row of
  the key stands for.
\<close>

theorem race_at_most_once:
  assumes "table_ok rows" "(race_step H sha reqs)\<^sup>*\<^sup>* (race_start rows reqs) s"
  shows "distinct (map (session_key reqs \<circ> fst) (kr_applied s)) \<and> table_ok (kr_rows s)
    \<and> (\<forall>i < length reqs. (kr_sess s ! i = Missed \<longrightarrow> (\<exists>row outcome.
            select ik_key (session_key reqs i) (kr_rows s) = Some row \<and> ik_outcome row = Some outcome))
        \<and> (\<forall>resp. kr_sess s ! i = Replied (Some resp) \<longrightarrow> rs_status resp \<in> {400, 500}
            \<or> (\<exists>row. select ik_key (session_key reqs i) (kr_rows s) = Some row
                 \<and> resp = replayed H (reqs ! i) (sha (rq_body (reqs ! i))) row)))"
proof -
  have inv: "race_inv H sha reqs s" using race_inv_steps [OF assms(2) race_start_inv [OF assms(1)]] .
  have out: "\<exists>outcome. ik_outcome row = Some outcome" if "select ik_key k (kr_rows s) = Some row" for k row
    using inv select_Some_key [OF that] by (auto simp: race_inv_def table_ok_def)
  show ?thesis
    using inv out by (auto simp: race_inv_def applied_ok_def session_key_def dest!: spec)
qed

lemma race_at_most_once_witness:
  "distinct (map (session_key twice \<circ> fst) [(0, created)]) \<and> table_ok [created_row]"
  using race_at_most_once [OF _ relpowp_imp_rtranclp [OF twice_race]]
  by (simp add: table_ok_def twice_at_def)

text \<open>
  C11. A race always ends, and no deadlock between keys and connections: it has at most five steps a
  request, and as long as a request is not answered some session can take its next step without
  any call failing, although a waiting insert keeps one of the pool's ten connections.
\<close>

theorem race_ends:
  assumes "table_ok rows" "(race_step H sha reqs ^^ k) (race_start rows reqs) s"
  shows "k \<le> 5 * length reqs
    \<and> ((\<exists>i < length reqs. kr_sess s ! i \<notin> range Replied) \<longrightarrow> (\<exists>j s'. key_step H sha reqs j s s'))"
proof -
  have "race_left (race_start rows reqs) = 5 * length reqs"
    by (simp add: race_left_def race_start_def sum_list_replicate)
  moreover have "race_inv H sha reqs s"
    using race_inv_steps [OF relpowp_imp_rtranclp [OF assms(2)] race_start_inv [OF assms(1)]] .
  ultimately show ?thesis
    using race_bound [OF assms(2)] race_progress by (auto simp: race_inv_def)
qed

lemma race_ends_witness:
  "(8 :: nat) \<le> 5 * length twice \<and> (\<exists>j s'. key_step demo_http id twice j (race_start [] twice) s')"
proof -
  have "kr_sess (race_start [] twice) ! 0 \<notin> range Replied" "0 < length twice"
    by (auto simp: race_start_def twice_def)
  moreover have "(race_step demo_http id twice ^^ 0) (race_start [] twice) (race_start [] twice)" by simp
  ultimately show ?thesis
    using race_ends [OF _ twice_race] race_ends [of "[]" 0 demo_http id twice "race_start [] twice"]
    by (auto simp: table_ok_def)
qed

end
