(* ===== verification/Spec2Isabelle.thy ===== *)
theory Spec2Isabelle
  imports DomainClaims AppClaims RelayClaims HttpClaims AnalyticsClaims McpClaims BootClaims LifecycleClaims TelemetryClaims EndToEndClaims ConcurrencyClaims KeyRaceClaims
begin

text \<open>
  A verification development for \<open>process-path-management\<close>, a Go service that owns the catalogue of
  fulfilment process paths and of the sites' carrier cutoff (CPT) schedules.

  \<^bold>\<open>The program.\<close> Four processes share the code under \<open>src/internal\<close>. \<open>cmd/pathmgmt\<close> serves a REST API; its
  use cases change two aggregates and store them, in memory or in Postgres, together with the
  events that announce the change: over Postgres the events go to an outbox table in the same
  transaction, and a relay sends the rows to two Kafka topics. \<open>cmd/pathmgmt-projector\<close> consumes
  one of the topics and keeps a read model of daily counters, \<open>cmd/pathmgmt-reports\<close> answers
  queries of it, and \<open>cmd/mcp\<close> offers the catalogue and the reports as read-only tools.

  \<^bold>\<open>Values and aggregates.\<close> \<open>Prelude\<close> has the error values of the service with \<open>errors.Is\<close> and
  \<open>errors.Join\<close>, the state-and-error type \<open>io\<close> of every operation, and list lemmas. \<open>Shared\<close>,
  \<open>ProcessPath\<close>, \<open>CPTSchedule\<close> and \<open>Events\<close> are the packages of \<open>internal/domain\<close>: each struct a
  record, each constructor and method a definition in the order of the file, errors as \<open>Inl\<close>.
  \<open>GoText\<close> and \<open>Url\<close> are the text formats of Go's standard library that the adapters use:
  durations, JSON values, query strings. \<open>DomainClaims\<close>: a path is well formed through every
  command and final once deactivated; a revision changes a schedule exactly when it reports so; the
  \<open>HH:MM\<close> parser accepts the minutes of a day and nothing else.

  \<^bold>\<open>Application.\<close> \<open>UseCases\<close> has the use cases of \<open>internal/application\<close> over a record of ports (\<open>Deps\<close>), so
  that one definition runs over both sets of adapters. \<open>Catalogue\<close> is the specification: an abstract
  catalogue of paths, schedules and messages, its steps, and the contracts of the ports as the
  locales \<open>path_repo\<close>, \<open>schedule_repo\<close>, \<open>event_publisher\<close>, \<open>application\<close>, \<open>stepwise_application\<close> (an operation
  may stop after the save) and \<open>atomic_application\<close> (it may not), with the refinement of requests by
  steps proved inside them. \<open>CatalogueHistory\<close> (locale \<open>storage\<close>) has what every history of steps keeps.

  \<^bold>\<open>Adapters of the transactional service.\<close> \<open>Memory\<close> is the process without a database and interprets
  the contracts. \<open>Kafka\<close> has the CloudEvents encoders of \<open>adapters/kafka\<close> and \<open>outbound/kafka\<close>, the direct
  publishers and the configuration of their writers. \<open>Sql\<close> is the database behind \<open>pgx\<close>: a committed
  state, one open transaction, and for every call a fault that either refuses it or reports an
  error for a call that took effect. \<open>Postgres\<close> has the statements, rows and column conversions of the
  repositories, the outbox publisher and the unit of work; \<open>PostgresRefine\<close> proves that they
  implement the catalogue, whatever calls fail, and interprets the contracts. \<open>Relay\<close> is the outbox
  relay with its pass, its loop, failing sends and rows another relay has locked. \<open>AppClaims\<close> and
  \<open>RelayClaims\<close>: every request is a whole step or no step, the outbox tells exactly the stored paths,
  what is marked published is in the broker's log, order and progress of the relay, round trips of
  rows and of encoded events.

  \<^bold>\<open>Requests that overlap.\<close> \<open>Concurrency\<close> cuts the use cases at the calls of their ports: an action of a
  history is the next call, or the whole Save-then-Publish scope, of one of any number of requests in
  flight; one request alone does what the use case does. The locale \<open>merging_storage\<close> is a store that
  keeps the identity of a row, \<open>concurrent_application\<close> an adapter with one; both are interpreted on
  Postgres. \<open>ConcurrencyClaims\<close>: what every interleaving keeps, that requests that do not touch what
  another one reads may overlap freely (then every theorem about whole requests applies), and what
  is lost when they do: a late revision makes a deactivated path active again.

  \<^bold>\<open>HTTP.\<close> \<open>Http\<close> has the DTOs and how \<open>encoding/json\<close> fills them, the handlers, the problem catalogue, the
  router, readiness and CORS; \<open>Idempotency\<close> the middleware of the creation endpoint, with the panics
  of the handler. \<open>HttpErrors\<close> shows where the errors of a client come from, \<open>IdempotencyRefine\<close> what
  the middleware does to the committed database. \<open>HttpClaims\<close>: a key that is known always has an
  outcome, is applied at most once and is answered from its row; a 4xx changes nothing. \<open>KeyRace\<close> is
  the middleware as a step relation of any number of sessions that wait for keys another open
  transaction has inserted (as Postgres documents it) and for connections of the pool; one session alone takes the steps of
  \<open>RequireIdempotencyKey\<close> (\<open>middleware_alone\<close>). \<open>KeyRaceClaims\<close>: at most one of the requests with a key is
  applied, the others are answered from its row, and no race deadlocks or goes on for ever.

  \<^bold>\<open>Analytics.\<close> \<open>Analytics\<close> has the read model in memory and in Postgres, \<open>AnalyticsConsumer\<close> the consumer with
  its deduplication gate, bounded retries and dead-letter topic, \<open>Reports\<close> the REST reader. The
  contract of a projection is the locale \<open>projection_store\<close> (\<open>AnalyticsRefine\<close>), interpreted on both
  stores; \<open>consuming\<close> (\<open>ConsumerRefine\<close>) extends it with the gate and is interpreted on the consumer
  over Postgres. \<open>AnalyticsClaims\<close>: no event is ever counted twice, both stores agree, and which
  faults lose an event.

  \<^bold>\<open>End to end.\<close> \<open>EndToEnd\<close> follows an event from the request through outbox, relay, broker and consumer to a
  row of the report. \<open>EndToEndClaims\<close>: the report never tells more than the committed history, and
  exactly that once everything has been delivered.

  \<^bold>\<open>MCP, start and stop.\<close> \<open>Mcp\<close> has the tools, their results and the client of the reports service. \<open>Boot\<close>
  has the retries, configuration, migrations, pools and wiring of the four \<open>main\<close> packages, \<open>Telemetry\<close>
  the providers, the log handlers, the request log and the run of \<open>cmd/pathmgmt\<close> from its set-up to its
  last deferred close, \<open>Lifecycle\<close> the goroutines of each process as step relations. \<open>McpClaims\<close>,
  \<open>BootClaims\<close>, \<open>TelemetryClaims\<close> and \<open>LifecycleClaims\<close>: the tools only read and agree with the REST
  answers, a start is wired over one pool or none and a failed one leaves nothing open, and the
  order in which the parts of a process stop.
\<close>

text \<open>
  \<^bold>\<open>How the code is represented.\<close> A function with effects takes and returns the state of its adapters and is
  total; \<open>nil\<close> is \<open>None\<close>, an error \<open>Inl\<close>, a panic of a handler \<open>None\<close>. A context is whether it carries a
  transaction. A \<open>time.Duration\<close> and the columns of the read model are 64-bit words, so overflow is
  the code's; an instant is an unbounded integer of nanoseconds. Tables are lists of rows.

  \<^bold>\<open>Bounds.\<close> The consumer's loop runs for a number of messages and the relay's for a list of passes: the
  theorems hold for every number, and the relay's progress theorem says how many passes are enough.
  The parser of durations has as many rounds as its text has characters; more give the same result.
  Deliveries are bounded by \<open>2 ^ 62\<close> where a counter must not overflow. The retries of the code are its
  own constants.

  \<^bold>\<open>Parameters.\<close> Code that is not under \<open>src/\<close> is an argument, and what is relied on is a hypothesis:
  that ids are unique and not empty, that a Kafka write is appended when it is acknowledged and is
  appended or not when it fails (\<open>writer_ok\<close>), that the CloudEvents SDK reads back what it wrote
  (\<open>sdk_ok\<close>) and a \<open>jsonb\<close> column keeps a document's meaning, that \<open>backoff.Retry\<close> makes the calls it is
  told to (\<open>retry_ok\<close>), that pools and providers are open exactly between their making and their
  close. The time zone database, case mapping, the order of a collation, the rounding of a
  timestamp column, chi's routing and Go's maps' order are arguments without hypotheses or with the
  least that a property needs. Each property with a hypothesis has a concrete instance.

  \<^bold>\<open>Not modelled.\<close> The text of log lines other than the request log and the line's fields, spans and
  the metrics of the HTTP middleware; the transport of the MCP server and of the HTTP servers;
  kafka-go, pgx, golang-migrate, the CloudEvents, OpenTelemetry and MCP SDKs themselves; the bodies of the
  SQL migrations beyond the constraints the statements meet. The interleavings modelled are those of
  the calls of use cases over Postgres (\<open>Concurrency\<close>), of whole requests, relay passes and consumed
  messages in any order, of another relay's locks, of the sessions that share the table of idempotency
  keys (\<open>KeyRace\<close>, where the handler's writes are only counted), and of the goroutines of a stop. The
  statements of two open transactions on the paths and schedules are not interleaved, so their row
  locks are not there, and neither are data races on the objects of the in-memory store. The
  functions that only change the type of a slice of strings are the identity here.
\<close>

end
